(* ===== verification/Prelude.thy ===== *)
theory Prelude
  imports Main "HOL-Library.Word" "HOL-Library.List_Lexorder"
begin

text \<open>
  Shared ground of the development: the machine types of the C++ sources, exceptions as values,
  little-endian bytes of a machine word, and the two ordered containers of the standard library
  (\<^verbatim>\<open>std::map\<close> and \<^verbatim>\<open>std::set\<close>) as strictly sorted lists, with the laws of their interface stated as a
  locale. Everything here is about the language and its library; the program starts in the
  theories that import this one.
\<close>

unbundle bit_operations_syntax

section \<open>Machine types, exceptions, results\<close>

type_synonym u8 = "8 word"
type_synonym u16 = "16 word"
type_synonym u32 = "32 word"
type_synonym u64 = "64 word"

text \<open>\<open>int64_t\<close> and \<open>double\<close> are kept as their 64 bits: \<open>sint\<close> reads the former, the latter is only copied.\<close>

type_synonym i64 = "64 word"
type_synonym f64 = "64 word"

type_synonym bytes = "u8 list"

text \<open>A \<open>std::string\<close> is its sequence of bytes; \<open>ascii\<close> turns a literal into one.\<close>

type_synonym str = "u8 list"

definition ascii :: "string \<Rightarrow> str" where
  "ascii s = map of_char s"

text \<open>The exceptions the sources throw or let the library throw; all of them are \<open>std::exception\<close>s.\<close>

datatype exn = message_underflow | runtime_error string | length_error

text \<open>
  The theorem collections: \<open>wire_simps\<close> says what each writer appends and what each reader does on
  it, \<open>frame_simps\<close> which parts of a state an operation leaves alone, \<open>inv_intros\<close> which invariants
  it keeps.
\<close>

named_theorems wire_simps
named_theorems frame_simps
named_theorems inv_intros

section \<open>Random numbers\<close>

text \<open>
  A \<^verbatim>\<open>std::mt19937\<close> is the sequence of numbers it will deliver and a position in it. The sequence is
  arbitrary, and a \<^verbatim>\<open>std::uniform_int_distribution\<close> maps its next number into the interval, so that
  every sequence of results within the bounds is one of some generator: theorems over all
  generators hold for the real one.
\<close>

record rng =
  rng_numbers :: "nat \<Rightarrow> nat"
  rng_position :: nat

definition uniform_int :: "nat \<Rightarrow> nat \<Rightarrow> rng \<Rightarrow> nat \<times> rng" where
  "uniform_int lo hi g =
     (lo + rng_numbers g (rng_position g) mod (hi - lo + 1), g\<lparr>rng_position := rng_position g + 1\<rparr>)"

text \<open>\<^verbatim>\<open>for (auto &b : bytes) b = static_cast<uint8_t>(distribution(rng));\<close>\<close>

fun draw_bytes :: "nat \<Rightarrow> nat \<Rightarrow> nat \<Rightarrow> rng \<Rightarrow> bytes \<times> rng" where
  "draw_bytes 0 lo hi g = ([], g)"
| "draw_bytes (Suc n) lo hi g =
     (let (v, g') = uniform_int lo hi g; (vs, g'') = draw_bytes n lo hi g' in (of_nat v # vs, g''))"

lemma length_draw_bytes: "draw_bytes n lo hi g = (bs, g') \<Longrightarrow> length bs = n"
  by (induction n arbitrary: g g' bs) (auto split: prod.splits)

lemma uniform_int_range: "lo \<le> hi \<Longrightarrow> uniform_int lo hi g = (v, g') \<Longrightarrow> lo \<le> v \<and> v \<le> hi"
  by (auto simp: uniform_int_def) (metis Suc_eq_plus1 le_add_diff_inverse less_Suc_eq_le mod_less_divisor nat_add_left_cancel_le zero_less_Suc)

lemma draw_bytes_nonzero: "draw_bytes n 1 255 g = (bs, g') \<Longrightarrow> b \<in> set bs \<Longrightarrow> b \<noteq> 0"
proof (induction n arbitrary: g g' bs)
  case (Suc n)
  obtain v h where v: "uniform_int 1 255 g = (v, h)" by force
  obtain vs h' where vs: "draw_bytes n 1 255 h = (vs, h')" by force
  have "1 \<le> v" "v \<le> 255" using uniform_int_range [OF _ v] by auto
  then have "unat (of_nat v :: u8) \<noteq> 0" by (simp add: unat_of_nat take_bit_nat_eq_self)
  then have "(of_nat v :: u8) \<noteq> 0" by (metis unat_0)
  moreover have "bs = of_nat v # vs" using Suc.prems(1) by (simp add: v [simplified] vs [simplified])
  ultimately show ?case using Suc.IH [OF vs] Suc.prems(2) by auto
qed simp

section \<open>Little-endian bytes of a word\<close>

text \<open>\<open>le_bytes n w\<close> is the memory image of a word on a little-endian machine, its lowest \<open>n\<close> bytes first.\<close>

definition le_bytes :: "nat \<Rightarrow> 'a::len word \<Rightarrow> bytes" where
  "le_bytes n w = map (\<lambda>i. ucast (drop_bit (8 * i) w)) [0..<n]"

fun le_word :: "bytes \<Rightarrow> 'a::len word" where
  "le_word [] = 0"
| "le_word (b # bs) = ucast b OR push_bit 8 (le_word bs)"

lemma length_le_bytes [simp]: "length (le_bytes n w) = n"
  by (simp add: le_bytes_def)

lemma le_bytes_nth [simp]: "i < n \<Longrightarrow> le_bytes n w ! i = ucast (drop_bit (8 * i) w)"
  by (simp add: le_bytes_def)

lemma le_bytes_eq_Nil [simp]: "le_bytes n w = [] \<longleftrightarrow> n = 0"
  by (simp add: le_bytes_def)

lemma le_bytes_1 [simp]: "le_bytes (Suc 0) (b :: u8) = [b]"
  by (simp add: le_bytes_def)

lemma bit_le_word:
  "bit (le_word bs :: 'a::len word) n \<longleftrightarrow>
     n < LENGTH('a) \<and> n div 8 < length bs \<and> bit (bs ! (n div 8)) (n mod 8)"
proof (induction bs arbitrary: n)
  case Nil
  then show ?case by simp
next
  case (Cons b bs)
  show ?case
  proof (cases "n < 8")
    case True
    then show ?thesis by (simp add: bit_or_iff bit_push_bit_iff bit_ucast_iff)
  next
    case False
    then obtain m where m: "n = m + 8" by (metis add.commute le_Suc_ex not_less)
    have "\<not> bit b (m + 8)" by (simp add: bit_word.rep_eq not_le)
    moreover have "(m + 8) div 8 = Suc (m div 8)" by simp
    ultimately show ?thesis
      by (auto simp: m bit_or_iff bit_push_bit_iff bit_ucast_iff Cons.IH)
  qed
qed

lemma le_word_le_bytes [simp]:
  fixes w :: "'a::len word"
  assumes "LENGTH('a) \<le> 8 * n"
  shows "le_word (le_bytes n w) = w"
proof (rule bit_word_eqI)
  fix k assume k: "k < LENGTH('a)"
  with assms have "k div 8 < n" by auto
  then show "bit (le_word (le_bytes n w) :: 'a word) k = bit w k"
    using k by (simp add: bit_le_word bit_ucast_iff bit_drop_bit_eq)
qed

lemma le_bytes_le_word [simp]:
  assumes "length bs = n" "8 * n \<le> LENGTH('a)"
  shows "le_bytes n (le_word bs :: 'a::len word) = bs"
proof (rule nth_equalityI)
  fix i assume "i < length (le_bytes n (le_word bs :: 'a word))"
  then have i: "i < n" by simp
  show "le_bytes n (le_word bs :: 'a word) ! i = bs ! i"
  proof (rule bit_word_eqI)
    fix k assume "k < LENGTH(8)"
    with i assms show "bit (le_bytes n (le_word bs :: 'a word) ! i) k = bit (bs ! i) k"
      by (simp add: bit_ucast_iff bit_drop_bit_eq bit_le_word add.commute)
  qed
qed (simp add: assms)

section \<open>Masks and shifts as arithmetic\<close>

lemma bit_word_of_nat: "bit (of_nat y :: 'a::len word) n \<longleftrightarrow> n < LENGTH('a) \<and> bit y n"
  by transfer (simp add: bit_take_bit_iff bit_of_nat_iff_bit)

lemma or_of_nat_add:
  assumes "y < 2 ^ k"
  shows "push_bit k (of_nat a :: 'a::len word) OR of_nat y = of_nat (2 ^ k * a + y)"
proof -
  have "\<not> bit y n" if "k \<le> n" for n
    using assms that by (metis bit_take_bit_iff not_less take_bit_nat_eq_self)
  then have "push_bit k (of_nat a :: 'a word) AND of_nat y = 0"
    by (intro bit_word_eqI) (auto simp: bit_and_iff bit_push_bit_iff bit_word_of_nat)
  then have "push_bit k (of_nat a :: 'a word) OR of_nat y = push_bit k (of_nat a) + of_nat y"
    by (simp add: disjunctive_add_eq_or)
  then show ?thesis by (simp add: push_bit_eq_mult mult.commute)
qed

lemma or_of_nat_const:
  assumes "x < 2 ^ k"
  shows "(of_nat (2 ^ k * a) :: 'a::len word) OR of_nat x = of_nat (2 ^ k * a + x)"
  using or_of_nat_add [OF assms, of a, where 'a = 'a]
  by (simp add: push_bit_eq_mult mult.commute)

lemma not_bit_small: "x < 2 ^ k \<Longrightarrow> k \<le> n \<Longrightarrow> \<not> bit (x :: nat) n"
  by (metis bit_take_bit_iff not_less take_bit_nat_eq_self)

lemma and_mask_of_nat: "(of_nat x :: 'a::len word) AND mask k = of_nat (x mod 2 ^ k)"
  by (rule bit_word_eqI) (auto simp: bit_word_of_nat bit_simps simp flip: take_bit_eq_mod)

lemma drop_bit_of_nat_small:
  "x < 2 ^ LENGTH('a) \<Longrightarrow> drop_bit k (of_nat x :: 'a::len word) = of_nat (x div 2 ^ k)"
  by (rule bit_word_eqI)
    (auto simp: bit_word_of_nat bit_drop_bit_eq not_bit_small not_less simp flip: drop_bit_eq_div
      intro: ccontr)

lemma ucast_of_nat_small:
  "x < 2 ^ LENGTH('a) \<Longrightarrow> (ucast (of_nat x :: 'a::len word) :: 'b::len word) = of_nat x"
  by (rule bit_word_eqI) (auto simp: bit_ucast_iff bit_word_of_nat not_bit_small not_less intro: ccontr)

lemma unat_take_bit_less: "unat (take_bit n w) < 2 ^ n"
  by (simp add: unsigned_take_bit_eq take_bit_nat_less_exp)

lemma unat_ucast_take_bit_less: "unat (ucast (take_bit n w)) < 2 ^ n"
  using unat_take_bit_less [of n w] le_less_trans [OF take_bit_nat_less_eq_self]
  by (simp only: unsigned_ucast_eq)

section \<open>Ordered containers\<close>

text \<open>
  A \<^verbatim>\<open>std::map\<close> is the list of its entries in iteration order, that is strictly ascending in the key;
  a \<^verbatim>\<open>std::set\<close> is the ascending list of its elements. Lookup is \<open>map_of\<close> and list membership.
\<close>

type_synonym ('k, 'v) omap = "('k \<times> 'v) list"
type_synonym 'a oset = "'a list"

text \<open>\<^verbatim>\<open>m[k] = v\<close>\<close>

fun omap_put :: "'k::linorder \<Rightarrow> 'v \<Rightarrow> ('k, 'v) omap \<Rightarrow> ('k, 'v) omap" where
  "omap_put k v [] = [(k, v)]"
| "omap_put k v ((k', v') # m) =
     (if k < k' then (k, v) # (k', v') # m
      else if k = k' then (k, v) # m
      else (k', v') # omap_put k v m)"

text \<open>\<^verbatim>\<open>m.erase(k)\<close>\<close>

definition omap_del :: "'k \<Rightarrow> ('k, 'v) omap \<Rightarrow> ('k, 'v) omap" where
  "omap_del k m = filter (\<lambda>e. fst e \<noteq> k) m"

text \<open>\<^verbatim>\<open>m.try_emplace(k, v)\<close> and \<^verbatim>\<open>m.emplace(k, v)\<close>: no effect when the key is present\<close>

definition omap_emplace :: "'k::linorder \<Rightarrow> 'v \<Rightarrow> ('k, 'v) omap \<Rightarrow> ('k, 'v) omap" where
  "omap_emplace k v m = (if map_of m k = None then omap_put k v m else m)"

definition omap_ok :: "('k::linorder, 'v) omap \<Rightarrow> bool" where
  "omap_ok m \<longleftrightarrow> sorted_wrt (<) (map fst m)"

fun oset_add :: "'a::linorder \<Rightarrow> 'a oset \<Rightarrow> 'a oset" where
  "oset_add x [] = [x]"
| "oset_add x (y # ys) =
     (if x < y then x # y # ys else if x = y then y # ys else y # oset_add x ys)"

definition oset_del :: "'a \<Rightarrow> 'a oset \<Rightarrow> 'a oset" where
  "oset_del x s = filter (\<lambda>y. y \<noteq> x) s"

definition oset_ok :: "'a::linorder oset \<Rightarrow> bool" where
  "oset_ok s \<longleftrightarrow> sorted_wrt (<) s"

subsection \<open>The interface of an ordered map\<close>

text \<open>
  What the clients of a \<^verbatim>\<open>std::map\<close> rely on: lookup after assignment and erasure, and an iteration
  that visits every entry once.
\<close>

locale ordered_map =
  fixes find :: "'m \<Rightarrow> 'k::linorder \<Rightarrow> 'v option"
    and assign :: "'k \<Rightarrow> 'v \<Rightarrow> 'm \<Rightarrow> 'm"
    and erase :: "'k \<Rightarrow> 'm \<Rightarrow> 'm"
    and entries :: "'m \<Rightarrow> ('k \<times> 'v) list"
    and inv :: "'m \<Rightarrow> bool"
  assumes find_assign: "find (assign k v m) j = (if j = k then Some v else find m j)"
    and find_erase: "find (erase k m) j = (if j = k then None else find m j)"
    and entries_find: "inv m \<Longrightarrow> (k, v) \<in> set (entries m) \<longleftrightarrow> find m k = Some v"
    and entries_sorted: "inv m \<Longrightarrow> sorted_wrt (<) (map fst (entries m))"
    and inv_assign: "inv m \<Longrightarrow> inv (assign k v m)"
    and inv_erase: "inv m \<Longrightarrow> inv (erase k m)"
begin

lemma dom_assign: "dom (find (assign k v m)) = insert k (dom (find m))"
  by (auto simp: dom_def find_assign)

lemma dom_erase: "dom (find (erase k m)) = dom (find m) - {k}"
  by (auto simp: dom_def find_erase)

lemma dom_entries: "inv m \<Longrightarrow> dom (find m) = fst ` set (entries m)"
proof -
  assume "inv m"
  then have "k \<in> dom (find m) \<longleftrightarrow> (\<exists>v. (k, v) \<in> set (entries m))" for k
    by (auto simp: entries_find)
  then show ?thesis by (force simp: image_iff)
qed

lemma finite_dom: "inv m \<Longrightarrow> finite (dom (find m))"
  by (simp add: dom_entries)

lemma card_entries: "inv m \<Longrightarrow> length (entries m) = card (dom (find m))"
proof -
  assume i: "inv m"
  from entries_sorted [OF i] have "distinct (map fst (entries m))"
    by (simp add: strict_sorted_iff)
  then have "card (set (map fst (entries m))) = length (map fst (entries m))"
    by (rule distinct_card)
  then show ?thesis using dom_entries [OF i] by simp
qed

end

lemma map_of_omap_put: "map_of (omap_put k v m) j = (if j = k then Some v else map_of m j)"
  by (induction m) auto

lemma map_of_omap_del: "map_of (omap_del k m) j = (if j = k then None else map_of m j)"
  by (induction m) (auto simp: omap_del_def)

lemma set_omap_put: "set (omap_put k v m) \<subseteq> insert (k, v) (set m)"
  by (induction m) (auto split: if_splits)

lemma set_keys_omap_put: "fst ` set (omap_put k v m) = insert k (fst ` set m)"
  by (induction k v m rule: omap_put.induct) (simp_all add: insert_commute)

lemma omap_ok_put: "omap_ok m \<Longrightarrow> omap_ok (omap_put k v m)"
proof (induction k v m rule: omap_put.induct)
  case (2 k v k' v' m)
  have "\<forall>x \<in> set m. k' < fst x" using "2.prems" by (auto simp: omap_ok_def)
  moreover have "\<forall>x \<in> set (omap_put k v m). fst x = k \<or> fst x \<in> fst ` set m"
    using set_keys_omap_put [of k v m] by blast
  ultimately show ?case
    using 2 by (fastforce simp: omap_ok_def)
qed (simp add: omap_ok_def)

lemma omap_ok_del: "omap_ok m \<Longrightarrow> omap_ok (omap_del k m)"
  by (induction m) (auto simp: omap_ok_def omap_del_def)

lemma omap_ok_distinct: "omap_ok m \<Longrightarrow> distinct (map fst m)"
  by (simp add: omap_ok_def strict_sorted_iff)

interpretation om: ordered_map map_of omap_put omap_del "\<lambda>m. m" omap_ok
proof unfold_locales
  fix m :: "('a, 'b) omap" and k v
  assume "omap_ok m"
  then show "(k, v) \<in> set m \<longleftrightarrow> map_of m k = Some v"
    by (simp add: omap_ok_distinct)
qed (simp_all add: map_of_omap_put map_of_omap_del omap_ok_put omap_ok_del,
     simp add: omap_ok_def)

lemma length_omap_del: "length (omap_del k m) \<le> length m"
  by (simp add: omap_del_def)

lemmas omap_simps = map_of_omap_put map_of_omap_del om.dom_assign om.dom_erase

lemma omap_ok_Nil [simp]: "omap_ok []"
  by (simp add: omap_ok_def)

lemma omap_ok_emplace: "omap_ok m \<Longrightarrow> omap_ok (omap_emplace k v m)"
  by (simp add: omap_emplace_def omap_ok_put)

lemma map_of_omap_emplace:
  "map_of (omap_emplace k v m) j = (if j = k \<and> map_of m k = None then Some v else map_of m j)"
  by (simp add: omap_emplace_def map_of_omap_put)

subsection \<open>Ordered sets\<close>

lemma set_oset_add [simp]: "set (oset_add x s) = insert x (set s)"
  by (induction s) auto

lemma set_oset_del [simp]: "set (oset_del x s) = set s - {x}"
  by (auto simp: oset_del_def)

lemma oset_ok_Nil [simp]: "oset_ok []"
  by (simp add: oset_ok_def)

lemma oset_ok_add: "oset_ok s \<Longrightarrow> oset_ok (oset_add x s)"
  by (induction s) (auto simp: oset_ok_def)

lemma oset_ok_del: "oset_ok s \<Longrightarrow> oset_ok (oset_del x s)"
  by (induction s) (auto simp: oset_ok_def oset_del_def)

lemma oset_ok_distinct: "oset_ok s \<Longrightarrow> distinct s"
  by (simp add: oset_ok_def strict_sorted_iff)

lemma oset_ok_hd_le: "oset_ok s \<Longrightarrow> x \<in> set s \<Longrightarrow> hd s \<le> x"
  by (cases s) (auto simp: oset_ok_def)

lemma oset_add_member: "oset_ok s \<Longrightarrow> x \<in> set s \<Longrightarrow> oset_add x s = s"
  by (induction s) (auto simp: oset_ok_def)

section \<open>Loops over a container\<close>

lemma fold_keeps: "(\<And>x s. P (f x s) = P s) \<Longrightarrow> P (fold f xs s) = P s"
  by (induction xs arbitrary: s) simp_all

lemma fold_invariant_set: "P s \<Longrightarrow> (\<And>x s. x \<in> set xs \<Longrightarrow> P s \<Longrightarrow> P (f x s)) \<Longrightarrow> P (fold f xs s)"
  by (induction xs arbitrary: s) simp_all

end
