(* ===== verification/Framing.thy ===== *)
theory Framing
  imports Message
begin

text \<open>
  TCP framing, \<^verbatim>\<open>src/src/net/framing.hpp\<close>: \<open>make_frame\<close> and the incremental \<open>frame_parser\<close>. The parser
  is the record of its buffer; \<open>next\<close> returns a payload or an error together with the parser. The
  lemmas say that any split of a stream of frames into reads gives back exactly the payloads in
  order, that a parser waiting for bytes holds less than one maximal frame, and that an error is
  permanent.
\<close>

section \<open>Frames\<close>

definition frame_magic :: u16 where
  "frame_magic = 0x5713"

definition max_frame_payload :: nat where
  "max_frame_payload = 0x100000"

definition make_frame :: "bytes \<Rightarrow> bytes" where
  "make_frame payload =
     m_data (write_bytes payload (write_scalar (ssize payload) (write_u16 frame_magic message_writer_new)))"

datatype frame_error = incomplete | bad_magic | bad_length

section \<open>frame_parser\<close>

record frame_parser =
  m_buffer :: bytes

definition frame_parser_new :: frame_parser where
  "frame_parser_new = \<lparr>m_buffer = []\<rparr>"

definition feed :: "bytes \<Rightarrow> frame_parser \<Rightarrow> frame_parser" where
  "feed data p = p\<lparr>m_buffer := m_buffer p @ data\<rparr>"

text \<open>
  \<open>next()\<close> in two halves: \<open>frame_header\<close> is its first part, up to the accepted length, and gives the
  sizes of header and payload. The header is read by a \<open>message_reader\<close> over exactly its bytes; that
  \<open>read_scalar\<close> cannot throw (\<open>header_scalar_total\<close> below), so its exception branch is never taken.
\<close>

definition frame_header :: "bytes \<Rightarrow> frame_error + nat \<times> nat" where
  "frame_header buf =
     (if length buf < 3 then Inl incomplete
      else if (ucast (buf ! 0) OR push_bit 8 (ucast (buf ! 1)) :: u16) \<noteq> frame_magic then Inl bad_magic
      else
        (let scalar_size = unat (buf ! 2) in
         if scalar_size \<noteq> 1 \<and> scalar_size \<noteq> 2 \<and> scalar_size \<noteq> 4 \<and> scalar_size \<noteq> 8 then Inl bad_length
         else
           (let header = 3 + scalar_size in
            if length buf < header then Inl incomplete
            else
              (case read_scalar (message_reader_new (take (header - 2) (drop 2 buf))) of
                 Inl e \<Rightarrow> Inl bad_length
               | Inr (len, r) \<Rightarrow>
                   if sint len < 0 \<or> sint len > int max_frame_payload then Inl bad_length
                   else Inr (header, unat len)))))"

definition parser_next :: "frame_parser \<Rightarrow> (frame_error + bytes) \<times> frame_parser" where
  "parser_next p =
     (case frame_header (m_buffer p) of
        Inl e \<Rightarrow> (Inl e, p)
      | Inr (header, len) \<Rightarrow>
          let total = header + len in
          if length (m_buffer p) < total then (Inl incomplete, p)
          else (Inr (take len (drop header (m_buffer p))), p\<lparr>m_buffer := drop total (m_buffer p)\<rparr>))"

lemma frame_header_Inr:
  assumes "frame_header buf = Inr (header, len)"
  shows "4 \<le> header" "header \<le> 11" "header \<le> length buf" "len \<le> max_frame_payload"
proof -
  define n where "n = unat (buf ! 2)"
  obtain v r where *: "n = 1 \<or> n = 2 \<or> n = 4 \<or> n = 8" "\<not> length buf < 3 + n"
    "\<not> (sint (v :: i64) < 0 \<or> sint v > int max_frame_payload)" "header = 3 + n" "len = unat v"
    using assms by (auto simp: frame_header_def Let_def n_def split: if_splits sum.splits prod.splits)
  then have "uint v = sint v"
    using sint_lt [of v] by (simp add: uint_sint take_bit_int_eq_self)
  with * show "len \<le> max_frame_payload" by (simp add: unat_eq_nat_uint nat_le_iff)
  from * show "4 \<le> header" "header \<le> 11" "header \<le> length buf" by auto
qed

text \<open>Draining the parser: payloads are taken until it needs more bytes or fails.\<close>

lemma parser_next_shrinks:
  "parser_next p = (Inr payload, p') \<Longrightarrow> length (m_buffer p') + 4 \<le> length (m_buffer p)"
  by (auto simp: parser_next_def Let_def dest: frame_header_Inr(1) split: sum.splits prod.splits if_splits)

function drain :: "frame_parser \<Rightarrow> bytes list \<times> frame_error \<times> frame_parser" where
  "drain p =
     (case parser_next p of
        (Inl e, p') \<Rightarrow> ([], e, p')
      | (Inr payload, p') \<Rightarrow> (let (ps, e, p'') = drain p' in (payload # ps, e, p'')))"
  by pat_completeness auto
termination
  by (relation "measure (\<lambda>p. length (m_buffer p))") (auto dest!: parser_next_shrinks [OF sym])

declare drain.simps [simp del]

section \<open>One frame\<close>

lemma make_frame_eq: "make_frame payload = le_bytes 2 frame_magic @ scalar_bytes (ssize payload) @ payload"
  by (simp add: make_frame_def wire_simps)

lemma frame_magic_bytes: "le_bytes 2 frame_magic = [0x13, 0x57]"
  by code_simp

text \<open>The size byte of a compact scalar announces its length.\<close>

lemma scalar_bytes_header:
  obtains n bs where "scalar_bytes v = of_nat n # bs" "length bs = n" "n \<in> {1, 2, 4, 8}"
proof -
  have "\<exists>n bs. scalar_bytes v = of_nat n # bs \<and> length bs = n \<and> n \<in> {1, 2, 4, 8}"
    by (auto simp: scalar_bytes_eq)
  then show ?thesis using that by blast
qed

lemma parser_next_make_frame:
  assumes "length payload \<le> max_frame_payload"
  shows "parser_next \<lparr>m_buffer = make_frame payload @ extra\<rparr> = (Inr payload, \<lparr>m_buffer = extra\<rparr>)"
proof -
  have l: "sint (ssize payload) = int (length payload)" "unat (ssize payload) = length payload"
    using assms by (simp_all add: sint_ssize unat_ssize max_frame_payload_def)
  obtain n bs where n: "scalar_bytes (ssize payload) = of_nat n # bs" "length bs = n" "n \<in> {1, 2, 4, 8}"
    by (rule scalar_bytes_header)
  have un: "unat (of_nat n :: u8) = n" using n(3) by auto
  have rd: "read_scalar (message_reader_new (of_nat n # bs)) = Inr (ssize payload, reader_at (of_nat n # bs) [])"
    using scalarc.dec_end [where a = "ssize payload" and pre = "[]"] n by (simp add: message_reader_new_at)
  define buf where "buf = 0x13 # 0x57 # of_nat n # bs @ payload @ extra"
  have buf: "make_frame payload @ extra = buf"
    by (simp add: make_frame_eq frame_magic_bytes n buf_def)
  have magic: "(ucast (buf ! 0) OR push_bit 8 (ucast (buf ! 1)) :: u16) = frame_magic"
    by (simp add: frame_magic_def buf_def)
  have parts: "buf ! 2 = of_nat n" "take (3 + n - 2) (drop 2 buf) = of_nat n # bs"
    "length buf = 3 + n + length payload + length extra"
    "take (length payload) (drop (3 + n) buf) = payload" "drop (3 + n + length payload) buf = extra"
    using n(2) by (simp_all add: buf_def numeral_2_eq_2 numeral_3_eq_3)
  have "frame_header buf = Inr (3 + n, length payload)"
    unfolding frame_header_def Let_def parts magic un rd
    using n(3) l assms by auto
  then show ?thesis
    by (simp add: buf parser_next_def parts)
qed

lemma header_scalar_total:
  assumes "unat b = n" "n \<in> {1, 2, 4, 8}" "length bs = n"
  shows "\<exists>v r. read_scalar (message_reader_new (b # bs)) = Inr (v, r)"
proof -
  have b: "b = of_nat n" using assms(1) by auto
  from assms(2,3) show ?thesis
    by (auto simp: b read_scalar_def message_reader_new_at codec_simps read_word_def read_i64_def rbind_def
        [of "rbind _ _"] rbind_def [of "take_bytes _"] take_bytes_at rreturn_def)
qed

text \<open>
  More bytes never change a payload or an error that is already decided: only \<open>incomplete\<close> waits.
\<close>

lemma frame_header_append:
  assumes "frame_header buf \<noteq> Inl incomplete"
  shows "frame_header (buf @ extra) = frame_header buf"
proof -
  have l: "\<not> length buf < 3" using assms by (auto simp: frame_header_def)
  then have nth: "(buf @ extra) ! 0 = buf ! 0" "(buf @ extra) ! 1 = buf ! 1" "(buf @ extra) ! 2 = buf ! 2"
    by (auto simp: nth_append)
  show ?thesis
  proof (cases "length buf < 3 + unat (buf ! 2)")
    case True
    then show ?thesis
      using assms l unfolding frame_header_def Let_def nth by (auto split: if_splits)
  next
    case False
    then have "take (3 + unat (buf ! 2) - 2) (drop 2 (buf @ extra)) =
        take (3 + unat (buf ! 2) - 2) (drop 2 buf)" by simp
    moreover have "\<not> length (buf @ extra) < 3 + unat (buf ! 2)" "\<not> length (buf @ extra) < 3"
      using False by simp_all
    ultimately show ?thesis
      using False l unfolding frame_header_def Let_def nth by (simp only: if_False)
  qed
qed

lemma parser_next_feed:
  assumes "parser_next p = (res, p')" "res \<noteq> Inl incomplete"
  shows "parser_next (feed extra p) = (res, feed extra p')"
proof -
  have "frame_header (m_buffer p) \<noteq> Inl incomplete"
    using assms by (auto simp: parser_next_def)
  then show ?thesis
    using assms frame_header_append [of "m_buffer p" extra] frame_header_Inr(3)
    by (auto simp: parser_next_def feed_def Let_def split: sum.splits prod.splits if_splits)
qed

lemma parser_next_incomplete_bound:
  "parser_next p = (Inl incomplete, p') \<Longrightarrow> length (m_buffer p) < 11 + max_frame_payload"
proof -
  assume n: "parser_next p = (Inl incomplete, p')"
  show ?thesis
  proof (cases "frame_header (m_buffer p)")
    case (Inl e)
    then have "length (m_buffer p) < 11"
      using n by (auto simp: parser_next_def frame_header_def Let_def split: if_splits sum.splits prod.splits)
    then show ?thesis by simp
  next
    case (Inr hl)
    then show ?thesis
      using n frame_header_Inr(2,4)
      by (cases hl) (fastforce simp: parser_next_def Let_def split: if_splits)
  qed
qed

section \<open>A stream of frames\<close>

text \<open>
  Draining does not depend on how the bytes arrive: the bytes already drained and the ones still to
  come give together what they give at once.
\<close>

lemma drain_feed:
  "drain (feed extra p) =
     (let (ps, e, p') = drain p; (qs, e', p'') = drain (feed extra p') in (ps @ qs, e', p''))"
proof (induction p rule: drain.induct)
  case (1 p)
  obtain res p' where n: "parser_next p = (res, p')" by force
  show ?case
  proof (cases res)
    case (Inl e)
    then have "p' = p"
      using n by (auto simp: parser_next_def Let_def split: if_splits sum.splits prod.splits)
    with n Inl show ?thesis by (simp add: drain.simps [of p] split: prod.split)
  next
    case (Inr payload)
    then have "parser_next (feed extra p) = (Inr payload, feed extra p')"
      using parser_next_feed [OF n] by simp
    with 1 n Inr show ?thesis
      by (simp add: drain.simps [of p] drain.simps [of "feed extra p"] split: prod.split)
  qed
qed

lemma drain_frames:
  "\<forall>payload \<in> set ps. length payload \<le> max_frame_payload \<Longrightarrow>
   drain \<lparr>m_buffer = concat (map make_frame ps) @ extra\<rparr> =
     (let (qs, e, p') = drain \<lparr>m_buffer = extra\<rparr> in (ps @ qs, e, p'))"
  by (induction ps)
    (simp_all add: drain.simps [of "\<lparr>m_buffer = make_frame _ @ _\<rparr>"] parser_next_make_frame split: prod.split)

text \<open>The successive reads of a socket: feed, then drain.\<close>

fun receive :: "bytes list \<Rightarrow> frame_parser \<Rightarrow> bytes list \<times> frame_parser" where
  "receive [] p = ([], p)"
| "receive (chunk # chunks) p =
     (let (ps, e, p') = drain (feed chunk p); (qs, p'') = receive chunks p' in (ps @ qs, p''))"

lemma feed_append: "feed (a @ b) p = feed b (feed a p)"
  by (simp add: feed_def)

lemma receive_drain:
  "chunks \<noteq> [] \<Longrightarrow>
   receive chunks p = (let (ps, e, p') = drain (feed (concat chunks) p) in (ps, p'))"
proof (induction chunks arbitrary: p)
  case (Cons chunk chunks)
  show ?case
  proof (cases "chunks = []")
    case True
    then show ?thesis by (simp split: prod.split)
  next
    case False
    with Cons.IH show ?thesis
      by (simp add: feed_append drain_feed [of "concat chunks" "feed chunk p"] split: prod.split)
  qed
qed simp

lemma drain_empty: "drain frame_parser_new = ([], incomplete, frame_parser_new)"
  by (simp add: drain.simps parser_next_def frame_parser_new_def frame_header_def)

lemma make_frame_not_Nil: "make_frame payload \<noteq> []"
  by (simp add: make_frame_eq frame_magic_bytes)

text \<open>However the bytes of a sequence of frames are cut into reads, exactly the payloads come out.\<close>

lemma receive_frames:
  assumes "\<forall>payload \<in> set ps. length payload \<le> max_frame_payload" "concat chunks = concat (map make_frame ps)"
  shows "receive chunks frame_parser_new = (ps, frame_parser_new)"
proof (cases "chunks = []")
  case True
  with assms(2) have "ps = []" using make_frame_not_Nil by (cases ps) auto
  with True show ?thesis by simp
next
  case False
  have "drain (feed (concat chunks) frame_parser_new) = (ps, incomplete, frame_parser_new)"
    using drain_frames [OF assms(1), of "[]"] drain_empty
    by (simp add: assms(2) feed_def frame_parser_new_def)
  with False show ?thesis by (simp add: receive_drain)
qed

end
