(* ===== verification/Rc4.thy ===== *)
theory Rc4
  imports Prelude "HOL-Library.Multiset"
begin

text \<open>
  The stream cipher, \<^verbatim>\<open>src/src/crypto/rc4.hpp\<close>. The state array is a list of 256 bytes and every loop
  a fold over its counter. The contract of a stream cipher is a locale; \<open>rc4_apply\<close> interprets it,
  which gives decryption, length and prefix facts, and the state array is shown to stay a
  permutation of the 256 bytes, so that no index of the source is out of range.
\<close>

section \<open>The cipher\<close>

definition swap :: "nat \<Rightarrow> nat \<Rightarrow> 'a list \<Rightarrow> 'a list" where
  "swap i j s = s[i := s ! j, j := s ! i]"

definition initial_state :: "u8 list" where
  "initial_state = map of_nat [0..<256]"

text \<open>
  One step of the key schedule. For an empty key the source divides by zero; its two callers check
  that the session key is not empty.
\<close>

definition ksa_step :: "bytes \<Rightarrow> nat \<Rightarrow> u8 \<times> u8 list \<Rightarrow> u8 \<times> u8 list" where
  "ksa_step key i = (\<lambda>(j, s). let j' = j + s ! i + key ! (i mod length key) in (j', swap i (unat j') s))"

definition key_schedule :: "bytes \<Rightarrow> u8 list" where
  "key_schedule key = snd (fold (ksa_step key) [0..<256] (0, initial_state))"

text \<open>One pass of the output loop: the new counters, the swapped array and the key byte.\<close>

definition prga_step :: "u8 \<times> u8 \<times> u8 list \<Rightarrow> u8 \<times> (u8 \<times> u8 \<times> u8 list)" where
  "prga_step = (\<lambda>(i, j, s).
     let i' = i + 1; j' = j + s ! unat i'; s' = swap (unat i') (unat j') s
     in (s' ! unat (s' ! unat i' + s' ! unat j'), (i', j', s')))"

fun prga :: "u8 \<times> u8 \<times> u8 list \<Rightarrow> bytes \<Rightarrow> bytes" where
  "prga st [] = []"
| "prga st (byte # data) = (let (k, st') = prga_step st in (byte XOR k) # prga st' data)"

definition rc4_apply :: "bytes \<Rightarrow> bytes \<Rightarrow> bytes" where
  "rc4_apply key data = prga (0, 0, key_schedule key) data"

section \<open>The contract of a stream cipher\<close>

locale stream_cipher =
  fixes apply_key :: "'k \<Rightarrow> bytes \<Rightarrow> bytes"
    and keystream :: "'k \<Rightarrow> nat \<Rightarrow> bytes"
  assumes length_keystream: "length (keystream k n) = n"
    and apply_keystream: "apply_key k data = map2 (XOR) data (keystream k (length data))"
    and keystream_prefix: "m \<le> n \<Longrightarrow> take m (keystream k n) = keystream k m"
begin

lemma length_apply: "length (apply_key k data) = length data"
  by (simp add: apply_keystream length_keystream)

lemma apply_involution: "apply_key k (apply_key k data) = data"
proof (rule nth_equalityI)
  fix i assume "i < length (apply_key k (apply_key k data))"
  then have "i < length data" by (simp add: length_apply)
  then show "apply_key k (apply_key k data) ! i = data ! i"
    by (simp add: apply_keystream length_keystream xor.assoc)
qed (simp add: length_apply)

lemma apply_inj: "apply_key k a = apply_key k b \<Longrightarrow> a = b"
  by (metis apply_involution)

lemma apply_prefix: "take n (apply_key k data) = apply_key k (take n data)"
proof (cases "n \<le> length data")
  case True
  then show ?thesis
    by (simp add: apply_keystream take_map take_zip keystream_prefix min_absorb2)
next
  case False
  then show ?thesis by (simp add: length_apply)
qed

text \<open>
  The keystream restarts for every message: two messages under one key reveal the difference of
  their plaintexts.
\<close>

lemma apply_difference:
  "length a = length b \<Longrightarrow>
   map2 (XOR) (apply_key k a) (apply_key k b) = map2 (XOR) a b"
proof (rule nth_equalityI)
  fix i assume l: "length a = length b" "i < length (map2 (XOR) (apply_key k a) (apply_key k b))"
  then show "map2 (XOR) (apply_key k a) (apply_key k b) ! i = map2 (XOR) a b ! i"
    by (simp add: apply_keystream length_keystream length_apply xor.assoc xor.left_commute xor.commute)
qed (simp add: length_apply)

end

fun prga_bytes :: "nat \<Rightarrow> u8 \<times> u8 \<times> u8 list \<Rightarrow> bytes" where
  "prga_bytes 0 st = []"
| "prga_bytes (Suc n) st = (let (k, st') = prga_step st in k # prga_bytes n st')"

definition rc4_keystream :: "bytes \<Rightarrow> nat \<Rightarrow> bytes" where
  "rc4_keystream key n = prga_bytes n (0, 0, key_schedule key)"

lemma length_prga_bytes: "length (prga_bytes n st) = n"
  by (induction n arbitrary: st) (simp_all split: prod.split)

lemma prga_prga_bytes: "prga st data = map2 (XOR) data (prga_bytes (length data) st)"
  by (induction data arbitrary: st) (simp_all split: prod.split)

lemma take_prga_bytes: "m \<le> n \<Longrightarrow> take m (prga_bytes n st) = prga_bytes m st"
proof (induction n arbitrary: m st)
  case (Suc n)
  then show ?case by (cases m) (simp_all split: prod.split)
qed simp

interpretation rc4: stream_cipher rc4_apply rc4_keystream
  by unfold_locales
    (simp_all add: rc4_keystream_def rc4_apply_def length_prga_bytes prga_prga_bytes take_prga_bytes)

section \<open>The state array\<close>

definition sbox_ok :: "u8 list \<Rightarrow> bool" where
  "sbox_ok s \<longleftrightarrow> mset s = mset initial_state"

lemma swap_alt: "i < length s \<Longrightarrow> j < length s \<Longrightarrow> mset (swap i j s) = mset s"
  by (simp add: swap_def mset_swap)

lemma sbox_ok_length: "sbox_ok s \<Longrightarrow> length s = 256"
  by (metis sbox_ok_def size_mset initial_state_def length_map length_upt diff_zero)

lemma u8_less_256: "unat (x :: u8) < 256"
  using unsigned_less [of x] by simp

lemma sbox_ok_swap: "sbox_ok s \<Longrightarrow> i < 256 \<Longrightarrow> sbox_ok (swap i (unat (j :: u8)) s)"
  using sbox_ok_length [of s] u8_less_256 [of j] by (simp add: sbox_ok_def swap_alt)

lemma sbox_ok_ksa:
  "sbox_ok (snd st) \<Longrightarrow> \<forall>i \<in> set is. i < 256 \<Longrightarrow> sbox_ok (snd (fold (ksa_step key) is st))"
proof (induction "is" arbitrary: st)
  case (Cons i "is")
  obtain j s where st: "st = (j, s)" by force
  have "sbox_ok (snd (ksa_step key i st))"
    using Cons.prems sbox_ok_swap by (simp add: ksa_step_def st Let_def)
  then show ?case using Cons by simp
qed simp

lemma sbox_ok_key_schedule: "sbox_ok (key_schedule key)"
  unfolding key_schedule_def by (rule sbox_ok_ksa) (simp_all add: sbox_ok_def)

lemma sbox_ok_prga_step: "sbox_ok s \<Longrightarrow> prga_step (i, j, s) = (k, i', j', s') \<Longrightarrow> sbox_ok s'"
  using sbox_ok_swap u8_less_256 by (auto simp: prga_step_def Let_def)

end
