(* ===== verification/Bigint.thy ===== *)
theory Bigint
  imports Prelude
begin

text \<open>
  The big-number class of \<^verbatim>\<open>src/src/crypto/rsa.hpp\<close>: unsigned integers as lists of 32-bit limbs, the
  least significant first, with the overflow of every limb written out. \<open>val\<close> is the natural
  number a limb list stands for; the lemmas are a refinement: each operation on limbs computes the
  operation of its name on natural numbers, and keeps the representation free of leading zeros.
\<close>

section \<open>The class\<close>

type_synonym bigint = "u32 list"

definition trim :: "bigint \<Rightarrow> bigint" where
  "trim b = rev (dropWhile (\<lambda>l. l = 0) (rev b))"

definition from_le_bytes :: "bytes \<Rightarrow> bigint" where
  "from_le_bytes data = trim
     (fold (\<lambda>i b. b[i div 4 := b ! (i div 4) OR push_bit (8 * (i mod 4)) (ucast (data ! i))])
        [0..<length data] (replicate ((length data + 3) div 4) 0))"

definition from_be_bytes :: "bytes \<Rightarrow> bigint" where
  "from_be_bytes be = from_le_bytes (rev be)"

definition from_u32 :: "u32 \<Rightarrow> bigint" where
  "from_u32 v = (if v \<noteq> 0 then [v] else [])"

definition to_le_bytes :: "bigint \<Rightarrow> nat \<Rightarrow> bytes" where
  "to_le_bytes b n =
     map (\<lambda>i. if i div 4 < length b then ucast (drop_bit (8 * (i mod 4)) (b ! (i div 4))) else 0) [0..<n]"

function top_bits :: "u32 \<Rightarrow> nat" where
  "top_bits t = (if t = 0 then 0 else Suc (top_bits (drop_bit 1 t)))"
  by pat_completeness auto
termination
proof (relation "measure unat")
  fix t :: u32 assume "t \<noteq> 0"
  then have "unat t \<noteq> 0" by (simp add: unat_eq_zero)
  then have "unat t div 2 < unat t" by simp
  moreover have "unat (drop_bit 1 t) = unat t div 2"
    using unat_drop_bit_eq [of 1 t] by (simp only: drop_bit_eq_div power_one_right)
  ultimately show "(drop_bit 1 t, t) \<in> measure unat" by (simp only: in_measure)
qed simp

declare top_bits.simps [simp del]

definition bit_length :: "bigint \<Rightarrow> nat" where
  "bit_length b = (if b = [] then 0 else (length b - 1) * 32 + top_bits (last b))"

definition big_bit :: "bigint \<Rightarrow> nat \<Rightarrow> bool" where
  "big_bit b n \<longleftrightarrow> n div 32 < length b \<and> drop_bit (n mod 32) (b ! (n div 32)) AND 1 \<noteq> 0"

text \<open>The loop of \<open>compare\<close> from the top limb down, on the reversed limbs\<close>

fun compare_down :: "u32 list \<Rightarrow> u32 list \<Rightarrow> int" where
  "compare_down (x # xs) (y # ys) = (if x \<noteq> y then (if x < y then -1 else 1) else compare_down xs ys)"
| "compare_down _ _ = 0"

definition compare :: "bigint \<Rightarrow> bigint \<Rightarrow> int" where
  "compare a b =
     (if length a \<noteq> length b then (if length a < length b then -1 else 1)
      else compare_down (rev a) (rev b))"

definition mul_inner :: "u32 \<Rightarrow> bigint \<Rightarrow> nat \<Rightarrow> nat \<Rightarrow> u64 \<times> u32 list \<Rightarrow> u64 \<times> u32 list" where
  "mul_inner x b i j = (\<lambda>(carry, r).
     let cur = ucast (r ! (i + j)) + ucast x * ucast (b ! j) + carry
     in (drop_bit 32 cur, r[i + j := ucast cur]))"

definition mul_outer :: "bigint \<Rightarrow> bigint \<Rightarrow> nat \<Rightarrow> u32 list \<Rightarrow> u32 list" where
  "mul_outer a b i r =
     (let (carry, r') = fold (mul_inner (a ! i) b i) [0..<length b] (0, r)
      in r'[i + length b := r' ! (i + length b) + ucast carry])"

definition mul :: "bigint \<Rightarrow> bigint \<Rightarrow> bigint" where
  "mul a b =
     (if a = [] \<or> b = [] then []
      else trim (fold (mul_outer a b) [0..<length a] (replicate (length a + length b) 0)))"

fun shl1_loop :: "u32 \<Rightarrow> bigint \<Rightarrow> bigint" where
  "shl1_loop carry [] = (if carry \<noteq> 0 then [carry] else [])"
| "shl1_loop carry (limb # b) = (push_bit 1 limb OR carry) # shl1_loop (drop_bit 31 limb) b"

definition shl1 :: "bigint \<Rightarrow> bigint" where
  "shl1 b = shl1_loop 0 b"

text \<open>The loop of \<open>sub\<close>; the \<open>int64_t\<close> values stay within \<open>(-2^33, 2^32)\<close>, so they are integers here.\<close>

fun sub_loop :: "bool \<Rightarrow> u32 list \<Rightarrow> u32 list \<Rightarrow> u32 list" where
  "sub_loop borrow [] bs = []"
| "sub_loop borrow (l # ls) bs =
     (let cur = uint l - of_bool borrow - (case bs of [] \<Rightarrow> 0 | b # _ \<Rightarrow> uint b); borrow' = cur < 0
      in word_of_int (cur + (if borrow' then 2 ^ 32 else 0)) # sub_loop borrow' ls (case bs of [] \<Rightarrow> [] | _ # bs' \<Rightarrow> bs'))"

definition sub :: "bigint \<Rightarrow> bigint \<Rightarrow> bigint" where
  "sub a b = trim (sub_loop False a b)"

definition mod_step :: "bigint \<Rightarrow> bigint \<Rightarrow> nat \<Rightarrow> bigint \<Rightarrow> bigint" where
  "mod_step a m i r =
     (let r1 = shl1 r;
          r2 = (if big_bit a i then (let r' = (if r1 = [] then [0] else r1) in r'[0 := r' ! 0 OR 1]) else r1)
      in if compare r2 m \<ge> 0 then sub r2 m else r2)"

definition big_mod :: "bigint \<Rightarrow> bigint \<Rightarrow> bigint" where
  "big_mod a m = fold (mod_step a m) (rev [0..<bit_length a]) []"

definition mod_pow_step :: "bigint \<Rightarrow> bigint \<Rightarrow> bigint \<Rightarrow> nat \<Rightarrow> bigint \<Rightarrow> bigint" where
  "mod_pow_step b ex m i r =
     (let r1 = big_mod (mul r r) m in if big_bit ex i then big_mod (mul r1 b) m else r1)"

definition mod_pow :: "bigint \<Rightarrow> bigint \<Rightarrow> bigint \<Rightarrow> bigint" where
  "mod_pow base ex m = fold (mod_pow_step (big_mod base m) ex m) (rev [0..<bit_length ex]) (from_u32 1)"

section \<open>The number a limb list stands for\<close>

fun val :: "bigint \<Rightarrow> nat" where
  "val [] = 0"
| "val (l # b) = unat l + 2 ^ 32 * val b"

fun bytes_val :: "bytes \<Rightarrow> nat" where
  "bytes_val [] = 0"
| "bytes_val (x # xs) = unat x + 2 ^ 8 * bytes_val xs"

definition trimmed :: "bigint \<Rightarrow> bool" where
  "trimmed b \<longleftrightarrow> b = [] \<or> last b \<noteq> 0"

lemma val_append: "val (a @ b) = val a + 2 ^ (32 * length a) * val b"
  by (induction a) (simp_all add: power_add algebra_simps)

lemma u32_less: "unat (x :: u32) < 2 ^ 32"
  using unsigned_less [of x] by simp

lemma val_less: "val b < 2 ^ (32 * length b)"
proof (induction b)
  case (Cons l b)
  have "unat l + 2 ^ 32 * val b < 2 ^ 32 * (val b + 1)" using u32_less [of l] by simp
  also have "\<dots> \<le> 2 ^ 32 * 2 ^ (32 * length b)" using Cons by (intro mult_left_mono) auto
  finally show ?case by (simp add: power_add)
qed simp

lemma trim_snoc: "trim (b @ [l]) = (if l = 0 then trim b else b @ [l])"
  by (simp add: trim_def)

lemma val_trim [simp]: "val (trim b) = val b"
  by (induction b rule: rev_induct) (auto simp: trim_snoc val_append trim_def)

lemma trimmed_trim [simp]: "trimmed (trim b)"
  by (induction b rule: rev_induct) (auto simp: trim_snoc trimmed_def trim_def)

lemma trimmed_Nil [simp]: "trimmed []"
  by (simp add: trimmed_def)

lemma trimmed_lower: "trimmed b \<Longrightarrow> b \<noteq> [] \<Longrightarrow> 2 ^ (32 * (length b - 1)) \<le> val b"
proof -
  assume "trimmed b" "b \<noteq> []"
  then obtain c l where b: "b = c @ [l]" and l: "l \<noteq> 0" by (cases b rule: rev_cases) (auto simp: trimmed_def)
  from l have "1 \<le> unat l" by (metis less_one not_le unat_eq_zero)
  then have "(2 :: nat) ^ (32 * length c) \<le> 2 ^ (32 * length c) * unat l" by simp
  then show ?thesis by (simp add: b val_append trans_le_add2 del: mult_le_cancel1)
qed

lemma trimmed_zero: "trimmed b \<Longrightarrow> val b = 0 \<longleftrightarrow> b = []"
  using trimmed_lower by fastforce

lemma val_length_less:
  assumes "length a < length b" "trimmed b"
  shows "val a < val b"
proof -
  have "val a < 2 ^ (32 * length a)" by (rule val_less)
  also have "\<dots> \<le> 2 ^ (32 * (length b - 1))" using assms(1) by (intro power_increasing) auto
  also have "\<dots> \<le> val b" using assms by (intro trimmed_lower) auto
  finally show ?thesis .
qed

lemma trimmed_length_le: "trimmed b \<Longrightarrow> val b \<le> val a \<Longrightarrow> length b \<le> length a"
  using val_length_less by (metis leD not_le)

lemma bit_add_power:
  fixes a b :: nat
  assumes "a < 2 ^ k"
  shows "bit (a + 2 ^ k * b) n \<longleftrightarrow> (if n < k then bit a n else bit b (n - k))"
proof (cases "n < k")
  case True
  then obtain d where k: "k = n + Suc d" using less_imp_Suc_add by fastforce
  have "a + 2 ^ k * b = a + (2 * 2 ^ d * b) * 2 ^ n"
    by (simp add: k power_add)
  then have "(a + 2 ^ k * b) div 2 ^ n = a div 2 ^ n + 2 * 2 ^ d * b"
    by (simp only: div_mult_self1) simp
  then show ?thesis using True by (simp add: bit_iff_odd)
next
  case False
  then have "(2 :: nat) ^ n = 2 ^ k * 2 ^ (n - k)" by (simp add: power_add [symmetric])
  then have "(a + 2 ^ k * b) div 2 ^ n = (a + 2 ^ k * b) div 2 ^ k div 2 ^ (n - k)"
    by (simp only: div_mult2_eq)
  then show ?thesis using False assms by (simp add: bit_iff_odd)
qed

lemma bit_val: "bit (val b) n \<longleftrightarrow> n div 32 < length b \<and> bit (b ! (n div 32)) (n mod 32)"
proof (induction b arbitrary: n)
  case (Cons l b)
  have "bit (val (l # b)) n \<longleftrightarrow> (if n < 32 then bit (unat l) n else bit (val b) (n - 32))"
    using bit_add_power [OF u32_less, of l "val b" n] by simp
  also have "\<dots> \<longleftrightarrow> n div 32 < length (l # b) \<and> bit ((l # b) ! (n div 32)) (n mod 32)"
    using Cons.IH [of "n - 32"]
    by (cases "n < 32") (auto simp: le_div_geq le_mod_geq not_less bit_unsigned_iff)
  finally show ?case .
qed simp

lemma bit_bytes_val: "bit (bytes_val b) n \<longleftrightarrow> n div 8 < length b \<and> bit (b ! (n div 8)) (n mod 8)"
proof (induction b arbitrary: n)
  case (Cons l b)
  have "unat l < 2 ^ 8" using unsigned_less [of l] by simp
  from bit_add_power [OF this, of "bytes_val b" n]
  have "bit (bytes_val (l # b)) n \<longleftrightarrow> (if n < 8 then bit (unat l) n else bit (bytes_val b) (n - 8))"
    by simp
  also have "\<dots> \<longleftrightarrow> n div 8 < length (l # b) \<and> bit ((l # b) ! (n div 8)) (n mod 8)"
    using Cons.IH [of "n - 8"]
    by (cases "n < 8") (auto simp: le_div_geq le_mod_geq not_less bit_unsigned_iff)
  finally show ?case .
qed simp

lemma drop_bit_and_1: "drop_bit k (x :: 'a::len word) AND 1 \<noteq> 0 \<longleftrightarrow> bit x k"
  by (simp add: and_one_eq bit_iff_odd_drop_bit odd_iff_mod_2_eq_one)

lemma big_bit_val: "big_bit b n \<longleftrightarrow> bit (val b) n"
  unfolding big_bit_def bit_val drop_bit_and_1 ..

section \<open>Conversions\<close>

lemma bit_ext_nat: "(\<And>n. bit (a :: nat) n \<longleftrightarrow> bit b n) \<Longrightarrow> a = b"
  by (rule bit_eqI)

lemma from_le_bytes_loop:
  fixes data :: bytes
  assumes "k \<le> length data"
  defines "b \<equiv> fold (\<lambda>i b. b[i div 4 := b ! (i div 4) OR push_bit (8 * (i mod 4)) (ucast (data ! i))])
     [0..<k] (replicate ((length data + 3) div 4) (0 :: u32))"
  shows "length b = (length data + 3) div 4 \<and>
    (\<forall>l m. l < length b \<longrightarrow> m < 32 \<longrightarrow> (bit (b ! l) m \<longleftrightarrow> 4 * l + m div 8 < k \<and> bit (data ! (4 * l + m div 8)) (m mod 8)))"
  using assms(1) unfolding b_def
proof (induction k)
  case (Suc k)
  define c where "c = fold (\<lambda>i b. b[i div 4 := b ! (i div 4) OR push_bit (8 * (i mod 4)) (ucast (data ! i))])
     [0..<k] (replicate ((length data + 3) div 4) (0 :: u32))"
  have len: "length c = (length data + 3) div 4"
    and IH: "\<And>l m. l < length c \<Longrightarrow> m < 32 \<Longrightarrow>
      bit (c ! l) m \<longleftrightarrow> 4 * l + m div 8 < k \<and> bit (data ! (4 * l + m div 8)) (m mod 8)"
    using Suc by (auto simp: c_def)
  have k: "k div 4 < length c" using Suc.prems len by auto
  have upd: "bit (c ! (k div 4) OR push_bit (8 * (k mod 4)) (ucast (data ! k))) m \<longleftrightarrow>
      4 * (k div 4) + m div 8 < Suc k \<and> bit (data ! (4 * (k div 4) + m div 8)) (m mod 8)"
    if m: "m < 32" for m
  proof -
    have "bit (push_bit (8 * (k mod 4)) (ucast (data ! k) :: u32)) m \<longleftrightarrow>
        m div 8 = k mod 4 \<and> bit (data ! k) (m mod 8)"
    proof -
      have "8 * (k mod 4) \<le> m \<and> m - 8 * (k mod 4) < 8 \<longleftrightarrow> m div 8 = k mod 4" by auto
      moreover have "m - 8 * (k mod 4) = m mod 8" if "m div 8 = k mod 4"
        using that by (metis minus_div_mult_eq_mod mult.commute)
      moreover have "bit (data ! k) n \<Longrightarrow> n < 8" for n using bit_imp_le_length by force
      ultimately show ?thesis using m by (auto simp: bit_push_bit_iff bit_ucast_iff)
    qed
    moreover have "4 * (k div 4) + m div 8 < Suc k \<longleftrightarrow> 4 * (k div 4) + m div 8 < k \<or> m div 8 = k mod 4"
      using mult_div_mod_eq [of 4 k] by linarith
    moreover have "4 * (k div 4) + m div 8 = k" if "m div 8 = k mod 4"
      using that by simp
    ultimately show ?thesis using IH [OF k m] by (auto simp: bit_or_iff)
  qed
  have other: "l \<noteq> k div 4 \<Longrightarrow> m < 32 \<Longrightarrow> 4 * l + m div 8 < Suc k \<longleftrightarrow> 4 * l + m div 8 < k" for l m
  proof -
    assume l: "l \<noteq> k div 4" "m < 32"
    have "4 * l + m div 8 \<noteq> k"
    proof
      assume "4 * l + m div 8 = k"
      then have "k div 4 = l" using l(2) by auto
      with l show False by simp
    qed
    then show ?thesis by auto
  qed
  show ?case
    using len k IH upd other by (auto simp: c_def [symmetric] nth_list_update)
qed auto

lemma val_from_le_bytes: "val (from_le_bytes data) = bytes_val data"
proof (rule bit_ext_nat)
  fix n :: nat
  define b where "b = fold (\<lambda>i b. b[i div 4 := b ! (i div 4) OR push_bit (8 * (i mod 4)) (ucast (data ! i))])
     [0..<length data] (replicate ((length data + 3) div 4) (0 :: u32))"
  have len: "length b = (length data + 3) div 4"
    and b: "\<And>l m. l < length b \<Longrightarrow> m < 32 \<Longrightarrow> bit (b ! l) m \<longleftrightarrow>
      4 * l + m div 8 < length data \<and> bit (data ! (4 * l + m div 8)) (m mod 8)"
    using from_le_bytes_loop [of "length data" data] by (auto simp: b_def)
  have n: "4 * (n div 32) + n mod 32 div 8 = n div 8" "n mod 32 mod 8 = n mod 8"
    using mod_mult2_eq [of n 8 4] div_mult2_eq [of n 8 4]
    by (simp_all add: mod_mod_cancel)
  have "n div 32 = n div 8 div 4" by (simp add: div_mult2_eq [symmetric])
  then have "n div 8 < length data \<Longrightarrow> n div 32 < length b" unfolding len by linarith
  then show "bit (val (from_le_bytes data)) n \<longleftrightarrow> bit (bytes_val data) n"
    using b [of "n div 32" "n mod 32"] n
    by (auto simp: from_le_bytes_def b_def [symmetric] bit_val bit_bytes_val)
qed

lemma trimmed_from_le_bytes: "trimmed (from_le_bytes data)"
  by (simp add: from_le_bytes_def)

lemma bytes_val_to_le_bytes: "bytes_val (to_le_bytes b n) = val b mod 2 ^ (8 * n)"
proof (rule bit_ext_nat)
  fix k :: nat
  have k: "k div 8 div 4 = k div 32" "8 * (k div 8 mod 4) + k mod 8 = k mod 32"
    using mod_mult2_eq [of k 8 4] by (simp_all add: div_mult2_eq [symmetric])
  have "k div 8 < n \<longleftrightarrow> k < 8 * n" by auto
  then show "bit (bytes_val (to_le_bytes b n)) k \<longleftrightarrow> bit (val b mod 2 ^ (8 * n)) k"
    using k by (auto simp: bit_bytes_val to_le_bytes_def bit_val bit_ucast_iff bit_drop_bit_eq
        bit_take_bit_iff split: if_splits simp flip: take_bit_eq_mod)
qed

lemma length_to_le_bytes [simp]: "length (to_le_bytes b n) = n"
  by (simp add: to_le_bytes_def)

lemma bytes_val_append: "bytes_val (a @ b) = bytes_val a + 2 ^ (8 * length a) * bytes_val b"
  by (induction a) (simp_all add: power_add algebra_simps)

lemma bytes_val_less: "bytes_val b < 2 ^ (8 * length b)"
proof (induction b)
  case (Cons x b)
  have "unat x < 2 ^ 8" using unsigned_less [of x] by simp
  then have "unat x + 2 ^ 8 * bytes_val b < 2 ^ 8 * (bytes_val b + 1)" by simp
  also have "\<dots> \<le> 2 ^ 8 * 2 ^ (8 * length b)" using Cons by (intro mult_left_mono) auto
  finally show ?case by (simp add: power_add)
qed simp

lemma val_from_u32 [simp]: "val (from_u32 v) = unat v"
  by (simp add: from_u32_def)

lemma trimmed_from_u32 [simp]: "trimmed (from_u32 v)"
  by (simp add: from_u32_def trimmed_def)

section \<open>Comparison, bit length, shift, subtraction\<close>

lemma val_rev_Cons: "val (rev (x # xs)) = val (rev xs) + 2 ^ (32 * length xs) * unat x"
  by (simp add: val_append)

lemma compare_down_val:
  "length xs = length ys \<Longrightarrow> compare_down xs ys = sgn (int (val (rev xs)) - int (val (rev ys)))"
proof (induction xs ys rule: compare_down.induct)
  case (1 x xs y ys)
  then have l: "length xs = length ys" by simp
  define k where "k = (2 :: nat) ^ (32 * length ys)"
  have b: "val (rev xs) < k" "val (rev ys) < k"
    using val_less [of "rev xs"] val_less [of "rev ys"] l by (simp_all add: k_def)
  have lt: "p + k * unat a < q + k * unat b" if "unat a < unat b" "p < k" for p q and a b :: u32
  proof -
    have "k * (unat a + 1) \<le> k * unat b" using that(1) by (intro mult_le_mono2) simp
    then show ?thesis using that(2) by simp
  qed
  show ?case
  proof (cases x y rule: linorder_cases)
    case less
    then have "unat x < unat y" by (simp add: word_less_nat_alt)
    then have "val (rev (x # xs)) < val (rev (y # ys))"
      unfolding val_rev_Cons l k_def [symmetric] by (rule lt) (rule b)
    with less show ?thesis by (auto simp del: rev.simps)
  next
    case equal
    with 1 l show ?thesis by (simp add: val_append)
  next
    case greater
    then have "unat y < unat x" by (simp add: word_less_nat_alt)
    then have "val (rev (y # ys)) < val (rev (x # xs))"
      unfolding val_rev_Cons l k_def [symmetric] by (rule lt) (rule b)
    with greater show ?thesis by (auto simp del: rev.simps)
  qed
qed auto

lemma compare_val:
  assumes "trimmed a" "trimmed b"
  shows "compare a b = sgn (int (val a) - int (val b))"
proof (cases "length a" "length b" rule: linorder_cases)
  case less
  then show ?thesis using val_length_less [OF less assms(2)] by (simp add: compare_def)
next
  case equal
  then show ?thesis using compare_down_val [of "rev a" "rev b"] by (simp add: compare_def)
next
  case greater
  then show ?thesis using val_length_less [OF greater assms(1)] by (simp add: compare_def)
qed

lemma unat_less_top_bits: "unat t < 2 ^ top_bits t"
proof (induction t rule: top_bits.induct)
  case (1 t)
  show ?case
  proof (cases "t = 0")
    case False
    have "unat (drop_bit 1 t) = unat t div 2"
      using unat_drop_bit_eq [of 1 t] by (simp only: drop_bit_eq_div power_one_right)
    with 1 [OF False] have "unat t div 2 < 2 ^ top_bits (drop_bit 1 t)" by (simp only:)
    then show ?thesis using False by (subst top_bits.simps) simp
  qed (simp add: top_bits.simps)
qed

lemma val_less_bit_length: "val b < 2 ^ bit_length b"
proof (cases b rule: rev_cases)
  case (snoc c l)
  have "val b < 2 ^ (32 * length c) * (unat l + 1)"
    using val_less [of c] by (simp add: snoc val_append)
  also have "\<dots> \<le> 2 ^ (32 * length c) * 2 ^ top_bits l"
    using unat_less_top_bits [of l] by (intro mult_le_mono2) simp
  finally show ?thesis by (simp add: snoc bit_length_def power_add mult.commute)
qed (simp add: bit_length_def)

lemma val_shl1_loop: "unat carry < 2 \<Longrightarrow> val (shl1_loop carry b) = 2 * val b + unat carry"
proof (induction carry b rule: shl1_loop.induct)
  case (2 carry limb b)
  define l c where "l = unat limb" and "c = unat carry"
  have bound: "l < 2 ^ 32" "c < 2" using u32_less [of limb] "2.prems" by (simp_all add: l_def c_def)
  have next_carry: "unat (drop_bit 31 limb) = l div 2 ^ 31"
    using unat_drop_bit_eq [of 31 limb] drop_bit_eq_div [of 31 "unat limb"] by (simp only: l_def)
  have "l div 2 ^ 31 < 2" using bound by (simp add: less_mult_imp_div_less)
  then have IH: "val (shl1_loop (drop_bit 31 limb) b) = 2 * val b + l div 2 ^ 31"
    using 2 by (simp add: next_carry)
  have "push_bit 1 limb OR carry = of_nat (2 * l + c)"
    using or_of_nat_add [of c 1 l, where 'a = 32] bound by (simp add: l_def c_def)
  then have "unat (push_bit 1 limb OR carry) = (2 * l + c) mod 2 ^ 32"
    by (simp add: unat_of_nat take_bit_eq_mod del: of_nat_add of_nat_mult)
  moreover have "(2 * l + c) div 2 ^ 32 = l div 2 ^ 31" using bound(2) by auto
  ultimately have "unat (push_bit 1 limb OR carry) + 2 ^ 32 * (l div 2 ^ 31) = 2 * l + c"
    by (metis mod_mult_div_eq)
  then show ?case using IH by (simp add: l_def c_def)
qed auto

lemma val_shl1: "val (shl1 b) = 2 * val b"
  by (simp add: shl1_def val_shl1_loop)

lemma trimmed_shl1_loop: "trimmed b \<Longrightarrow> b \<noteq> [] \<Longrightarrow> trimmed (shl1_loop carry b) \<and> shl1_loop carry b \<noteq> []"
proof (induction carry b rule: shl1_loop.induct)
  case (2 carry limb b)
  show ?case
  proof (cases "b = []")
    case True
    with 2 have l: "limb \<noteq> 0" by (simp add: trimmed_def)
    have "push_bit 1 limb OR carry \<noteq> 0" if "drop_bit 31 limb = 0"
    proof
      assume z: "push_bit 1 limb OR carry = 0"
      have "\<not> bit limb n" for n
      proof (cases "n < 31")
        case True
        then have "bit (push_bit 1 limb) (Suc n) \<longleftrightarrow> bit limb n" unfolding bit_push_bit_iff by simp
        moreover have "\<not> bit (push_bit 1 limb OR carry) (Suc n)" unfolding z by simp
        ultimately show ?thesis unfolding bit_or_iff by blast
      next
        case False
        have "\<not> bit (drop_bit 31 limb) (n - 31)" using that by simp
        with False show ?thesis by (simp add: bit_drop_bit_eq)
      qed
      then have "limb = 0" by (intro bit_word_eqI) simp
      with l show False by simp
    qed
    with True show ?thesis by (auto simp: trimmed_def)
  next
    case False
    with 2 show ?thesis by (auto simp: trimmed_def)
  qed
qed simp

lemma trimmed_shl1: "trimmed b \<Longrightarrow> trimmed (shl1 b)"
  using trimmed_shl1_loop [of b 0] by (cases "b = []") (auto simp: shl1_def)

lemma sub_loop_val:
  "length b \<le> length a \<Longrightarrow>
   \<exists>out. int (val (sub_loop borrow a b)) =
     int (val a) - int (val b) - of_bool borrow + of_bool out * 2 ^ (32 * length a) \<and>
     length (sub_loop borrow a b) = length a"
proof (induction borrow a b rule: sub_loop.induct)
  case (2 borrow l ls bs)
  define b0 where "b0 = (case bs of [] \<Rightarrow> 0 | b # _ \<Rightarrow> uint b)"
  define bs' where "bs' = (case bs of [] \<Rightarrow> [] | _ # bs' \<Rightarrow> bs')"
  define cur where "cur = uint l - of_bool borrow - b0"
  have split: "int (val bs) = b0 + 2 ^ 32 * int (val bs')"
    by (cases bs) (simp_all add: b0_def bs'_def)
  have rng: "0 \<le> b0" "b0 < 2 ^ 32" "0 \<le> uint l" "uint l < 2 ^ 32"
    using uint_lt2p [of l] uint_lt2p [where 'a = 32]
    by (auto simp: b0_def split: list.splits)
  have "length bs' \<le> length ls" using "2.prems" by (cases bs) (simp_all add: bs'_def)
  from "2.IH" [OF refl refl, folded b0_def bs'_def cur_def, OF this] obtain out where
    IH: "int (val (sub_loop (cur < 0) ls bs')) =
        int (val ls) - int (val bs') - of_bool (cur < 0) + of_bool out * 2 ^ (32 * length ls)"
      "length (sub_loop (cur < 0) ls bs') = length ls" by blast
  define neg where "neg = (cur < 0)"
  define x where "x = cur + of_bool neg * 2 ^ 32"
  have x: "0 \<le> x" "x < 2 ^ 32"
  proof -
    obtain li where li: "li = uint l" by simp
    show "0 \<le> x" "x < 2 ^ 32" using rng unfolding x_def neg_def cur_def li [symmetric] by auto
  qed
  have eq: "sub_loop borrow (l # ls) bs = word_of_int x # sub_loop neg ls bs'"
    by (simp add: b0_def bs'_def cur_def x_def neg_def Let_def)
  have "int (unat (word_of_int x :: u32)) = x"
    using x by (simp add: unsigned_of_int take_bit_int_eq_self)
  with eq have "int (val (sub_loop borrow (l # ls) bs)) = x + 2 ^ 32 * int (val (sub_loop neg ls bs'))"
    by simp
  also have "\<dots> = int (val (l # ls)) - int (val bs) - of_bool borrow + of_bool out * 2 ^ (32 * length (l # ls))"
    unfolding IH(1) [folded neg_def] split x_def cur_def by (simp add: algebra_simps power_add)
  finally show ?case
    using IH(2) [folded neg_def] unfolding eq by auto
qed auto

lemma val_sub:
  assumes "trimmed b" "val b \<le> val a"
  shows "val (sub a b) = val a - val b"
proof -
  have "length b \<le> length a" using assms by (rule trimmed_length_le)
  then obtain out where o: "int (val (sub_loop False a b)) =
      int (val a) - int (val b) + of_bool out * 2 ^ (32 * length a)"
    "length (sub_loop False a b) = length a" using sub_loop_val [of b a False] by auto
  have "\<not> out"
  proof
    assume out
    with o assms(2) have "2 ^ (32 * length a) \<le> int (val (sub_loop False a b))" by simp
    moreover have "int (val (sub_loop False a b)) < 2 ^ (32 * length a)"
      using val_less [of "sub_loop False a b"] o(2) by (metis of_nat_less_iff of_nat_numeral of_nat_power)
    ultimately show False by simp
  qed
  with o assms(2) show ?thesis by (simp add: sub_def)
qed

section \<open>Multiplication\<close>

lemma val_list_update:
  "k < length r \<Longrightarrow> val (r[k := x]) + 2 ^ (32 * k) * unat (r ! k) = val r + 2 ^ (32 * k) * unat x"
proof (induction r arbitrary: k)
  case (Cons l r)
  then show ?case
  proof (cases k)
    case (Suc k')
    with Cons have "val (r[k' := x]) + 2 ^ (32 * k') * unat (r ! k') = val r + 2 ^ (32 * k') * unat x"
      by simp
    then have "2 ^ 32 * (val (r[k' := x]) + 2 ^ (32 * k') * unat (r ! k')) =
        2 ^ 32 * (val r + 2 ^ (32 * k') * unat x)" by simp
    then show ?thesis by (simp add: Suc power_add algebra_simps)
  qed simp
qed simp

lemma mul_cell:
  fixes r x y :: u32 and carry :: u64
  assumes "unat carry < 2 ^ 32"
  defines "cur \<equiv> ucast r + ucast x * ucast y + carry :: u64"
  shows "unat (ucast cur :: u32) + 2 ^ 32 * unat (drop_bit 32 cur) = unat r + unat x * unat y + unat carry"
    and "unat (drop_bit 32 cur) < 2 ^ 32"
proof -
  define n where "n = unat r + unat x * unat y + unat carry"
  have "unat x * unat y \<le> (2 ^ 32 - 1) * (2 ^ 32 - 1)"
    using u32_less [of x] u32_less [of y] by (intro mult_le_mono) auto
  then have n: "n < 2 ^ 64" using u32_less [of r] assms(1) by (simp add: n_def)
  have "cur = of_nat n" by (simp add: cur_def n_def)
  then have cur: "unat cur = n" using n by (simp add: unat_of_nat take_bit_nat_eq_self)
  have d: "unat (drop_bit 32 cur) = n div 2 ^ 32"
    using unat_drop_bit_eq [of 32 cur] drop_bit_eq_div [of 32 n] cur by simp
  have "unat (ucast cur :: u32) = n mod 2 ^ 32"
    by (simp add: unsigned_ucast_eq cur take_bit_eq_mod)
  with d show "unat (ucast cur :: u32) + 2 ^ 32 * unat (drop_bit 32 cur) = unat r + unat x * unat y + unat carry"
    unfolding n_def [symmetric] by (simp only: mod_mult_div_eq)
  show "unat (drop_bit 32 cur) < 2 ^ 32" unfolding d using n by (simp add: less_mult_imp_div_less)
qed

text \<open>
  One row of the schoolbook product: after \<open>k\<close> columns the array and the pending carry hold the old
  value plus \<open>x\<close> times the first \<open>k\<close> limbs, at position \<open>i\<close>.
\<close>

lemma mul_inner_loop:
  assumes "k \<le> length b" "i + length b < length r"
  shows "\<exists>carry r'. fold (mul_inner x b i) [0..<k] (0, r) = (carry, r') \<and> unat carry < 2 ^ 32 \<and>
    length r' = length r \<and> (\<forall>p \<ge> i + k. r' ! p = r ! p) \<and>
    val r' + 2 ^ (32 * (i + k)) * unat carry = val r + 2 ^ (32 * i) * (unat x * val (take k b))"
  using assms(1)
proof (induction k)
  case (Suc k)
  then obtain carry r' where IH: "fold (mul_inner x b i) [0..<k] (0, r) = (carry, r')" "unat carry < 2 ^ 32"
      "length r' = length r" "\<forall>p \<ge> i + k. r' ! p = r ! p"
      "val r' + 2 ^ (32 * (i + k)) * unat carry = val r + 2 ^ (32 * i) * (unat x * val (take k b))"
    by auto
  define cur where "cur = ucast (r' ! (i + k)) + ucast x * ucast (b ! k) + carry"
  define P where "P = (2 :: nat) ^ (32 * (i + k))"
  note cell = mul_cell [OF IH(2), of "r' ! (i + k)" x "b ! k", folded cur_def]
  have "val (r'[i + k := ucast cur]) + P * unat (r' ! (i + k)) = val r' + P * unat (ucast cur :: u32)"
    unfolding P_def using Suc.prems assms(2) IH(3) by (intro val_list_update) simp
  moreover have "P * unat (ucast cur :: u32) + P * (2 ^ 32 * unat (drop_bit 32 cur)) =
      P * unat (r' ! (i + k)) + P * (unat x * unat (b ! k)) + P * unat carry"
    using cell(1) by (metis distrib_left)
  ultimately have "val (r'[i + k := ucast cur]) + P * (2 ^ 32 * unat (drop_bit 32 cur)) =
      val r' + P * unat carry + P * (unat x * unat (b ! k))" by linarith
  also have "\<dots> = val r + 2 ^ (32 * i) * (unat x * val (take k b)) + P * (unat x * unat (b ! k))"
    using IH(5) by (simp add: P_def)
  also have "\<dots> = val r + 2 ^ (32 * i) * (unat x * val (take (Suc k) b))"
    using Suc.prems
    by (simp add: take_Suc_conv_app_nth val_append P_def power_add algebra_simps)
  finally have "val (r'[i + k := ucast cur]) + 2 ^ (32 * (i + Suc k)) * unat (drop_bit 32 cur) =
      val r + 2 ^ (32 * i) * (unat x * val (take (Suc k) b))"
    by (simp add: P_def power_add algebra_simps)
  moreover have "fold (mul_inner x b i) [0..<Suc k] (0, r) = (drop_bit 32 cur, r'[i + k := ucast cur])"
    by (simp add: IH(1) mul_inner_def cur_def Let_def)
  ultimately show ?case using cell(2) IH(3,4) by auto
qed simp

lemma mul_outer_val:
  assumes "i + length b < length r" "r ! (i + length b) = 0"
  shows "val (mul_outer a b i r) = val r + 2 ^ (32 * i) * (unat (a ! i) * val b)"
    and "length (mul_outer a b i r) = length r"
    and "\<forall>p > i + length b. mul_outer a b i r ! p = r ! p"
proof -
  obtain carry r' where L: "fold (mul_inner (a ! i) b i) [0..<length b] (0, r) = (carry, r')"
      "unat carry < 2 ^ 32" "length r' = length r" "\<forall>p \<ge> i + length b. r' ! p = r ! p"
      "val r' + 2 ^ (32 * (i + length b)) * unat carry = val r + 2 ^ (32 * i) * (unat (a ! i) * val b)"
    using mul_inner_loop [of "length b" b i r "a ! i"] assms by auto
  have z: "r' ! (i + length b) = 0" using L(4) assms(2) by simp
  have c: "unat (ucast carry :: u32) = unat carry"
    using L(2) by (simp add: unsigned_ucast_eq take_bit_nat_eq_self)
  have "val (r'[i + length b := ucast carry]) = val r' + 2 ^ (32 * (i + length b)) * unat carry"
    using val_list_update [of "i + length b" r' "ucast carry"] assms(1) L(3) z c by simp
  with L(5) show "val (mul_outer a b i r) = val r + 2 ^ (32 * i) * (unat (a ! i) * val b)"
    by (simp add: mul_outer_def L(1) z)
  show "length (mul_outer a b i r) = length r"
    and "\<forall>p > i + length b. mul_outer a b i r ! p = r ! p"
    using L(3,4) by (simp_all add: mul_outer_def L(1))
qed

lemma mul_loop:
  fixes a b :: bigint
  assumes "k \<le> length a"
  defines "r \<equiv> fold (mul_outer a b) [0..<k] (replicate (length a + length b) 0)"
  shows "length r = length a + length b \<and> (\<forall>p \<ge> k + length b. p < length r \<longrightarrow> r ! p = 0) \<and>
    val r = val (take k a) * val b"
  using assms(1) unfolding r_def
proof (induction k)
  case 0
  have "val (replicate n 0) = 0" for n by (induction n) simp_all
  then show ?case by simp
next
  case (Suc k)
  define r where "r = fold (mul_outer a b) [0..<k] (replicate (length a + length b) 0)"
  have IH: "length r = length a + length b" "\<forall>p \<ge> k + length b. p < length r \<longrightarrow> r ! p = 0"
    "val r = val (take k a) * val b" using Suc by (simp_all add: r_def)
  have pos: "k + length b < length r" "r ! (k + length b) = 0" using Suc.prems IH by auto
  have "val (take (Suc k) a) * val b = val r + 2 ^ (32 * k) * (unat (a ! k) * val b)"
    using Suc.prems IH(3) by (simp add: take_Suc_conv_app_nth val_append algebra_simps)
  then show ?case
    using mul_outer_val [OF pos, of a] IH by (simp add: r_def [symmetric])
qed

lemma val_mul: "val (mul a b) = val a * val b"
  using mul_loop [of "length a" a b] by (auto simp: mul_def)

lemma trimmed_mul: "trimmed (mul a b)"
  by (simp add: mul_def)

section \<open>Reduction and exponentiation\<close>

lemma set_low_bit:
  assumes "even (val r)"
  shows "val ((if r = [] then [0] else r)[0 := (if r = [] then [0] else r) ! 0 OR 1]) = val r + 1"
proof (cases r)
  case (Cons l ls)
  have "even (unat l)" using assms Cons by simp
  then have "\<not> bit (unat l) 0" by (simp add: bit_0)
  then have "\<not> bit l 0" by (simp add: bit_unsigned_iff)
  then have "l OR 1 = l + 1"
    by (subst disjunctive_add_eq_or) (auto intro!: bit_word_eqI simp: bit_and_iff bit_1_iff)
  moreover have "unat (l + 1) = unat l + 1"
  proof -
    have "unat l + 1 < 2 ^ 32" using u32_less [of l] \<open>even (unat l)\<close> by simp presburger
    then show ?thesis by (simp add: unat_word_ariths)
  qed
  ultimately show ?thesis using Cons by simp
qed simp

lemma mod_step_val:
  fixes a r m :: bigint and i :: nat
  assumes "trimmed r" "trimmed m"
  defines "n \<equiv> 2 * val r + of_bool (big_bit a i)"
  shows "val (mod_step a m i r) = (if val m \<le> n then n - val m else n)"
    and "trimmed (mod_step a m i r)"
proof -
  define r1 where "r1 = shl1 r"
  define r' where "r' = (if r1 = [] then [0] else r1)"
  define r2 where "r2 = (if big_bit a i then r'[0 := r' ! 0 OR 1] else r1)"
  have t1: "trimmed r1" and v1: "val r1 = 2 * val r" using assms by (simp_all add: r1_def val_shl1 trimmed_shl1)
  have v2: "val r2 = n"
    using set_low_bit [of r1] v1 by (simp add: r2_def r'_def n_def)
  have "r' ! 0 OR 1 \<noteq> 0"
  proof
    assume z: "r' ! 0 OR 1 = 0"
    have "bit (r' ! 0 OR 1) 0" by (simp add: bit_or_iff)
    then show False unfolding z by simp
  qed
  then have t2: "trimmed r2"
    using t1 by (cases r1) (auto simp: r2_def r'_def trimmed_def)
  have step: "mod_step a m i r = (if compare r2 m \<ge> 0 then sub r2 m else r2)"
    by (simp add: mod_step_def r1_def r2_def r'_def Let_def)
  have cmp: "compare r2 m \<ge> 0 \<longleftrightarrow> val m \<le> n"
    using compare_val [OF t2 assms(2)] v2 by (simp add: sgn_if)
  show "val (mod_step a m i r) = (if val m \<le> n then n - val m else n)"
    using v2 val_sub [OF assms(2), of r2] by (simp add: step cmp)
  show "trimmed (mod_step a m i r)"
    using t2 by (simp add: step sub_def)
qed

lemma shift_in_bit: "(x :: nat) div 2 ^ i = 2 * (x div 2 ^ Suc i) + of_bool (bit x i)"
proof -
  have "x div 2 ^ Suc i = x div 2 ^ i div 2" by (simp add: div_mult2_eq [symmetric] mult.commute)
  moreover have "of_bool (bit x i) = x div 2 ^ i mod 2" by (simp add: bit_iff_odd mod_2_eq_odd)
  ultimately show ?thesis by (simp only: mult_div_mod_eq)
qed

lemma fold_down_Suc: "fold f (rev [0..<Suc n]) s = fold f (rev [0..<n]) (f n s)"
  by simp

lemma mod_reduce:
  fixes q m :: nat
  assumes "m > 0"
  shows "(if m \<le> 2 * (q mod m) + of_bool c then 2 * (q mod m) + of_bool c - m else 2 * (q mod m) + of_bool c) =
    (2 * q + of_bool c) mod m"
proof -
  define n where "n = 2 * (q mod m) + of_bool c"
  have "q mod m + 1 \<le> m" using assms by (simp add: Suc_leI)
  then have "n < 2 * m" by (cases c) (simp_all add: n_def)
  then have "n mod m = (if m \<le> n then n - m else n)" by (simp add: mod_if)
  moreover have "n mod m = (2 * q + of_bool c) mod m"
    unfolding n_def by (metis mod_add_left_eq mod_mult_right_eq)
  ultimately show ?thesis unfolding n_def [symmetric] by simp
qed

text \<open>The long division: before bit \<open>n\<close> is shifted in, the remainder is that of the bits above it.\<close>

lemma big_mod_loop:
  assumes "trimmed m" "val m > 0" "trimmed r" "val r = (val a div 2 ^ n) mod val m"
  shows "val (fold (mod_step a m) (rev [0..<n]) r) = val a mod val m \<and>
    trimmed (fold (mod_step a m) (rev [0..<n]) r)"
  using assms(3,4)
proof (induction n arbitrary: r)
  case (Suc n)
  have "val (mod_step a m n r) = (val a div 2 ^ n) mod val m"
    using mod_step_val(1) [OF Suc.prems(1) assms(1), of a n] Suc.prems(2)
      mod_reduce [OF assms(2), of "val a div 2 ^ Suc n" "bit (val a) n"]
    by (simp only: big_bit_val shift_in_bit [of "val a" n])
  then show ?case
    using Suc.IH [of "mod_step a m n r"] mod_step_val(2) [OF Suc.prems(1) assms(1)]
    by (simp only: fold_down_Suc)
qed simp

lemma big_mod_val:
  assumes "trimmed m" "val m > 0"
  shows "val (big_mod a m) = val a mod val m" "trimmed (big_mod a m)"
proof -
  have "val a div 2 ^ bit_length a = 0" using val_less_bit_length [of a] by simp
  then show "val (big_mod a m) = val a mod val m" "trimmed (big_mod a m)"
    using big_mod_loop [OF assms trimmed_Nil, of a "bit_length a"] by (simp_all add: big_mod_def)
qed

text \<open>With modulus zero the reduction returns its argument unreduced.\<close>

lemma big_mod_zero_loop:
  "trimmed r \<Longrightarrow> val r = val a div 2 ^ n \<Longrightarrow>
   val (fold (mod_step a []) (rev [0..<n]) r) = val a \<and> trimmed (fold (mod_step a []) (rev [0..<n]) r)"
proof (induction n arbitrary: r)
  case (Suc n)
  have "val (mod_step a [] n r) = val a div 2 ^ n"
    using mod_step_val(1) [OF Suc.prems(1) trimmed_Nil, of a n] Suc.prems(2)
    by (simp add: big_bit_val shift_in_bit [of "val a" n])
  then show ?case
    using Suc.IH [of "mod_step a [] n r"] mod_step_val(2) [OF Suc.prems(1) trimmed_Nil]
    by (simp only: fold_down_Suc)
qed simp

lemma big_mod_zero: "val (big_mod a []) = val a"
  using big_mod_zero_loop [OF trimmed_Nil, of a "bit_length a"] val_less_bit_length [of a]
  by (simp add: big_mod_def)

text \<open>
  Square and multiply, for any reduction that respects products: \<open>red\<close> is the remainder by a positive
  modulus, or the identity for modulus zero.
\<close>

lemma mod_pow_loop:
  assumes red: "\<And>x. val (big_mod x m) = red (val x)"
    and cong: "\<And>x y. red (red x * red y) = red (x * y)"
    and idem: "\<And>x. red (red x) = red x"
    and b: "val b = red (val base)"
    and r: "red (val r) = red (val base ^ (val ex div 2 ^ n))"
  shows "red (val (fold (mod_pow_step b ex m) (rev [0..<n]) r)) = red (val base ^ val ex) \<and>
    (n > 0 \<longrightarrow> val (fold (mod_pow_step b ex m) (rev [0..<n]) r) = red (val base ^ val ex))"
  using r
proof (induction n arbitrary: r)
  case (Suc n)
  define e where "e = val ex div 2 ^ Suc n"
  have sq: "red (val r * val r) = red (val base ^ (2 * e))"
  proof -
    have "red (val r * val r) = red (red (val r) * red (val r))" by (rule cong [symmetric])
    also have "\<dots> = red (val base ^ e * val base ^ e)" unfolding Suc.prems e_def cong ..
    finally show ?thesis by (simp add: power_add [symmetric] mult_2)
  qed
  have step: "val (mod_pow_step b ex m n r) = red (val base ^ (val ex div 2 ^ n))"
  proof (cases "bit (val ex) n")
    case True
    have "val (mod_pow_step b ex m n r) = red (red (val r * val r) * red (val base))"
      using True by (simp add: mod_pow_step_def Let_def big_bit_val red val_mul b)
    also have "\<dots> = red (val base ^ (2 * e + 1))"
      unfolding sq cong by (simp add: mult.commute)
    finally show ?thesis using True shift_in_bit [of "val ex" n] by (simp add: e_def)
  next
    case False
    then show ?thesis
      using sq shift_in_bit [of "val ex" n]
      by (simp add: mod_pow_step_def Let_def big_bit_val red val_mul e_def)
  qed
  have "fold (mod_pow_step b ex m) (rev [0..<Suc n]) r =
      fold (mod_pow_step b ex m) (rev [0..<n]) (mod_pow_step b ex m n r)" by (rule fold_down_Suc)
  moreover have "red (val (mod_pow_step b ex m n r)) = red (val base ^ (val ex div 2 ^ n))"
    unfolding step idem ..
  ultimately show ?case
    using Suc.IH [of "mod_pow_step b ex m n r"] step by (cases n) (auto simp del: rev.simps(2) upt.simps)
qed simp

lemma bit_length_pos: "val ex > 0 \<Longrightarrow> bit_length ex > 0"
  using val_less_bit_length [of ex] by (cases "bit_length ex") auto

lemma mod_pow_val:
  assumes "trimmed m" "val m > 0"
  shows "val (mod_pow base ex m) = (if val ex = 0 \<and> bit_length ex = 0 then 1 else val base ^ val ex mod val m)"
proof -
  have "val ex div 2 ^ bit_length ex = 0" using val_less_bit_length [of ex] by simp
  then have *: "bit_length ex > 0 \<longrightarrow> val (mod_pow base ex m) = val base ^ val ex mod val m"
    using mod_pow_loop [of m "\<lambda>x. x mod val m" "big_mod base m" base "from_u32 1" ex "bit_length ex"]
      big_mod_val [OF assms] by (simp add: mod_pow_def mod_mult_eq)
  show ?thesis
  proof (cases "bit_length ex = 0")
    case True
    then have "val ex = 0" using bit_length_pos [of ex] by auto
    with True show ?thesis by (simp add: mod_pow_def)
  qed (use * in simp)
qed

lemma mod_pow_zero_modulus: "val (mod_pow base ex []) = val base ^ val ex"
proof -
  have "val ex div 2 ^ bit_length ex = 0" using val_less_bit_length [of ex] by simp
  then show ?thesis
    using mod_pow_loop [of "[]" "\<lambda>x. x" "big_mod base []" base "from_u32 1" ex "bit_length ex"]
    by (simp add: mod_pow_def big_mod_zero)
qed

end
