(* ===== verification/Rsa.thy ===== *)
theory Rsa
  imports Bigint
begin

text \<open>
  The key wrap of \<^verbatim>\<open>src/src/crypto/rsa.hpp\<close>: parsing of the client's CryptoAPI public key blob,
  PKCS#1 v1.5 encryption and the SIMPLEBLOB the server answers with. The main lemma is end to end:
  a client that holds the private exponent recovers exactly the session key.
\<close>

section \<open>Key blobs and encryption\<close>

record rsa_public_key =
  modulus :: bigint
  exponent :: bigint
  modulus_bytes :: nat

definition publickeyblob :: u8 where "publickeyblob = 0x06"
definition simpleblob :: u8 where "simpleblob = 0x01"
definition cur_blob_version :: u8 where "cur_blob_version = 0x02"
definition calg_rsa_keyx :: u32 where "calg_rsa_keyx = 0x0000A400"
definition calg_rc4 :: u32 where "calg_rc4 = 0x00006801"
definition rsa1_magic :: u32 where "rsa1_magic = 0x31415352"

text \<open>\<^verbatim>\<open>read_le32(&blob[i])\<close>\<close>

definition read_le32 :: "bytes \<Rightarrow> nat \<Rightarrow> u32" where
  "read_le32 p i = ucast (p ! i) OR push_bit 8 (ucast (p ! (i + 1))) OR push_bit 16 (ucast (p ! (i + 2)))
     OR push_bit 24 (ucast (p ! (i + 3)))"

definition write_le32 :: "bytes \<Rightarrow> u32 \<Rightarrow> bytes" where
  "write_le32 out v = out @ map (\<lambda>i. ucast (drop_bit (8 * i) v)) [0..<4]"

definition parse_publickeyblob :: "bytes \<Rightarrow> string + rsa_public_key" where
  "parse_publickeyblob blob =
     (if length blob < 20 \<or> blob ! 0 \<noteq> publickeyblob then Inl ''not a PUBLICKEYBLOB''
      else if read_le32 blob 8 \<noteq> rsa1_magic then Inl ''missing RSA1 magic''
      else
        (let bitlen = unat (read_le32 blob 12); pubexp = read_le32 blob 16; bytes = bitlen div 8 in
         if bitlen = 0 \<or> bitlen mod 8 \<noteq> 0 \<or> length blob < 20 + bytes then Inl ''bad modulus length''
         else Inr \<lparr>modulus = from_le_bytes (take bytes (drop 20 blob)), exponent = from_u32 pubexp,
                   modulus_bytes = bytes\<rparr>))"

definition pkcs1_encode :: "bytes \<Rightarrow> bytes \<Rightarrow> bytes" where
  "pkcs1_encode ps message = 0x00 # 0x02 # ps @ 0x00 # message"

definition rsa_pkcs1_encrypt :: "rsa_public_key \<Rightarrow> bytes \<Rightarrow> rng \<Rightarrow> (exn + bytes) \<times> rng" where
  "rsa_pkcs1_encrypt key message g =
     (let k = modulus_bytes key in
      if length message + 11 > k then (Inl (runtime_error ''RSA message too long''), g)
      else
        (let (ps, g') = draw_bytes (k - 3 - length message) 1 255 g;
             em = pkcs1_encode ps message;
             c = mod_pow (from_be_bytes em) (exponent key) (modulus key)
         in (Inr (rev (to_le_bytes c k)), g')))"

definition make_rc4_simpleblob :: "rsa_public_key \<Rightarrow> bytes \<Rightarrow> rng \<Rightarrow> (exn + bytes) \<times> rng" where
  "make_rc4_simpleblob key rc4_key g =
     (let blob = write_le32 (write_le32 [simpleblob, cur_blob_version, 0, 0] calg_rc4) calg_rsa_keyx in
      case rsa_pkcs1_encrypt key rc4_key g of
        (Inl e, g') \<Rightarrow> (Inl e, g')
      | (Inr be, g') \<Rightarrow> (Inr (blob @ rev be), g'))"

section \<open>The client's side\<close>

text \<open>A PUBLICKEYBLOB as CryptoAPI exports it, and the removal of the padding.\<close>

definition export_publickeyblob :: "u32 \<Rightarrow> bytes \<Rightarrow> bytes" where
  "export_publickeyblob e n =
     [publickeyblob, cur_blob_version, 0, 0] @ le_bytes 4 calg_rsa_keyx @ le_bytes 4 rsa1_magic @
     le_bytes 4 (of_nat (8 * length n) :: u32) @ le_bytes 4 e @ n"

definition pkcs1_decode :: "bytes \<Rightarrow> bytes option" where
  "pkcs1_decode em =
     (case em of a # b # body \<Rightarrow>
        if a = 0x00 \<and> b = 0x02 \<and> 8 \<le> length (takeWhile (\<lambda>x. x \<noteq> 0) body) \<and> dropWhile (\<lambda>x. x \<noteq> 0) body \<noteq> []
        then Some (tl (dropWhile (\<lambda>x. x \<noteq> 0) body)) else None
      | _ \<Rightarrow> None)"

section \<open>Lemmas\<close>

lemma bytes_val_snoc0: "bytes_val (xs @ [0]) = bytes_val xs"
  by (simp add: bytes_val_append)

lemma bytes_val_inj: "length a = length b \<Longrightarrow> bytes_val a = bytes_val b \<Longrightarrow> a = b"
proof (rule nth_equalityI)
  fix i assume l: "length a = length b" "bytes_val a = bytes_val b" "i < length a"
  show "a ! i = b ! i"
  proof (rule bit_word_eqI)
    fix n assume n: "n < LENGTH(8)"
    have "bit (bytes_val a) (8 * i + n) = bit (bytes_val b) (8 * i + n)" using l by simp
    with l(1,3) n show "bit (a ! i) n = bit (b ! i) n" by (simp add: bit_bytes_val)
  qed
qed simp

lemma pkcs1_decode_encode:
  assumes "\<forall>x \<in> set ps. x \<noteq> 0" "8 \<le> length ps"
  shows "pkcs1_decode (pkcs1_encode ps message) = Some message"
  using assms by (simp add: pkcs1_decode_def pkcs1_encode_def dropWhile_append2 takeWhile_append2)

lemma length_pkcs1_encode [simp]: "length (pkcs1_encode ps message) = 3 + length ps + length message"
  by (simp add: pkcs1_encode_def)

text \<open>The leading zero keeps the padded message below any modulus of the full length.\<close>

lemma pkcs1_encode_less: "bytes_val (rev (pkcs1_encode ps message)) < 2 ^ (8 * (2 + length ps + length message))"
  using bytes_val_less [of "rev (0x02 # ps @ 0x00 # message)"]
  by (simp add: pkcs1_encode_def bytes_val_append add.commute [of "8 * length ps"])

lemma rsa_pkcs1_encrypt_ok:
  assumes "length message + 11 \<le> modulus_bytes key"
  obtains ps g' where "length ps = modulus_bytes key - 3 - length message" "\<forall>x \<in> set ps. x \<noteq> 0"
    "rsa_pkcs1_encrypt key message g =
       (Inr (rev (to_le_bytes (mod_pow (from_be_bytes (pkcs1_encode ps message)) (exponent key) (modulus key))
          (modulus_bytes key))), g')"
proof -
  obtain ps g' where d: "draw_bytes (modulus_bytes key - 3 - length message) 1 255 g = (ps, g')" by force
  show ?thesis
    using that [of ps g'] assms length_draw_bytes [OF d] draw_bytes_nonzero [OF d] d
    by (simp add: rsa_pkcs1_encrypt_def Let_def)
qed

text \<open>
  A usable key: a modulus whose most significant byte is not zero, a positive exponent, and a
  private exponent that undoes the encryption.
\<close>

definition rsa_key_pair :: "rsa_public_key \<Rightarrow> nat \<Rightarrow> bool" where
  "rsa_key_pair key d \<longleftrightarrow>
     trimmed (modulus key) \<and> 2 ^ (8 * (modulus_bytes key - 1)) \<le> val (modulus key) \<and>
     val (modulus key) < 2 ^ (8 * modulus_bytes key) \<and> 0 < val (exponent key) \<and>
     (\<forall>x < val (modulus key). (x ^ val (exponent key) mod val (modulus key)) ^ d mod val (modulus key) = x)"

definition rsa_private :: "rsa_public_key \<Rightarrow> nat \<Rightarrow> bytes \<Rightarrow> bytes" where
  "rsa_private key d cipher =
     rev (map (\<lambda>i. of_nat (bytes_val cipher ^ d mod val (modulus key) div 2 ^ (8 * i))) [0..<modulus_bytes key])"

text \<open>The bytes of a number, big-endian, and back\<close>

lemma bytes_of_val:
  "map (\<lambda>i. of_nat (bytes_val xs div 2 ^ (8 * i))) [0..<length xs] = xs"
proof (rule nth_equalityI)
  fix i assume "i < length (map (\<lambda>i. of_nat (bytes_val xs div 2 ^ (8 * i)) :: u8) [0..<length xs])"
  then have i: "i < length xs" by simp
  show "map (\<lambda>i. of_nat (bytes_val xs div 2 ^ (8 * i))) [0..<length xs] ! i = xs ! i"
  proof (rule bit_word_eqI)
    fix n assume "n < LENGTH(8)"
    with i show "bit (map (\<lambda>i. of_nat (bytes_val xs div 2 ^ (8 * i)) :: u8) [0..<length xs] ! i) n = bit (xs ! i) n"
      by (simp add: bit_word_of_nat bit_drop_bit_eq bit_bytes_val flip: drop_bit_eq_div)
  qed
qed simp

lemma rsa_private_recovers:
  assumes key: "rsa_key_pair key d" and len: "length message + 11 \<le> modulus_bytes key"
    and ps: "length ps = modulus_bytes key - 3 - length message"
  shows "rsa_private key d
    (to_le_bytes (mod_pow (from_be_bytes (pkcs1_encode ps message)) (exponent key) (modulus key)) (modulus_bytes key)) =
    pkcs1_encode ps message"
proof -
  define n e k where "n = val (modulus key)" and "e = val (exponent key)" and "k = modulus_bytes key"
  define m where "m = bytes_val (rev (pkcs1_encode ps message))"
  have "0 < k" using len by (simp add: k_def)
  have "m < 2 ^ (8 * (k - 1))"
  proof -
    have "2 + length ps + length message = k - 1" using ps len by (simp add: k_def)
    then show ?thesis using pkcs1_encode_less [of ps message] by (metis m_def)
  qed
  then have mn: "m < n" and n0: "0 < n" using key by (auto simp: rsa_key_pair_def n_def k_def)
  have "val (mod_pow (from_be_bytes (pkcs1_encode ps message)) (exponent key) (modulus key)) = m ^ e mod n"
    using mod_pow_val [of "modulus key"] key n0
    by (simp add: rsa_key_pair_def n_def e_def m_def from_be_bytes_def val_from_le_bytes)
  moreover have "m ^ e mod n < 2 ^ (8 * k)"
    using key less_trans [OF mod_less_divisor [OF n0, of "m ^ e"]] by (simp add: rsa_key_pair_def n_def k_def)
  ultimately have "bytes_val (to_le_bytes (mod_pow (from_be_bytes (pkcs1_encode ps message)) (exponent key)
      (modulus key)) k) = m ^ e mod n" by (simp add: bytes_val_to_le_bytes)
  moreover have "(m ^ e mod n) ^ d mod n = m" using key mn by (simp add: rsa_key_pair_def n_def e_def)
  moreover have "length (rev (pkcs1_encode ps message)) = k" using ps len by (simp add: k_def)
  ultimately show ?thesis
    using bytes_of_val [of "rev (pkcs1_encode ps message)"]
    by (simp add: rsa_private_def k_def [symmetric] n_def [symmetric] m_def [symmetric] del: length_rev)
qed

section \<open>The wire format of keys\<close>

lemma read_le32_append:
  "length pre = i \<Longrightarrow> read_le32 (pre @ le_bytes 4 w @ post) i = w"
proof -
  assume i: "length pre = i"
  have "(pre @ le_bytes 4 w @ post) ! (i + k) = ucast (drop_bit (8 * k) w)" if "k < 4" for k
    using i that by (simp add: nth_append)
  from this [of 0] this [of 1] this [of 2] this [of 3]
  have "read_le32 (pre @ le_bytes 4 w @ post) i = le_word (le_bytes 4 w)"
    by (simp add: read_le32_def le_bytes_def upt_rec numeral_eq_Suc push_bit_or)
  then show ?thesis by simp
qed

lemma parse_export:
  assumes "n \<noteq> []" "8 * length n < 2 ^ 32"
  shows "parse_publickeyblob (export_publickeyblob e n @ trailing) =
    Inr \<lparr>modulus = from_le_bytes n, exponent = from_u32 e, modulus_bytes = length n\<rparr>"
proof -
  let ?b = "export_publickeyblob e n @ trailing"
  have m: "read_le32 ?b 8 = rsa1_magic"
    using read_le32_append [of "[publickeyblob, cur_blob_version, 0, 0] @ le_bytes 4 calg_rsa_keyx" 8 rsa1_magic]
    by (simp add: export_publickeyblob_def)
  have l: "read_le32 ?b 12 = of_nat (8 * length n)"
    using read_le32_append [of "[publickeyblob, cur_blob_version, 0, 0] @ le_bytes 4 calg_rsa_keyx @ le_bytes 4 rsa1_magic"
      12 "of_nat (8 * length n)"]
    by (simp add: export_publickeyblob_def)
  have e: "read_le32 ?b 16 = e"
    using read_le32_append [of "[publickeyblob, cur_blob_version, 0, 0] @ le_bytes 4 calg_rsa_keyx @
      le_bytes 4 rsa1_magic @ le_bytes 4 (of_nat (8 * length n) :: u32)" 16 e]
    by (simp add: export_publickeyblob_def)
  have u: "unat (of_nat (8 * length n) :: u32) = 8 * length n"
    using assms(2) by (simp only: unat_of_nat take_bit_nat_eq_self_iff) simp
  have "?b ! 0 = publickeyblob" "take (length n) (drop 20 ?b) = n" "length ?b = 20 + length n + length trailing"
    by (simp_all add: export_publickeyblob_def)
  then show ?thesis
    using assms by (simp add: parse_publickeyblob_def m l e u Let_def del: of_nat_mult of_nat_numeral)
qed

section \<open>Transport of the session key\<close>

lemma make_rc4_simpleblob_ok:
  assumes key: "rsa_key_pair key d" and len: "length k + 11 \<le> modulus_bytes key"
  obtains out g' where "make_rc4_simpleblob key k g = (Inr out, g')" "length out = 12 + modulus_bytes key"
    "take 12 out = [simpleblob, cur_blob_version, 0, 0] @ le_bytes 4 calg_rc4 @ le_bytes 4 calg_rsa_keyx"
    "pkcs1_decode (rsa_private key d (drop 12 out)) = Some k"
proof -
  obtain ps g' where ps: "length ps = modulus_bytes key - 3 - length k" "\<forall>x \<in> set ps. x \<noteq> 0"
    "rsa_pkcs1_encrypt key k g =
       (Inr (rev (to_le_bytes (mod_pow (from_be_bytes (pkcs1_encode ps k)) (exponent key) (modulus key))
          (modulus_bytes key))), g')"
    using rsa_pkcs1_encrypt_ok [OF len] by blast
  have "8 \<le> length ps" using ps(1) len by simp
  then show ?thesis
    using that pkcs1_decode_encode [OF ps(2)] rsa_private_recovers [OF key len ps(1)] ps(3)
    by (simp add: make_rc4_simpleblob_def write_le32_def le_bytes_def)
qed

text \<open>The degenerate pair with both exponents one, for concrete instances\<close>

lemma rsa_identity_pair:
  assumes "length n = k" "0 < k" "last n \<noteq> 0"
  shows "rsa_key_pair \<lparr>modulus = from_le_bytes n, exponent = from_u32 1, modulus_bytes = k\<rparr> 1"
proof -
  have n: "n = butlast n @ [last n]" using assms by (cases n rule: rev_cases) auto
  have "bytes_val n = bytes_val (butlast n) + 2 ^ (8 * (k - 1)) * unat (last n)"
    using assms by (subst n) (simp add: bytes_val_append)
  moreover have "1 \<le> unat (last n)" using assms(3) by (simp add: Suc_leI unat_gt_0)
  ultimately have "2 ^ (8 * (k - 1)) \<le> bytes_val n" by (metis mult_le_mono2 nat_mult_1_right trans_le_add2)
  with bytes_val_less [of n] assms(1) show ?thesis
    by (simp add: rsa_key_pair_def val_from_le_bytes trimmed_from_le_bytes)
qed

end
