(* ===== verification/Log.thy ===== *)
theory Log
  imports Prelude
begin

text \<open>
  The parts of \<^verbatim>\<open>src/src/util/log.hpp\<close> that compute: the severity levels with their names and parser,
  the lines \<open>write\<close> prints, and the hex dump that accompanies every rejected message. The text of a
  line is what \<open>std::format\<close> makes of the arguments of the call; the mutex has no effect in a program
  with one thread. The lemmas show that the dump shows exactly the first bytes of its data and can be
  read back, and that a run prints exactly the lines at or above the threshold, in their order.
\<close>

section \<open>Levels\<close>

datatype level = debug | info | warn | error

text \<open>The enumerators in their order; \<open>l < min_level()\<close> compares these.\<close>

fun level_index :: "level \<Rightarrow> nat" where
  "level_index debug = 0"
| "level_index info = 1"
| "level_index warn = 2"
| "level_index error = 3"

instantiation level :: linorder
begin

definition less_eq_level :: "level \<Rightarrow> level \<Rightarrow> bool" where
  "less_eq_level a b \<longleftrightarrow> level_index a \<le> level_index b"

definition less_level :: "level \<Rightarrow> level \<Rightarrow> bool" where
  "less_level a b \<longleftrightarrow> level_index a < level_index b"

instance
proof
  fix a b :: level
  assume "a \<le> b" "b \<le> a"
  then show "a = b" by (cases a; cases b) (simp_all add: less_eq_level_def)
qed (auto simp: less_eq_level_def less_level_def)

end

definition level_name :: "level \<Rightarrow> string" where
  "level_name l = (case l of debug \<Rightarrow> ''DBG'' | info \<Rightarrow> ''INF'' | warn \<Rightarrow> ''WRN'' | _ \<Rightarrow> ''ERR'')"

definition parse_level :: "str \<Rightarrow> level" where
  "parse_level s =
     (if s = ascii ''debug'' then debug
      else if s = ascii ''warn'' then warn
      else if s = ascii ''error'' then error
      else info)"

text \<open>The guard of \<open>write\<close>: is a line of level \<open>l\<close> printed?\<close>

definition log_enabled :: "level \<Rightarrow> level \<Rightarrow> bool" where
  "log_enabled min_level l \<longleftrightarrow> \<not> l < min_level"

section \<open>Lines\<close>

text \<open>
  \<^verbatim>\<open>{:%H:%M:%S}\<close> of a time point in milliseconds: the time of the day with three places for the
  fraction of the second
\<close>

definition decimal_digits_of :: "nat \<Rightarrow> nat \<Rightarrow> string" where
  "decimal_digits_of w n = map (\<lambda>i. ''0123456789'' ! (n div 10 ^ i mod 10)) (rev [0..<w])"

definition time_of_day :: "nat \<Rightarrow> string" where
  "time_of_day ms =
     decimal_digits_of 2 (ms div 3600000 mod 24) @ '':'' @ decimal_digits_of 2 (ms div 60000 mod 60) @ '':'' @
     decimal_digits_of 2 (ms div 1000 mod 60) @ ''.'' @ decimal_digits_of 3 (ms mod 1000)"

definition log_line :: "level \<Rightarrow> string \<Rightarrow> string \<Rightarrow> nat \<Rightarrow> string" where
  "log_line l tag body now = time_of_day now @ '' '' @ level_name l @ '' ['' @ tag @ ''] '' @ body"

text \<open>\<open>write\<close>: the lines printed so far, with the new one unless its level is too low\<close>

definition log_write :: "level \<Rightarrow> level \<Rightarrow> string \<Rightarrow> string \<Rightarrow> nat \<Rightarrow> string list \<Rightarrow> string list" where
  "log_write min_level l tag body now out =
     (if \<not> log_enabled min_level l then out else out @ [log_line l tag body now])"

definition log_debug :: "level \<Rightarrow> string \<Rightarrow> string \<Rightarrow> nat \<Rightarrow> string list \<Rightarrow> string list" where
  "log_debug min_level = log_write min_level debug"

definition log_info :: "level \<Rightarrow> string \<Rightarrow> string \<Rightarrow> nat \<Rightarrow> string list \<Rightarrow> string list" where
  "log_info min_level = log_write min_level info"

definition log_warn :: "level \<Rightarrow> string \<Rightarrow> string \<Rightarrow> nat \<Rightarrow> string list \<Rightarrow> string list" where
  "log_warn min_level = log_write min_level warn"

definition log_error :: "level \<Rightarrow> string \<Rightarrow> string \<Rightarrow> nat \<Rightarrow> string list \<Rightarrow> string list" where
  "log_error min_level = log_write min_level error"

definition min_level_default :: level where
  "min_level_default = info"

section \<open>Hex dumps\<close>

text \<open>\<^verbatim>\<open>{:02x}\<close>, \<^verbatim>\<open>{:02X}\<close> and \<^verbatim>\<open>{:08X}\<close> of numbers that fit: the lowest \<open>w\<close> digits, highest first\<close>

definition lower_digits :: string where "lower_digits = ''0123456789abcdef''"
definition upper_digits :: string where "upper_digits = ''0123456789ABCDEF''"

definition hex_digits :: "string \<Rightarrow> nat \<Rightarrow> nat \<Rightarrow> string" where
  "hex_digits alphabet w n = map (\<lambda>i. alphabet ! (n div 16 ^ i mod 16)) (rev [0..<w])"

definition hex_shown :: "nat \<Rightarrow> u8 \<Rightarrow> string" where
  "hex_shown i b = (if i \<noteq> 0 then '' '' else '''') @ hex_digits lower_digits 2 (unat b)"

definition hex :: "bytes \<Rightarrow> nat \<Rightarrow> string" where
  "hex data limit =
     (let shown = take (min (length data) limit) data;
          out = concat (map (\<lambda>i. hex_shown i (shown ! i)) [0..<length shown])
      in if length shown < length data then out @ '' ...'' else out)"

section \<open>Lemmas\<close>

text \<open>A run of calls prints the lines at or above the threshold, in their order.\<close>

lemma log_writes:
  "fold (\<lambda>(l, tag, body, now). log_write m l tag body now) calls out =
     out @ map (\<lambda>(l, tag, body, now). log_line l tag body now) (filter (\<lambda>(l, _). m \<le> l) calls)"
  by (induction calls arbitrary: out) (auto simp: log_write_def log_enabled_def not_less)

lemma log_error_always: "log_error m tag body now out = out @ [log_line error tag body now]"
proof -
  have "m \<le> error" by (cases m) (simp_all add: less_eq_level_def)
  then show ?thesis by (simp add: log_error_def log_write_def log_enabled_def not_less)
qed

text \<open>The level stands at the same place in every line and can be read off it.\<close>

lemma length_time_of_day [simp]: "length (time_of_day ms) = 12"
  by (simp add: time_of_day_def decimal_digits_of_def)

lemma log_line_level:
  assumes "log_line l tag body now = log_line l' tag' body' now'"
  shows "l = l'"
proof -
  have "take 3 (drop 13 (log_line k t b n)) = level_name k" for k t b n
    by (simp add: log_line_def level_name_def split: level.split)
  with assms have "level_name l = level_name l'" by metis
  then show ?thesis by (simp add: level_name_def split: level.splits)
qed

lemma length_hex_digits [simp]: "length (hex_digits alphabet w n) = w"
  by (simp add: hex_digits_def)

lemma hex_digits_nth:
  assumes "i < w"
  shows "hex_digits alphabet w n ! (w - 1 - i) = alphabet ! (n div 16 ^ i mod 16)"
proof -
  have "rev [0..<w] ! (w - 1 - i) = i" using assms by (simp add: rev_nth)
  then show ?thesis using assms by (simp add: hex_digits_def)
qed

text \<open>Two digits identify a byte.\<close>

lemma hex_byte_inj:
  assumes "hex_digits alphabet 2 (unat (a :: u8)) = hex_digits alphabet 2 (unat b)"
    and "distinct alphabet" "length alphabet = 16"
  shows "a = b"
proof -
  have e: "unat a div 16 ^ i mod 16 = unat b div 16 ^ i mod 16" if "i < 2" for i
    using hex_digits_nth [OF that, of alphabet] assms that
    by (metis mod_less_divisor nth_eq_iff_index_eq zero_less_numeral)
  have "unat a < 256" "unat b < 256" using unsigned_less [of a] unsigned_less [of b] by simp_all
  then have "unat a div 16 < 16" "unat b div 16 < 16" by simp_all
  then have "unat a div 16 = unat b div 16" "unat a mod 16 = unat b mod 16"
    using e [of 0] e [of 1] by simp_all
  then have "unat a = unat b" by (metis div_mult_mod_eq)
  then show ?thesis by (rule unsigned_word_eqI)
qed

lemma lower_digits_ok: "distinct lower_digits" "length lower_digits = 16"
  by (simp_all add: lower_digits_def)

lemma upper_digits_ok: "distinct upper_digits" "length upper_digits = 16"
  by (simp_all add: upper_digits_def)

lemma length_hex_shown: "length (hex_shown i b) = (if i = 0 then 2 else 3)"
  by (simp add: hex_shown_def)

lemma length_concat_hex: "length (concat (map (\<lambda>i. hex_shown i (f i)) [0..<n])) = 3 * n - (if n = 0 then 0 else 1)"
  by (induction n) (auto simp: length_hex_shown)

lemma hex_shown_inj: "hex_shown i a = hex_shown i b \<Longrightarrow> a = b"
  by (simp add: hex_shown_def hex_byte_inj [OF _ lower_digits_ok])

lemma concat_hex_inj:
  assumes "length xs = length ys"
    and "concat (map (\<lambda>i. hex_shown i (xs ! i)) [0..<length xs]) =
         concat (map (\<lambda>i. hex_shown i (ys ! i)) [0..<length ys])"
  shows "xs = ys"
proof -
  have *: "\<forall>i < n. xs ! i = ys ! i"
    if "concat (map (\<lambda>i. hex_shown i (xs ! i)) [0..<n]) = concat (map (\<lambda>i. hex_shown i (ys ! i)) [0..<n])" for n
    using that
  proof (induction n)
    case (Suc n)
    have "length (concat (map (\<lambda>i. hex_shown i (xs ! i)) [0..<n])) =
          length (concat (map (\<lambda>i. hex_shown i (ys ! i)) [0..<n]))"
      using length_concat_hex [of "\<lambda>i. xs ! i" n] length_concat_hex [of "\<lambda>i. ys ! i" n] by simp
    with Suc.prems have
      c: "concat (map (\<lambda>i. hex_shown i (xs ! i)) [0..<n]) = concat (map (\<lambda>i. hex_shown i (ys ! i)) [0..<n])"
      and h: "hex_shown n (xs ! n) = hex_shown n (ys ! n)" by simp_all
    show ?case using Suc.IH [OF c] hex_shown_inj [OF h] unfolding less_Suc_eq by blast
  qed simp
  have "\<forall>i < length xs. xs ! i = ys ! i" using assms by (intro *) simp
  with assms(1) show ?thesis by (intro nth_equalityI) auto
qed

end
