(* ===== verification/Proudnet_Types.thy ===== *)
theory Proudnet_Types
  imports Message Log
begin

text \<open>
  The vocabulary of the ProudNet layer: \<^verbatim>\<open>src/src/proudnet/types.hpp\<close> (GUIDs, protocol versions,
  network settings), \<^verbatim>\<open>message_type.hpp\<close> (message types, well-known HostIDs, core RMI numbers) and
  \<^verbatim>\<open>rmi.hpp\<close>. A \<open>message_type\<close> is an enumeration over \<open>uint8_t\<close> that is filled straight from the wire,
  so it may hold any byte: it is a byte here too, with the enumerators as constants.
\<close>

type_synonym host_id = u32
type_synonym guid = bytes
type_synonym message_type = u8

section \<open>GUIDs\<close>

definition make_guid :: "u32 \<Rightarrow> u16 \<Rightarrow> u16 \<Rightarrow> bytes \<Rightarrow> guid" where
  "make_guid d1 d2 d3 d4 =
     map (\<lambda>i. ucast (drop_bit (8 * i) d1)) [0..<4] @
     [ucast d2, ucast (drop_bit 8 d2), ucast d3, ucast (drop_bit 8 d3)] @ map (\<lambda>i. d4 ! i) [0..<8]"

text \<open>The first field of a GUID as both \<open>to_string\<close> and \<open>derive_protocol_version\<close> assemble it\<close>

definition guid_d1 :: "guid \<Rightarrow> u32" where
  "guid_d1 g = ucast (g ! 0) OR push_bit 8 (ucast (g ! 1)) OR push_bit 16 (ucast (g ! 2)) OR
     push_bit 24 (ucast (g ! 3))"

definition guid_to_string :: "guid \<Rightarrow> string" where
  "guid_to_string g =
     (let x = \<lambda>i. hex_digits upper_digits 2 (unat (g ! i)) in
      ''{'' @ hex_digits upper_digits 8 (unat (guid_d1 g)) @ ''-'' @ x 5 @ x 4 @ ''-'' @ x 7 @ x 6 @ ''-'' @
      x 8 @ x 9 @ ''-'' @ x 10 @ x 11 @ x 12 @ x 13 @ x 14 @ x 15 @ ''}'')"

definition protocol_version_base :: guid where
  "protocol_version_base =
     make_guid 0x683ADDC6 0x6740 0x485B [0xAF, 0x8D, 0x88, 0x18, 0xC1, 0xCC, 0x04, 0x3C]"

definition derive_protocol_version :: "u32 \<Rightarrow> guid" where
  "derive_protocol_version add =
     (let g = protocol_version_base; d1 = guid_d1 g + add
      in map (\<lambda>i. ucast (drop_bit (8 * i) d1)) [0..<4] @ drop 4 g)"

definition game_protocol_version :: guid where
  "game_protocol_version = derive_protocol_version 1"

definition messenger_protocol_version :: guid where
  "messenger_protocol_version = derive_protocol_version 4"

definition session_protocol_version :: guid where
  "session_protocol_version = derive_protocol_version 5"

section \<open>Settings\<close>

text \<open>The \<open>double\<close> field is the bit image of its value; \<open>60.0\<close> is \<open>0x404E000000000000\<close>.\<close>

record net_settings =
  fallback_method :: u8
  message_max_length :: u32
  default_timeout_sec :: f64
  direct_p2p_start_condition :: u8
  over_send_suspecting_threshold :: u32
  enable_nagle_algorithm :: u8
  encrypted_message_key_length :: u32
  allow_server_as_p2p_group_member :: u8
  enable_p2p_encrypted_messaging :: u8
  upnp_detect_nat_device :: u8
  upnp_tcp_add_port_mapping :: u8
  emergency_log_line_count :: u32
  enable_ping_test :: u8
  unknown_bool :: u8

definition net_settings_default :: net_settings where
  "net_settings_default = \<lparr>
     fallback_method = 0, message_max_length = 0x100000, default_timeout_sec = 0x404E000000000000,
     direct_p2p_start_condition = 2, over_send_suspecting_threshold = 0, enable_nagle_algorithm = 0,
     encrypted_message_key_length = 128, allow_server_as_p2p_group_member = 0,
     enable_p2p_encrypted_messaging = 0, upnp_detect_nat_device = 0, upnp_tcp_add_port_mapping = 0,
     emergency_log_line_count = 0, enable_ping_test = 0, unknown_bool = 0\<rparr>"

section \<open>Message types\<close>

definition none :: message_type where "none = 0"
definition rmi :: message_type where "rmi = 1"
definition user_message :: message_type where "user_message = 2"
definition connect_server_timedout :: message_type where "connect_server_timedout = 3"
definition notify_server_connection_hint :: message_type where "notify_server_connection_hint = 4"
definition notify_cs_public_key :: message_type where "notify_cs_public_key = 5"
definition notify_cs_encrypted_session_key :: message_type where "notify_cs_encrypted_session_key = 6"
definition notify_server_connection_request_data :: message_type where "notify_server_connection_request_data = 7"
definition notify_protocol_version_mismatch :: message_type where "notify_protocol_version_mismatch = 8"
definition notify_server_denied_connection :: message_type where "notify_server_denied_connection = 9"
definition notify_server_connect_success :: message_type where "notify_server_connect_success = 10"
definition request_start_server_holepunch :: message_type where "request_start_server_holepunch = 11"
definition server_holepunch :: message_type where "server_holepunch = 12"
definition server_holepunch_ack :: message_type where "server_holepunch_ack = 13"
definition notify_holepunch_success :: message_type where "notify_holepunch_success = 14"
definition notify_client_server_udp_matched :: message_type where "notify_client_server_udp_matched = 15"
definition peer_udp_server_holepunch :: message_type where "peer_udp_server_holepunch = 16"
definition peer_udp_server_holepunch_ack :: message_type where "peer_udp_server_holepunch_ack = 17"
definition peer_udp_notify_holepunch_success :: message_type where "peer_udp_notify_holepunch_success = 18"
definition reliable_udp_frame :: message_type where "reliable_udp_frame = 19"
definition reliable_relay1 :: message_type where "reliable_relay1 = 20"
definition unreliable_relay1 :: message_type where "unreliable_relay1 = 21"
definition reliable_udp_frame_relay1 :: message_type where "reliable_udp_frame_relay1 = 22"
definition reliable_relay2 :: message_type where "reliable_relay2 = 23"
definition unreliable_relay2 :: message_type where "unreliable_relay2 = 24"
definition reliable_udp_frame_relay2 :: message_type where "reliable_udp_frame_relay2 = 25"
definition request_server_time_and_keep_alive :: message_type where "request_server_time_and_keep_alive = 26"
definition speed_hack_detector_ping :: message_type where "speed_hack_detector_ping = 27"
definition reply_server_time_and_keep_alive :: message_type where "reply_server_time_and_keep_alive = 28"
definition ignored_29 :: message_type where "ignored_29 = 29"
definition peer_udp_peer_holepunch :: message_type where "peer_udp_peer_holepunch = 30"
definition peer_udp_peer_holepunch_ack :: message_type where "peer_udp_peer_holepunch_ack = 31"
definition p2p_indirect_server_time_and_ping :: message_type where "p2p_indirect_server_time_and_ping = 32"
definition p2p_indirect_server_time_and_pong :: message_type where "p2p_indirect_server_time_and_pong = 33"
definition s2c_routed_multicast1 :: message_type where "s2c_routed_multicast1 = 34"
definition s2c_routed_multicast2 :: message_type where "s2c_routed_multicast2 = 35"
definition encrypted_reliable :: message_type where "encrypted_reliable = 36"
definition encrypted_unreliable :: message_type where "encrypted_unreliable = 37"
definition compressed :: message_type where "compressed = 38"
definition request_receive_speed_at_receiver_side :: message_type where "request_receive_speed_at_receiver_side = 39"
definition reply_receive_speed_at_receiver_side :: message_type where "reply_receive_speed_at_receiver_side = 40"

lemmas message_type_defs =
  none_def rmi_def user_message_def connect_server_timedout_def notify_server_connection_hint_def
  notify_cs_public_key_def notify_cs_encrypted_session_key_def notify_server_connection_request_data_def
  notify_protocol_version_mismatch_def notify_server_denied_connection_def notify_server_connect_success_def
  request_start_server_holepunch_def server_holepunch_def server_holepunch_ack_def
  notify_holepunch_success_def notify_client_server_udp_matched_def peer_udp_server_holepunch_def
  peer_udp_server_holepunch_ack_def peer_udp_notify_holepunch_success_def reliable_udp_frame_def
  reliable_relay1_def unreliable_relay1_def reliable_udp_frame_relay1_def reliable_relay2_def
  unreliable_relay2_def reliable_udp_frame_relay2_def request_server_time_and_keep_alive_def
  speed_hack_detector_ping_def reply_server_time_and_keep_alive_def ignored_29_def peer_udp_peer_holepunch_def
  peer_udp_peer_holepunch_ack_def p2p_indirect_server_time_and_ping_def p2p_indirect_server_time_and_pong_def
  s2c_routed_multicast1_def s2c_routed_multicast2_def encrypted_reliable_def encrypted_unreliable_def
  compressed_def request_receive_speed_at_receiver_side_def reply_receive_speed_at_receiver_side_def

definition host_id_none :: host_id where "host_id_none = 0"
definition host_id_server :: host_id where "host_id_server = 1"
definition host_id_first_client :: host_id where "host_id_first_client = 3"

section \<open>Core RMI numbers\<close>

definition c2s_first :: u16 where "c2s_first = 64001"
definition c2s_last :: u16 where "c2s_last = 64019"
definition c2s_reliable_ping :: u16 where "c2s_reliable_ping = 64001"
definition c2s_shutdown_tcp :: u16 where "c2s_shutdown_tcp = 64003"
definition p2p_group_member_join :: u16 where "p2p_group_member_join = 64501"
definition p2p_group_member_join_unencrypted :: u16 where "p2p_group_member_join_unencrypted = 64502"
definition p2p_group_member_leave :: u16 where "p2p_group_member_leave = 64506"
definition reliable_pong :: u16 where "reliable_pong = 64508"
definition notify_speed_hack_detector_enabled :: u16 where "notify_speed_hack_detector_enabled = 64512"
definition shutdown_tcp_ack :: u16 where "shutdown_tcp_ack = 64513"

lemmas core_rmi_defs =
  c2s_first_def c2s_last_def c2s_reliable_ping_def c2s_shutdown_tcp_def p2p_group_member_join_def
  p2p_group_member_join_unencrypted_def p2p_group_member_leave_def reliable_pong_def
  notify_speed_hack_detector_enabled_def shutdown_tcp_ack_def

section \<open>Payload beginnings\<close>

definition begin_message :: "message_type \<Rightarrow> message_writer" where
  "begin_message type = write_u8 type message_writer_new"

definition rmi_begin :: "u16 \<Rightarrow> message_writer" where
  "rmi_begin rmi_id = write_u16 rmi_id (write_u8 rmi message_writer_new)"

section \<open>Lemmas\<close>

lemma m_data_begin_message [wire_simps]: "m_data (begin_message type) = [type]"
  by (simp add: begin_message_def wire_simps)

lemma m_data_rmi_begin [wire_simps]: "m_data (rmi_begin i) = rmi # le_bytes 2 i"
  by (simp add: rmi_begin_def wire_simps)

lemma length_derive_protocol_version: "length (derive_protocol_version a) = 16"
  by (simp add: derive_protocol_version_def protocol_version_base_def make_guid_def)

text \<open>The derived versions differ in their first field only, and differ there for different offsets.\<close>

lemma derive_protocol_version_eq:
  "derive_protocol_version a =
     make_guid (0x683ADDC6 + a) 0x6740 0x485B [0xAF, 0x8D, 0x88, 0x18, 0xC1, 0xCC, 0x04, 0x3C]"
proof -
  have "guid_d1 protocol_version_base = 0x683ADDC6"
    unfolding guid_d1_def protocol_version_base_def make_guid_def by code_simp
  then show ?thesis
    by (simp add: derive_protocol_version_def make_guid_def protocol_version_base_def Let_def)
qed

lemma guid_d1_make: "guid_d1 (make_guid d1 d2 d3 d4) = d1"
proof -
  have "guid_d1 (make_guid d1 d2 d3 d4) = le_word (le_bytes 4 d1)"
    by (simp add: guid_d1_def make_guid_def le_bytes_def upt_rec numeral_eq_Suc push_bit_or)
  then show ?thesis by simp
qed

lemma derive_protocol_version_inj: "derive_protocol_version a = derive_protocol_version b \<longleftrightarrow> a = b"
  by (metis add_left_cancel derive_protocol_version_eq guid_d1_make)

end
