(* ===== verification/Proudnet.thy ===== *)
theory Proudnet
  imports Framing Rc4 Rsa Proudnet_Types
begin

text \<open>
  The ProudNet server, \<^verbatim>\<open>src/src/proudnet/server.hpp\<close> and \<^verbatim>\<open>server.cpp\<close>: connections (\<open>peer\<close>) and the
  server that owns them. Everything runs on one \<open>io_context\<close> thread, so the program is a sequence of
  completion handlers; each one is a function on the state here. A peer is named by its HostID. An
  operation that may throw returns the exception beside the state it leaves behind, since the read
  loop catches it and goes on. Buffers handed to \<open>async_write\<close> are appended to \<open>m_socket\<close>.
\<close>

section \<open>peer\<close>

datatype peer_state = awaiting_public_key | awaiting_connection_request | connected | closed

text \<open>\<open>ep_v4\<close> holds the four address bytes, \<open>None\<close> for an endpoint that is not IPv4.\<close>

record endpoint =
  ep_v4 :: "bytes option"
  ep_port :: u16

record 'u peer =
  m_id :: host_id
  m_state :: peer_state
  m_remote :: endpoint
  m_parser :: frame_parser
  m_write_queue :: "bytes list"
  m_writing :: bool
  m_session_key :: bytes
  m_recv_serial :: u16
  m_send_serial :: u16
  m_last_receive :: nat
  user_data :: "'u option"
  m_socket :: "bytes list"

definition rc4_key_bytes :: nat where
  "rc4_key_bytes = 16"

definition peer_new :: "host_id \<Rightarrow> endpoint \<Rightarrow> nat \<Rightarrow> 'u peer" where
  "peer_new host remote now = \<lparr>
     m_id = host, m_state = awaiting_public_key, m_remote = remote, m_parser = frame_parser_new,
     m_write_queue = [], m_writing = False, m_session_key = [], m_recv_serial = 0, m_send_serial = 0,
     m_last_receive = now, user_data = None, m_socket = []\<rparr>"

definition write_next :: "'u peer \<Rightarrow> 'u peer" where
  "write_next p =
     (case m_write_queue p of
        [] \<Rightarrow> p\<lparr>m_writing := False\<rparr>
      | buffer # queue \<Rightarrow>
          if m_state p = closed then p\<lparr>m_writing := False\<rparr>
          else p\<lparr>m_writing := True, m_write_queue := queue, m_socket := m_socket p @ [buffer]\<rparr>)"

text \<open>The payload that goes into the frame: the given one, or its Encrypted_Reliable wrapping\<close>

definition encrypt_payload :: "bytes \<Rightarrow> u16 \<Rightarrow> bytes \<Rightarrow> bytes" where
  "encrypt_payload key serial payload =
     (let plain = write_bytes payload (write_u16 serial message_writer_new);
          cipher = rc4_apply key (m_data plain)
      in m_data (writes [write_u8 1, write_scalar (ssize cipher), write_bytes cipher]
                  (begin_message encrypted_reliable)))"

definition peer_send :: "bytes \<Rightarrow> bool \<Rightarrow> 'u peer \<Rightarrow> 'u peer" where
  "peer_send payload encrypt p =
     (if m_state p = closed then p
      else
        (let p' =
           (if encrypt \<and> m_session_key p \<noteq> []
            then p\<lparr>m_send_serial := m_send_serial p + 1,
                   m_write_queue := m_write_queue p @
                     [make_frame (encrypt_payload (m_session_key p) (m_send_serial p) payload)]\<rparr>
            else p\<lparr>m_write_queue := m_write_queue p @ [make_frame payload]\<rparr>)
         in if \<not> m_writing p' then write_next p' else p'))"

definition connection_hint :: "net_settings \<Rightarrow> message_writer" where
  "connection_hint s = writes
     [write_u8 0,
      write_u8 (fallback_method s),
      write_i32 (message_max_length s),
      write_f64 (default_timeout_sec s),
      write_u8 (direct_p2p_start_condition s),
      write_i32 (over_send_suspecting_threshold s),
      write_u8 (enable_nagle_algorithm s),
      write_i32 (encrypted_message_key_length s),
      write_u8 (allow_server_as_p2p_group_member s),
      write_u8 (enable_p2p_encrypted_messaging s),
      write_u8 (upnp_detect_nat_device s),
      write_u8 (upnp_tcp_add_port_mapping s),
      write_i32 (emergency_log_line_count s),
      write_u8 (enable_ping_test s),
      write_u8 (unknown_bool s)]
     (begin_message notify_server_connection_hint)"

text \<open>
  \<open>on_encrypted\<close> up to its last call: the inner payload that is processed next, \<open>None\<close> where the
  source returns without processing.
\<close>

definition on_encrypted :: "bool \<Rightarrow> message_reader \<Rightarrow> 'u peer \<Rightarrow> (exn + bytes option) \<times> 'u peer" where
  "on_encrypted reliable r p =
     (if m_session_key p = [] then (Inr None, p)
      else
        (case rbind read_u8 (\<lambda>_. read_scalar) r of
           Inl e \<Rightarrow> (Inl e, p)
         | Inr (_, r) \<Rightarrow>
             (let plain = rc4_apply (m_session_key p) (rest r) in
              if reliable then
                (case read_u16 (message_reader_new plain) of
                   Inl e \<Rightarrow> (Inl e, p)
                 | Inr (serial, _) \<Rightarrow>
                     if serial \<noteq> m_recv_serial p then (Inr None, p)
                     else (Inr (Some (drop 2 plain)), p\<lparr>m_recv_serial := m_recv_serial p + 1\<rparr>))
              else (Inr (Some plain), p))))"

section \<open>server\<close>

record server_config =
  sc_name :: string
  sc_port :: u16
  protocol_version :: guid
  settings :: net_settings
  timeout :: nat

text \<open>
  \<open>std::chrono::steady_clock\<close>: the times its successive readings give, in nanoseconds.
\<close>

record clock =
  clock_times :: "nat \<Rightarrow> nat"
  clock_position :: nat

definition clock_now :: "clock \<Rightarrow> nat \<times> clock" where
  "clock_now c = (clock_times c (clock_position c), c\<lparr>clock_position := clock_position c + 1\<rparr>)"

text \<open>
  \<open>m_seconds\<close> is the conversion \<^verbatim>\<open>std::chrono::duration<double>(...).count()\<close> of nanoseconds into the
  bits of a \<open>double\<close>; the event sink is an argument of the operations that call it.
\<close>

record 'u server =
  m_config :: server_config
  m_instance_guid :: guid
  m_rng :: rng
  m_peers :: "(host_id, 'u peer) omap"
  m_groups :: "(host_id, host_id oset) omap"
  m_free_ids :: "host_id oset"
  m_next_id :: u32
  m_start_time :: nat
  m_next_event_id :: u32
  m_clock :: clock
  m_seconds :: "nat \<Rightarrow> f64"

definition server_new :: "server_config \<Rightarrow> rng \<Rightarrow> clock \<Rightarrow> (nat \<Rightarrow> f64) \<Rightarrow> 'u server" where
  "server_new config g c seconds =
     (let (start, c') = clock_now c; (instance_guid, g') = draw_bytes 16 0 255 g in
      \<lparr>m_config = config, m_instance_guid = instance_guid, m_rng = g', m_peers = [], m_groups = [],
       m_free_ids = [], m_next_id = host_id_first_client, m_start_time = start, m_next_event_id = 1,
       m_clock = c', m_seconds = seconds\<rparr>)"

definition find_peer :: "'u server \<Rightarrow> host_id \<Rightarrow> 'u peer option" where
  "find_peer s host = map_of (m_peers s) host"

text \<open>A call of a \<open>peer\<close> member function on the peer object with HostID \<open>host\<close>\<close>

definition on_peer :: "host_id \<Rightarrow> ('u peer \<Rightarrow> 'u peer) \<Rightarrow> 'u server \<Rightarrow> 'u server" where
  "on_peer host f s =
     (case find_peer s host of None \<Rightarrow> s | Some p \<Rightarrow> s\<lparr>m_peers := omap_put host (f p) (m_peers s)\<rparr>)"

definition allocate_host_id :: "'u server \<Rightarrow> host_id \<times> 'u server" where
  "allocate_host_id s =
     (case m_free_ids s of
        host # ids \<Rightarrow> (host, s\<lparr>m_free_ids := ids\<rparr>)
      | [] \<Rightarrow>
          (let host = m_next_id s; s' = s\<lparr>m_next_id := host + 1\<rparr> in
           if host = 50 then (m_next_id s', s'\<lparr>m_next_id := m_next_id s' + 1\<rparr>) else (host, s')))"

definition release_host_id :: "host_id \<Rightarrow> 'u server \<Rightarrow> 'u server" where
  "release_host_id host s = s\<lparr>m_free_ids := oset_add host (m_free_ids s)\<rparr>"

definition server_send :: "host_id \<Rightarrow> message_writer \<Rightarrow> bool \<Rightarrow> 'u server \<Rightarrow> 'u server" where
  "server_send dest message encrypt s =
     (case find_peer s dest of
        None \<Rightarrow> s
      | Some p \<Rightarrow> if m_state p = connected then on_peer dest (peer_send (m_data message) encrypt) s else s)"

definition server_send_all :: "host_id list \<Rightarrow> message_writer \<Rightarrow> bool \<Rightarrow> 'u server \<Rightarrow> 'u server" where
  "server_send_all dests message encrypt = fold (\<lambda>host. server_send host message encrypt) dests"

subsection \<open>P2P groups\<close>

definition notify_group_member_join :: "host_id \<Rightarrow> host_id \<Rightarrow> host_id \<Rightarrow> 'u server \<Rightarrow> 'u server" where
  "notify_group_member_join grp member_to_notify joined_member s =
     (let w = writes
        [write_u32 grp, write_u32 joined_member, write_byte_array [], write_u32 (m_next_event_id s),
         write_i32 1, write_guid (m_instance_guid s), write_bool False, write_u16 0]
        (rmi_begin p2p_group_member_join_unencrypted)
      in server_send member_to_notify w False (s\<lparr>m_next_event_id := m_next_event_id s + 1\<rparr>))"

definition notify_group_member_leave :: "host_id \<Rightarrow> host_id \<Rightarrow> host_id \<Rightarrow> 'u server \<Rightarrow> 'u server" where
  "notify_group_member_leave grp member_to_notify left_member =
     server_send member_to_notify (writes [write_u32 left_member, write_u32 grp] (rmi_begin p2p_group_member_leave)) False"

definition join_p2p_group :: "host_id \<Rightarrow> host_id \<Rightarrow> 'u server \<Rightarrow> 'u server" where
  "join_p2p_group grp member s =
     (case map_of (m_groups s) grp of
        None \<Rightarrow> s
      | Some members \<Rightarrow>
          if find_peer s member = None \<or> member \<in> set members then s
          else
            (let members' = oset_add member members in
             fold (\<lambda>existing s.
                 let s' = notify_group_member_join grp member existing s in
                 if existing \<noteq> member then notify_group_member_join grp existing member s' else s')
               members' (s\<lparr>m_groups := omap_put grp members' (m_groups s)\<rparr>)))"

definition leave_p2p_group :: "host_id \<Rightarrow> host_id \<Rightarrow> 'u server \<Rightarrow> 'u server" where
  "leave_p2p_group grp member s =
     (case map_of (m_groups s) grp of
        None \<Rightarrow> s
      | Some members \<Rightarrow>
          if member \<notin> set members then s
          else
            (let members' = oset_del member members in
             notify_group_member_leave grp member member
               (fold (\<lambda>remaining. notify_group_member_leave grp remaining member) members'
                 (s\<lparr>m_groups := omap_put grp members' (m_groups s)\<rparr>))))"

definition create_p2p_group :: "host_id list \<Rightarrow> 'u server \<Rightarrow> host_id \<times> 'u server" where
  "create_p2p_group members s =
     (let (grp, s') = allocate_host_id s;
          s'' = s'\<lparr>m_groups := omap_emplace grp [] (m_groups s')\<rparr>
      in (grp, fold (join_p2p_group grp) members s''))"

definition destroy_p2p_group :: "host_id \<Rightarrow> 'u server \<Rightarrow> 'u server" where
  "destroy_p2p_group grp s =
     (case map_of (m_groups s) grp of
        None \<Rightarrow> s
      | Some members \<Rightarrow>
          (let s' = fold (leave_p2p_group grp) members s
           in release_host_id grp (s'\<lparr>m_groups := omap_del grp (m_groups s')\<rparr>)))"

definition p2p_group_members :: "'u server \<Rightarrow> host_id \<Rightarrow> host_id oset option" where
  "p2p_group_members s grp = map_of (m_groups s) grp"

definition on_peer_closed :: "host_id \<Rightarrow> 'u server \<Rightarrow> 'u server" where
  "on_peer_closed host s =
     (let s' = fold (\<lambda>grp s.
            case map_of (m_groups s) grp of
              None \<Rightarrow> s
            | Some members \<Rightarrow> if host \<in> set members then leave_p2p_group grp host s else s)
          (map fst (m_groups s)) s
      in release_host_id host (s'\<lparr>m_peers := omap_del host (m_peers s')\<rparr>))"

section \<open>What a peer sends\<close>

text \<open>The buffers of a connection in the order of \<open>send\<close>: those with the socket, then the waiting ones\<close>

definition sent :: "'u peer \<Rightarrow> bytes list" where
  "sent p = m_socket p @ m_write_queue p"

definition queue_ok :: "'u peer \<Rightarrow> bool" where
  "queue_ok p \<longleftrightarrow> (m_state p \<noteq> closed \<and> \<not> m_writing p \<longrightarrow> m_write_queue p = [])"

text \<open>The payload \<open>send\<close> puts on the wire\<close>

definition wire_payload :: "bytes \<Rightarrow> bool \<Rightarrow> 'u peer \<Rightarrow> bytes" where
  "wire_payload payload encrypt p =
     (if encrypt \<and> m_session_key p \<noteq> [] then encrypt_payload (m_session_key p) (m_send_serial p) payload else payload)"

text \<open>A peer without its outgoing side and without the data of the application: what \<open>send\<close> leaves alone\<close>

definition quiet :: "'u peer \<Rightarrow> 'u peer" where
  "quiet p = p\<lparr>m_write_queue := [], m_writing := False, m_send_serial := 0, user_data := None, m_socket := []\<rparr>"

lemma quiet_fields [simp]:
  "m_id (quiet p) = m_id p" "m_state (quiet p) = m_state p" "m_remote (quiet p) = m_remote p"
  "m_parser (quiet p) = m_parser p" "m_session_key (quiet p) = m_session_key p"
  "m_recv_serial (quiet p) = m_recv_serial p" "m_last_receive (quiet p) = m_last_receive p"
  by (simp_all add: quiet_def)

lemma quiet_eqD:
  assumes "quiet p = quiet q"
  shows "m_id p = m_id q" "m_state p = m_state q" "m_remote p = m_remote q" "m_parser p = m_parser q"
    "m_session_key p = m_session_key q" "m_recv_serial p = m_recv_serial q" "m_last_receive p = m_last_receive q"
  using assms by (metis quiet_fields)+

lemma write_next_frame [simp]:
  "quiet (write_next p) = quiet p" "user_data (write_next p) = user_data p"
  "sent (write_next p) = sent p" "m_send_serial (write_next p) = m_send_serial p"
  by (auto simp: write_next_def quiet_def sent_def split: list.split)

lemma peer_send_frame [simp]:
  "quiet (peer_send payload encrypt p) = quiet p"
  "user_data (peer_send payload encrypt p) = user_data p"
  by (auto simp: peer_send_def Let_def) (auto simp: quiet_def)

lemma peer_send_state [simp]:
  "m_state (peer_send payload encrypt p) = m_state p" "m_id (peer_send payload encrypt p) = m_id p"
  "m_session_key (peer_send payload encrypt p) = m_session_key p"
  "m_parser (peer_send payload encrypt p) = m_parser p"
  "m_recv_serial (peer_send payload encrypt p) = m_recv_serial p"
  using quiet_eqD [of "peer_send payload encrypt p" p] by simp_all

lemma sent_peer_send:
  "sent (peer_send payload encrypt p) =
     (if m_state p = closed then sent p else sent p @ [make_frame (wire_payload payload encrypt p)])"
  by (auto simp: peer_send_def Let_def wire_payload_def) (auto simp: sent_def)

lemma queue_ok_write_next: "queue_ok (write_next p)"
  by (auto simp: write_next_def queue_ok_def split: list.split)

lemma queue_ok_peer_send: "queue_ok p \<Longrightarrow> queue_ok (peer_send payload encrypt p)"
  by (simp add: peer_send_def Let_def queue_ok_write_next) (simp add: queue_ok_def)

section \<open>Peers of a server\<close>

lemma find_on_peer:
  "find_peer (on_peer host f s) h = (if h = host then map_option f (find_peer s h) else find_peer s h)"
  by (auto simp: on_peer_def find_peer_def map_of_omap_put split: option.split)

lemma find_peer_m_peers [simp]:
  "find_peer (s\<lparr>m_groups := g\<rparr>) h = find_peer s h" "find_peer (s\<lparr>m_next_event_id := e\<rparr>) h = find_peer s h"
  "find_peer (s\<lparr>m_free_ids := i\<rparr>) h = find_peer s h" "find_peer (s\<lparr>m_next_id := n\<rparr>) h = find_peer s h"
  "find_peer (s\<lparr>m_rng := r\<rparr>) h = find_peer s h" "find_peer (s\<lparr>m_clock := c\<rparr>) h = find_peer s h"
  "find_peer (s\<lparr>m_peers := m\<rparr>) h = map_of m h"
  by (simp_all add: find_peer_def)

definition sent_to :: "'u server \<Rightarrow> host_id \<Rightarrow> bytes list" where
  "sent_to s h = (case find_peer s h of None \<Rightarrow> [] | Some p \<Rightarrow> sent p)"

definition is_connected :: "'u server \<Rightarrow> host_id \<Rightarrow> bool" where
  "is_connected s h \<longleftrightarrow> (\<exists>p. find_peer s h = Some p \<and> m_state p = connected)"

text \<open>\<open>same_net\<close>: the two states agree on everything but outgoing traffic, groups and HostIDs.\<close>

definition same_net :: "'u server \<Rightarrow> 'u server \<Rightarrow> bool" where
  "same_net s s' \<longleftrightarrow>
     (omap_ok (m_peers s) \<longrightarrow> omap_ok (m_peers s')) \<and>
     (\<forall>h. map_option quiet (find_peer s' h) = map_option quiet (find_peer s h)) \<and>
     m_config s' = m_config s \<and> m_instance_guid s' = m_instance_guid s \<and> m_rng s' = m_rng s \<and>
     m_start_time s' = m_start_time s \<and> m_clock s' = m_clock s \<and> m_seconds s' = m_seconds s"

lemma same_net_refl [simp]: "same_net s s"
  by (simp add: same_net_def)

lemma same_net_trans: "same_net s s' \<Longrightarrow> same_net s' s'' \<Longrightarrow> same_net s s''"
  by (simp add: same_net_def)

lemma same_net_fold:
  assumes "\<And>x s. x \<in> set xs \<Longrightarrow> same_net s (f x s)"
  shows "same_net s (fold f xs s)"
  using assms by (induction xs arbitrary: s) (auto intro: same_net_trans)

lemma same_net_find:
  assumes "same_net s s'"
  shows "find_peer s' h = None \<longleftrightarrow> find_peer s h = None"
    and "find_peer s' h = Some p' \<Longrightarrow> \<exists>p. find_peer s h = Some p \<and> quiet p' = quiet p"
    and "find_peer s h = Some p \<Longrightarrow> \<exists>p'. find_peer s' h = Some p' \<and> quiet p' = quiet p"
proof -
  have *: "map_option quiet (find_peer s' h) = map_option quiet (find_peer s h)"
    using assms by (simp add: same_net_def)
  show "find_peer s' h = None \<longleftrightarrow> find_peer s h = None" using * by (metis map_option_is_None)
  show "find_peer s' h = Some p' \<Longrightarrow> \<exists>p. find_peer s h = Some p \<and> quiet p' = quiet p"
    using * by (cases "find_peer s h") auto
  show "find_peer s h = Some p \<Longrightarrow> \<exists>p'. find_peer s' h = Some p' \<and> quiet p' = quiet p"
    using * by (cases "find_peer s' h") auto
qed

lemma same_net_connected: "same_net s s' \<Longrightarrow> is_connected s' h \<longleftrightarrow> is_connected s h"
  unfolding is_connected_def by (metis quiet_eqD(2) same_net_find(2,3))

lemma omap_ok_on_peer: "omap_ok (m_peers s) \<Longrightarrow> omap_ok (m_peers (on_peer host f s))"
  by (auto simp: on_peer_def omap_ok_put split: option.split)

lemma on_peer_fields [simp]:
  "m_groups (on_peer host f s) = m_groups s" "m_free_ids (on_peer host f s) = m_free_ids s"
  "m_next_id (on_peer host f s) = m_next_id s" "m_next_event_id (on_peer host f s) = m_next_event_id s"
  "m_config (on_peer host f s) = m_config s" "m_instance_guid (on_peer host f s) = m_instance_guid s"
  "m_rng (on_peer host f s) = m_rng s" "m_start_time (on_peer host f s) = m_start_time s"
  "m_clock (on_peer host f s) = m_clock s" "m_seconds (on_peer host f s) = m_seconds s"
  by (simp_all add: on_peer_def split: option.split)

lemma same_net_on_peer:
  "(\<And>p. find_peer s host = Some p \<Longrightarrow> quiet (f p) = quiet p) \<Longrightarrow> same_net s (on_peer host f s)"
  by (auto simp: same_net_def find_on_peer omap_ok_on_peer option.map_comp split: option.split)
    (cases "find_peer s host"; simp)

lemma same_net_updates [simp]:
  "same_net s (s\<lparr>m_groups := g\<rparr>)" "same_net s (s\<lparr>m_next_event_id := e\<rparr>)"
  "same_net s (s\<lparr>m_free_ids := i\<rparr>)" "same_net s (s\<lparr>m_next_id := n\<rparr>)"
  by (simp_all add: same_net_def)

lemma same_net_server_send [simp]: "same_net s (server_send dest message encrypt s)"
  by (auto simp: server_send_def same_net_on_peer split: option.split)

lemma server_send_fields [simp]:
  "m_groups (server_send dest message encrypt s) = m_groups s"
  "m_free_ids (server_send dest message encrypt s) = m_free_ids s"
  "m_next_id (server_send dest message encrypt s) = m_next_id s"
  "m_next_event_id (server_send dest message encrypt s) = m_next_event_id s"
  by (auto simp: server_send_def split: option.split)

lemma sent_to_server_send:
  "sent_to (server_send dest message False s) h =
     sent_to s h @ (if h = dest \<and> is_connected s h then [make_frame (m_data message)] else [])"
  by (auto simp: sent_to_def server_send_def find_on_peer is_connected_def sent_peer_send wire_payload_def
      split: option.split)

lemma sent_to_fold_send:
  assumes "distinct dests"
  shows "sent_to (fold (\<lambda>d. server_send d (f d) False) dests s) h =
     sent_to s h @ (if h \<in> set dests \<and> is_connected s h then [make_frame (m_data (f h))] else [])"
  using assms
proof (induction dests arbitrary: s)
  case (Cons d dests)
  then show ?case
    by (auto simp: sent_to_server_send same_net_connected [OF same_net_server_send])
qed simp

section \<open>HostIDs\<close>

text \<open>
  \<open>pool_ok live s\<close>: the HostIDs handed out so far, from 3 up without 50, are the live ones and the
  free ones, and no HostID is both.
\<close>

definition pool_ok :: "host_id set \<Rightarrow> 'u server \<Rightarrow> bool" where
  "pool_ok live s \<longleftrightarrow>
     oset_ok (m_free_ids s) \<and> live \<inter> set (m_free_ids s) = {} \<and> 3 \<le> unat (m_next_id s) \<and>
     unat ` (live \<union> set (m_free_ids s)) = {3..<unat (m_next_id s)} - {50}"

locale host_id_pool =
  fixes alloc :: "'s \<Rightarrow> host_id \<times> 's"
    and release :: "host_id \<Rightarrow> 's \<Rightarrow> 's"
    and pool :: "host_id set \<Rightarrow> 's \<Rightarrow> bool"
  assumes alloc_fresh: "pool live s \<Longrightarrow> card live \<le> 2 ^ 31 \<Longrightarrow> alloc s = (i, s') \<Longrightarrow> i \<notin> live"
    and alloc_pool: "pool live s \<Longrightarrow> card live \<le> 2 ^ 31 \<Longrightarrow> alloc s = (i, s') \<Longrightarrow> pool (insert i live) s'"
    and release_pool: "pool live s \<Longrightarrow> i \<in> live \<Longrightarrow> pool (live - {i}) (release i s)"
    and pool_range: "pool live s \<Longrightarrow> i \<in> live \<Longrightarrow> 3 \<le> unat i \<and> i \<noteq> 50"
    and pool_finite: "pool live s \<Longrightarrow> finite live"
begin

lemma alloc_range:
  "pool live s \<Longrightarrow> card live \<le> 2 ^ 31 \<Longrightarrow> alloc s = (i, s') \<Longrightarrow> 3 \<le> unat i \<and> i \<noteq> 50"
  using alloc_pool pool_range by blast

text \<open>A HostID that is released can be handed out again, one that is still in use cannot.\<close>

lemma alloc_alloc:
  assumes "pool live s" "card live < 2 ^ 31" "alloc s = (i, s')" "alloc s' = (j, s'')"
  shows "i \<noteq> j \<and> j \<notin> live"
proof -
  have "i \<notin> live" "pool (insert i live) s'" using assms alloc_fresh alloc_pool by (metis less_imp_le)+
  moreover have "card (insert i live) \<le> 2 ^ 31"
    using assms(1,2) \<open>i \<notin> live\<close> pool_finite by fastforce
  ultimately show ?thesis using alloc_fresh [of "insert i live" s' j s''] assms(4) by blast
qed

lemma release_alloc:
  assumes "pool live s" "card live \<le> 2 ^ 31" "i \<in> live" "alloc (release i s) = (j, s')"
  shows "pool (insert j (live - {i})) s'" "j \<notin> live - {i}"
proof -
  have p: "pool (live - {i}) (release i s)" using assms release_pool by blast
  have c: "card (live - {i}) \<le> 2 ^ 31" using assms(2) by (meson card_Diff1_le le_trans)
  show "pool (insert j (live - {i})) s'" using alloc_pool [OF p c] assms(4) by blast
  show "j \<notin> live - {i}" using alloc_fresh [OF p c] assms(4) by blast
qed

end

lemma pool_ok_next_small:
  assumes "pool_ok live s" "card live \<le> 2 ^ 31" "m_free_ids s = []"
  shows "unat (m_next_id s) \<le> 2 ^ 31 + 4"
proof -
  have "unat ` live = {3..<unat (m_next_id s)} - {50}" using assms by (simp add: pool_ok_def)
  then have "card ({3..<unat (m_next_id s)} - {50}) \<le> 2 ^ 31"
    using card_image_le [of live unat] assms(2) card_image [of unat live] inj_on_def
    by (metis (mono_tags, lifting) unsigned_word_eqI)
  then show ?thesis by (auto simp: card_Diff_singleton_if split: if_splits)
qed

lemma unat_succ: "unat (w :: u32) < 2 ^ 32 - 1 \<Longrightarrow> unat (w + 1) = unat w + 1"
  by (simp add: unat_word_ariths)

lemma unat_eq_50: "unat (w :: u32) = 50 \<longleftrightarrow> w = 50"
proof -
  have "unat (50 :: u32) = 50" by simp
  then show ?thesis by (metis unsigned_word_eqI)
qed

lemma pool_ok_not_live:
  assumes "pool_ok live s" "unat (m_next_id s) \<le> unat i"
  shows "i \<notin> live"
proof
  assume "i \<in> live"
  then have "unat i \<in> {3..<unat (m_next_id s)} - {50}" using assms(1) unfolding pool_ok_def by blast
  then show False using assms(2) by simp
qed

lemma allocate_host_id_fresh:
  assumes p: "pool_ok live s" and c: "card live \<le> 2 ^ 31" and a: "allocate_host_id s = (i, s')"
  shows "i \<notin> live \<and> pool_ok (insert i live) s'"
proof (cases "m_free_ids s")
  case (Cons x ids)
  with a have "i = x" "s' = s\<lparr>m_free_ids := ids\<rparr>" by (simp_all add: allocate_host_id_def)
  with p Cons show ?thesis by (auto simp: pool_ok_def oset_ok_def)
next
  case Nil
  define n where "n = unat (m_next_id s)"
  have n: "n \<le> 2 ^ 31 + 4" "3 \<le> n" using pool_ok_next_small [OF p c Nil] p by (auto simp: n_def pool_ok_def)
  have l: "unat ` live = {3..<n} - {50}" using p Nil by (simp add: pool_ok_def n_def)
  show ?thesis
  proof (cases "m_next_id s = 50")
    case True
    with a Nil have "i = 51" "s' = s\<lparr>m_next_id := 52\<rparr>" by (simp_all add: allocate_host_id_def Let_def)
    moreover have "insert 51 (unat ` live) = {3..<52} - {50}" using True by (auto simp: l n_def)
    ultimately show ?thesis
      using p Nil True pool_ok_not_live [OF p, of 51] by (simp add: pool_ok_def)
  next
    case False
    with a Nil have i: "i = m_next_id s" "s' = s\<lparr>m_next_id := m_next_id s + 1\<rparr>"
      by (auto simp: allocate_host_id_def Let_def)
    have "n \<noteq> 50" using False unat_eq_50 by (metis n_def)
    then have "insert n (unat ` live) = {3..<n + 1} - {50}" using n by (auto simp: l)
    moreover have "unat (m_next_id s + 1) = n + 1" using n by (simp add: n_def unat_succ)
    ultimately show ?thesis
      using i p Nil n pool_ok_not_live [OF p, of i] by (simp add: pool_ok_def n_def)
  qed
qed

interpretation ids: host_id_pool allocate_host_id release_host_id pool_ok
proof unfold_locales
  fix live :: "host_id set" and s s' :: "'u server" and i
  assume p: "pool_ok live s"
  show "card live \<le> 2 ^ 31 \<Longrightarrow> allocate_host_id s = (i, s') \<Longrightarrow> i \<notin> live"
    using allocate_host_id_fresh [OF p] by blast
  show "card live \<le> 2 ^ 31 \<Longrightarrow> allocate_host_id s = (i, s') \<Longrightarrow> pool_ok (insert i live) s'"
    using allocate_host_id_fresh [OF p] by blast
  show "finite live"
  proof (rule finite_imageD)
    have "unat ` live \<subseteq> {3..<unat (m_next_id s)}" using p by (auto simp: pool_ok_def)
    then show "finite (unat ` live)" by (rule finite_subset) simp
  qed (simp add: inj_on_def unsigned_word_eqI)
  assume i: "i \<in> live"
  have "live - {i} \<union> insert i (set (m_free_ids s)) = live \<union> set (m_free_ids s)" using i by blast
  then show "pool_ok (live - {i}) (release_host_id i s)"
    using p i by (auto simp: pool_ok_def release_host_id_def oset_ok_add)
  have "unat i \<in> {3..<unat (m_next_id s)} - {50}" using p i unfolding pool_ok_def by blast
  then show "3 \<le> unat i \<and> i \<noteq> 50" using unat_eq_50 by auto
qed

end
