(* ===== verification/Proudnet_Inv.thy ===== *)
theory Proudnet_Inv
  imports Proudnet
begin

text \<open>
  The invariant of the ProudNet server and the operations it offers to the applications. A HostID
  belongs to one client or one group, group members are clients, connections that have left the
  first handshake state own a full session key, and every buffer on a socket is a frame. \<open>talk\<close> is
  the closure of the operations an application may use while it handles an event, \<open>api_step\<close> adds
  the closing of a connection; both keep the invariant.
\<close>

section \<open>The effect of the group operations\<close>

lemma notify_join_frame [simp]:
  "same_net s (notify_group_member_join g a b s)"
  "m_groups (notify_group_member_join g a b s) = m_groups s"
  "m_free_ids (notify_group_member_join g a b s) = m_free_ids s"
  "m_next_id (notify_group_member_join g a b s) = m_next_id s"
  by (simp_all add: notify_group_member_join_def Let_def same_net_trans [OF same_net_updates(2) same_net_server_send])

lemma notify_leave_frame [simp]:
  "same_net s (notify_group_member_leave g a b s)"
  "m_groups (notify_group_member_leave g a b s) = m_groups s"
  "m_free_ids (notify_group_member_leave g a b s) = m_free_ids s"
  "m_next_id (notify_group_member_leave g a b s) = m_next_id s"
  by (simp_all add: notify_group_member_leave_def)

definition join_round :: "host_id \<Rightarrow> host_id \<Rightarrow> host_id \<Rightarrow> 'u server \<Rightarrow> 'u server" where
  "join_round g m existing s =
     (let s' = notify_group_member_join g m existing s in
      if existing \<noteq> m then notify_group_member_join g existing m s' else s')"

lemma join_round_frame [simp]:
  "same_net s (join_round g m x s)"
  "m_groups (join_round g m x s) = m_groups s"
  "m_free_ids (join_round g m x s) = m_free_ids s"
  "m_next_id (join_round g m x s) = m_next_id s"
  by (simp_all add: join_round_def Let_def same_net_trans [OF notify_join_frame(1) notify_join_frame(1)])

lemma join_p2p_group_eq:
  "join_p2p_group g m s =
     (case map_of (m_groups s) g of
        None \<Rightarrow> s
      | Some members \<Rightarrow>
          if find_peer s m = None \<or> m \<in> set members then s
          else fold (join_round g m) (oset_add m members)
                 (s\<lparr>m_groups := omap_put g (oset_add m members) (m_groups s)\<rparr>))"
  by (simp add: join_p2p_group_def join_round_def [abs_def] Let_def split: option.split)

lemma fold_frame_fields:
  assumes "\<And>x s. same_net s (f x s)" "\<And>x s. m_groups (f x s) = m_groups s"
    "\<And>x s. m_free_ids (f x s) = m_free_ids s" "\<And>x s. m_next_id (f x s) = m_next_id s"
  shows "same_net s (fold f xs s)" "m_groups (fold f xs s) = m_groups s"
    "m_free_ids (fold f xs s) = m_free_ids s" "m_next_id (fold f xs s) = m_next_id s"
  by (simp_all add: assms same_net_fold fold_keeps [of m_groups] fold_keeps [of m_free_ids] fold_keeps [of m_next_id])

lemma join_p2p_group_frame [simp]:
  "same_net s (join_p2p_group g m s)"
  "m_free_ids (join_p2p_group g m s) = m_free_ids s"
  "m_next_id (join_p2p_group g m s) = m_next_id s"
  by (auto simp: join_p2p_group_eq fold_frame_fields split: option.split
      intro: same_net_trans [OF same_net_updates(1) fold_frame_fields(1)])

lemma m_groups_join:
  "m_groups (join_p2p_group g m s) =
     (case map_of (m_groups s) g of
        None \<Rightarrow> m_groups s
      | Some members \<Rightarrow> if find_peer s m = None \<or> m \<in> set members then m_groups s
                        else omap_put g (oset_add m members) (m_groups s))"
  by (simp add: join_p2p_group_eq fold_frame_fields split: option.split)

lemma leave_p2p_group_frame [simp]:
  "same_net s (leave_p2p_group g m s)"
  "m_free_ids (leave_p2p_group g m s) = m_free_ids s"
  "m_next_id (leave_p2p_group g m s) = m_next_id s"
  by (auto simp: leave_p2p_group_def Let_def fold_frame_fields split: option.split
      intro: same_net_trans [OF same_net_updates(1) same_net_trans [OF fold_frame_fields(1) notify_leave_frame(1)]])

lemma m_groups_leave:
  "m_groups (leave_p2p_group g m s) =
     (case map_of (m_groups s) g of
        None \<Rightarrow> m_groups s
      | Some members \<Rightarrow> if m \<notin> set members then m_groups s else omap_put g (oset_del m members) (m_groups s))"
  by (simp add: leave_p2p_group_def Let_def fold_frame_fields split: option.split)

lemma dom_groups_join_leave [simp]:
  "dom (map_of (m_groups (join_p2p_group g m s))) = dom (map_of (m_groups s))"
  "dom (map_of (m_groups (leave_p2p_group g m s))) = dom (map_of (m_groups s))"
  by (auto simp: m_groups_join m_groups_leave om.dom_assign split: option.split)

section \<open>The invariant\<close>

definition peer_ok :: "'u peer \<Rightarrow> bool" where
  "peer_ok p \<longleftrightarrow>
     queue_ok p \<and> (\<exists>payloads. sent p = map make_frame payloads) \<and>
     (m_session_key p = [] \<or> length (m_session_key p) = rc4_key_bytes) \<and>
     (m_state p = awaiting_connection_request \<or> m_state p = connected \<longrightarrow> m_session_key p \<noteq> [])"

definition groups_ok :: "'u server \<Rightarrow> bool" where
  "groups_ok s \<longleftrightarrow> omap_ok (m_groups s) \<and> length (m_groups s) \<le> 2 ^ 30 \<and>
     (\<forall>g members. map_of (m_groups s) g = Some members \<longrightarrow>
        oset_ok members \<and> (\<forall>m \<in> set members. find_peer s m \<noteq> None))"

definition peers_ok :: "'u server \<Rightarrow> bool" where
  "peers_ok s \<longleftrightarrow> omap_ok (m_peers s) \<and> length (m_peers s) \<le> 2 ^ 30 \<and>
     (\<forall>h p. find_peer s h = Some p \<longrightarrow> m_id p = h \<and> peer_ok p)"

definition client_ids :: "'u server \<Rightarrow> host_id set" where
  "client_ids s = dom (find_peer s)"

definition group_ids :: "'u server \<Rightarrow> host_id set" where
  "group_ids s = dom (map_of (m_groups s))"

definition net_inv :: "'u server \<Rightarrow> bool" where
  "net_inv s \<longleftrightarrow>
     peers_ok s \<and> groups_ok s \<and> client_ids s \<inter> group_ids s = {} \<and> pool_ok (client_ids s \<union> group_ids s) s"

definition no_closed :: "'u server \<Rightarrow> bool" where
  "no_closed s \<longleftrightarrow> (\<forall>h p. find_peer s h = Some p \<longrightarrow> m_state p \<noteq> closed)"

lemma net_inv_live_small: "net_inv s \<Longrightarrow> card (client_ids s \<union> group_ids s) \<le> 2 ^ 31"
proof -
  assume i: "net_inv s"
  have "card (client_ids s) \<le> 2 ^ 30" "card (group_ids s) \<le> 2 ^ 30"
    using i om.card_entries [of "m_peers s"] om.card_entries [of "m_groups s"]
    by (simp_all add: net_inv_def peers_ok_def groups_ok_def client_ids_def group_ids_def find_peer_def [abs_def])
  then show ?thesis using card_Un_le [of "client_ids s" "group_ids s"] by simp
qed

section \<open>Preservation\<close>

lemma client_ids_updates [simp]:
  "client_ids (s\<lparr>m_groups := G\<rparr>) = client_ids s" "client_ids (s\<lparr>m_next_event_id := e\<rparr>) = client_ids s"
  "client_ids (s\<lparr>m_free_ids := i\<rparr>) = client_ids s" "client_ids (s\<lparr>m_next_id := n\<rparr>) = client_ids s"
  "client_ids (s\<lparr>m_rng := r\<rparr>) = client_ids s" "client_ids (s\<lparr>m_clock := c\<rparr>) = client_ids s"
  "client_ids (s\<lparr>m_peers := m\<rparr>) = dom (map_of m)"
  by (simp_all add: client_ids_def dom_def)

lemma group_ids_updates [simp]:
  "group_ids (s\<lparr>m_groups := G\<rparr>) = dom (map_of G)" "group_ids (s\<lparr>m_next_event_id := e\<rparr>) = group_ids s"
  "group_ids (s\<lparr>m_free_ids := i\<rparr>) = group_ids s" "group_ids (s\<lparr>m_next_id := n\<rparr>) = group_ids s"
  "group_ids (s\<lparr>m_rng := r\<rparr>) = group_ids s" "group_ids (s\<lparr>m_clock := c\<rparr>) = group_ids s"
  "group_ids (s\<lparr>m_peers := m\<rparr>) = group_ids s" "group_ids (on_peer h f s) = group_ids s"
  by (simp_all add: group_ids_def)

lemma client_ids_on_peer [simp]: "client_ids (on_peer h f s) = client_ids s"
  by (auto simp: client_ids_def find_on_peer dom_def)

lemma length_m_peers_on_peer [simp]:
  "omap_ok (m_peers s) \<Longrightarrow> length (m_peers (on_peer h f s)) = length (m_peers s)"
  using om.card_entries [of "m_peers s"] om.card_entries [OF omap_ok_on_peer, of s h f] client_ids_on_peer [of h f s]
  by (simp add: client_ids_def find_peer_def [abs_def])

lemma pool_ok_cong:
  "m_free_ids s' = m_free_ids s \<Longrightarrow> m_next_id s' = m_next_id s \<Longrightarrow> pool_ok live s' \<longleftrightarrow> pool_ok live s"
  by (simp add: pool_ok_def)

lemma net_inv_on_peer:
  assumes "net_inv s" "\<And>p. find_peer s h = Some p \<Longrightarrow> peer_ok p \<Longrightarrow> m_id (f p) = m_id p \<and> peer_ok (f p)"
  shows "net_inv (on_peer h f s)"
proof -
  have "peers_ok (on_peer h f s)"
    using assms by (auto simp: net_inv_def peers_ok_def omap_ok_on_peer find_on_peer)
  moreover have "groups_ok (on_peer h f s)"
    using assms(1) by (auto simp: net_inv_def groups_ok_def find_on_peer)
  ultimately show ?thesis using assms(1) by (simp add: net_inv_def pool_ok_def)
qed

lemma peer_ok_send: "peer_ok p \<Longrightarrow> peer_ok (peer_send payload encrypt p)"
proof -
  assume p: "peer_ok p"
  then obtain ps where "sent p = map make_frame ps" by (auto simp: peer_ok_def)
  then have "sent (peer_send payload encrypt p) =
      map make_frame (if m_state p = closed then ps else ps @ [wire_payload payload encrypt p])"
    by (simp add: sent_peer_send)
  with p queue_ok_peer_send show ?thesis unfolding peer_ok_def by (metis peer_send_state(1,3))
qed

lemma peer_ok_user_data: "peer_ok p \<Longrightarrow> peer_ok (p\<lparr>user_data := u\<rparr>)"
  by (simp add: peer_ok_def queue_ok_def sent_def)

lemma net_inv_peer_send [inv_intros]: "net_inv s \<Longrightarrow> net_inv (on_peer h (peer_send payload encrypt) s)"
  by (rule net_inv_on_peer) (simp_all add: peer_ok_send)

lemma net_inv_server_send [inv_intros]: "net_inv s \<Longrightarrow> net_inv (server_send dest message encrypt s)"
  by (auto simp: server_send_def inv_intros split: option.split)

lemma net_inv_event_id [inv_intros]: "net_inv s \<Longrightarrow> net_inv (s\<lparr>m_next_event_id := e\<rparr>)"
  by (simp add: net_inv_def peers_ok_def groups_ok_def pool_ok_def)

lemma net_inv_notify [inv_intros]:
  "net_inv s \<Longrightarrow> net_inv (notify_group_member_join g a b s)"
  "net_inv s \<Longrightarrow> net_inv (notify_group_member_leave g a b s)"
  by (simp_all add: notify_group_member_join_def notify_group_member_leave_def Let_def inv_intros)

lemma net_inv_groups:
  assumes "net_inv s" "omap_ok G" "dom (map_of G) = group_ids s"
    and "\<And>g members. map_of G g = Some members \<Longrightarrow> oset_ok members \<and> (\<forall>m \<in> set members. find_peer s m \<noteq> None)"
  shows "net_inv (s\<lparr>m_groups := G\<rparr>)"
proof -
  have "length G = length (m_groups s)"
    using assms(1-3) om.card_entries [of G] om.card_entries [of "m_groups s"]
    by (simp add: net_inv_def groups_ok_def group_ids_def)
  then have "groups_ok (s\<lparr>m_groups := G\<rparr>)"
    using assms by (simp add: net_inv_def groups_ok_def)
  then show ?thesis
    using assms by (simp add: net_inv_def peers_ok_def pool_ok_def)
qed

lemma net_inv_put_group:
  assumes "net_inv s" "map_of (m_groups s) g = Some members" "oset_ok members'"
    "\<forall>m \<in> set members'. find_peer s m \<noteq> None"
  shows "net_inv (s\<lparr>m_groups := omap_put g members' (m_groups s)\<rparr>)"
proof (rule net_inv_groups)
  show "dom (map_of (omap_put g members' (m_groups s))) = group_ids s"
    using assms(2) by (auto simp: om.dom_assign group_ids_def)
qed (use assms in \<open>auto simp: net_inv_def groups_ok_def omap_ok_put map_of_omap_put split: if_splits\<close>)

lemma net_inv_group_members:
  "net_inv s \<Longrightarrow> map_of (m_groups s) g = Some members \<Longrightarrow> oset_ok members \<and> (\<forall>m \<in> set members. find_peer s m \<noteq> None)"
  by (simp add: net_inv_def groups_ok_def)

lemma net_inv_join_round [inv_intros]: "net_inv s \<Longrightarrow> net_inv (join_round g m x s)"
  by (simp add: join_round_def Let_def inv_intros)

lemma net_inv_join [inv_intros]:
  assumes i: "net_inv s"
  shows "net_inv (join_p2p_group g m s)"
proof (cases "map_of (m_groups s) g")
  case (Some members)
  have "net_inv (fold (join_round g m) (oset_add m members)
      (s\<lparr>m_groups := omap_put g (oset_add m members) (m_groups s)\<rparr>))" if "find_peer s m \<noteq> None"
    using that net_inv_group_members [OF i Some]
    by (intro fold_invariant_set [of net_inv] net_inv_put_group [OF i Some] inv_intros) (auto simp: oset_ok_add)
  with i Some show ?thesis by (simp add: join_p2p_group_eq)
qed (simp add: i join_p2p_group_eq)

lemma net_inv_leave [inv_intros]:
  assumes i: "net_inv s"
  shows "net_inv (leave_p2p_group g m s)"
proof (cases "map_of (m_groups s) g")
  case (Some members)
  have "net_inv (fold (\<lambda>x. notify_group_member_leave g x m) (oset_del m members)
      (s\<lparr>m_groups := omap_put g (oset_del m members) (m_groups s)\<rparr>))"
    using net_inv_group_members [OF i Some]
    by (intro fold_invariant_set [of net_inv] net_inv_put_group [OF i Some] inv_intros) (auto simp: oset_ok_del)
  with i Some show ?thesis by (simp add: leave_p2p_group_def Let_def inv_intros)
qed (simp add: i leave_p2p_group_def)

text \<open>An allocation keeps everything but the pool\<close>

lemma allocate_frame:
  assumes "allocate_host_id s = (i, s')"
  shows "m_peers s' = m_peers s" "m_groups s' = m_groups s" "m_config s' = m_config s"
    "m_instance_guid s' = m_instance_guid s" "m_rng s' = m_rng s" "m_start_time s' = m_start_time s"
    "m_next_event_id s' = m_next_event_id s" "m_clock s' = m_clock s" "m_seconds s' = m_seconds s"
  using assms by (auto simp: allocate_host_id_def Let_def split: list.splits if_splits)

lemma allocate_find:
  "allocate_host_id s = (i, s') \<Longrightarrow> find_peer s' = find_peer s \<and> client_ids s' = client_ids s \<and> group_ids s' = group_ids s"
  by (auto simp: find_peer_def client_ids_def group_ids_def allocate_frame)

lemma allocate_net_inv:
  assumes i: "net_inv s" and a: "allocate_host_id s = (x, s')"
  shows "x \<notin> client_ids s" "x \<notin> group_ids s" "pool_ok (insert x (client_ids s \<union> group_ids s)) s'"
    "peers_ok s'" "groups_ok s'"
  using i ids.alloc_fresh [OF _ net_inv_live_small [OF i] a] ids.alloc_pool [OF _ net_inv_live_small [OF i] a]
  by (auto simp: net_inv_def peers_ok_def groups_ok_def allocate_frame [OF a] allocate_find [OF a])

lemma length_omap_put_fresh:
  "map_of m k = None \<Longrightarrow> length (omap_put k v m) = Suc (length m)"
  by (induction m) (auto split: if_splits)

lemma net_inv_create:
  assumes i: "net_inv s" and small: "length (m_groups s) < 2 ^ 30"
    and c: "create_p2p_group members s = (g, s')"
  shows "net_inv s' \<and> g \<notin> client_ids s \<and> g \<notin> group_ids s"
proof -
  obtain s1 where a: "allocate_host_id s = (g, s1)"
    using c by (auto simp: create_p2p_group_def split: prod.splits)
  note n = allocate_net_inv [OF i a]
  have fresh: "map_of (m_groups s1) g = None"
    using n(2) by (auto simp: group_ids_def allocate_frame [OF a])
  let ?s2 = "s1\<lparr>m_groups := omap_emplace g [] (m_groups s1)\<rparr>"
  have "net_inv ?s2"
    using n i small fresh
    by (auto simp: net_inv_def omap_emplace_def peers_ok_def groups_ok_def om.dom_assign omap_ok_put map_of_omap_put
        length_omap_put_fresh allocate_find [OF a] allocate_frame [OF a] pool_ok_def group_ids_def
        split: if_splits)
  then have "net_inv (fold (join_p2p_group g) members ?s2)"
    by (rule fold_invariant_set) (rule net_inv_join)
  moreover have "s' = fold (join_p2p_group g) members ?s2"
    using c a by (simp add: create_p2p_group_def)
  ultimately show ?thesis using n by simp
qed

text \<open>After every member has left, the group is empty.\<close>

lemma oset_del_notin: "x \<notin> set s \<Longrightarrow> oset_del x s = s"
  by (induction s) (auto simp: oset_del_def)

lemma fold_leave_groups:
  assumes "map_of (m_groups s) g = Some members"
  shows "map_of (m_groups (fold (leave_p2p_group g) ms s)) g = Some (filter (\<lambda>m. m \<notin> set ms) members) \<and>
    (\<forall>h. h \<noteq> g \<longrightarrow> map_of (m_groups (fold (leave_p2p_group g) ms s)) h = map_of (m_groups s) h)"
  using assms
proof (induction ms arbitrary: s members)
  case (Cons m ms)
  have "map_of (m_groups (leave_p2p_group g m s)) g = Some (oset_del m members)"
    using Cons.prems by (simp add: m_groups_leave map_of_omap_put oset_del_notin)
  moreover have "map_of (m_groups (leave_p2p_group g m s)) h = map_of (m_groups s) h" if "h \<noteq> g" for h
    using that by (simp add: m_groups_leave map_of_omap_put split: option.split)
  ultimately show ?case using Cons.IH [of "leave_p2p_group g m s"] by (simp add: oset_del_def)
qed simp

lemma net_inv_destroy [inv_intros]:
  assumes i: "net_inv s"
  shows "net_inv (destroy_p2p_group g s)"
proof (cases "map_of (m_groups s) g")
  case (Some members)
  define t where "t = fold (leave_p2p_group g) members s"
  have t: "net_inv t" unfolding t_def using i by (rule fold_invariant_set) (rule net_inv_leave)
  have tg: "map_of (m_groups t) g = Some []"
    using fold_leave_groups [OF Some, of members] by (simp add: t_def)
  then have g: "g \<in> group_ids t" "g \<notin> client_ids t" using t by (auto simp: group_ids_def net_inv_def)
  then have live: "client_ids t \<union> (group_ids t - {g}) = client_ids t \<union> group_ids t - {g}" by blast
  let ?t = "release_host_id g (t\<lparr>m_groups := omap_del g (m_groups t)\<rparr>)"
  have parts: "client_ids ?t = client_ids t" "group_ids ?t = group_ids t - {g}"
    "find_peer ?t h = find_peer t h" "m_peers ?t = m_peers t" "m_groups ?t = omap_del g (m_groups t)" for h
    by (simp_all add: release_host_id_def om.dom_erase group_ids_def)
  have "pool_ok (client_ids ?t \<union> group_ids ?t) ?t"
    using t g live ids.release_pool [of "client_ids t \<union> group_ids t" t g] unfolding parts
    by (simp add: net_inv_def pool_ok_def release_host_id_def)
  moreover have "groups_ok ?t"
    using t unfolding groups_ok_def net_inv_def parts
    by (auto simp: omap_ok_del map_of_omap_del intro: le_trans [OF length_omap_del])
  moreover have "peers_ok ?t" using t by (simp add: net_inv_def peers_ok_def parts)
  ultimately have "net_inv ?t" using t parts by (auto simp: net_inv_def)
  with Some show ?thesis by (simp add: destroy_p2p_group_def t_def Let_def)
qed (simp add: i destroy_p2p_group_def)

section \<open>Closing a connection\<close>

definition leave_if_member :: "host_id \<Rightarrow> host_id \<Rightarrow> 'u server \<Rightarrow> 'u server" where
  "leave_if_member h g s =
     (case map_of (m_groups s) g of
        None \<Rightarrow> s
      | Some members \<Rightarrow> if h \<in> set members then leave_p2p_group g h s else s)"

lemma on_peer_closed_eq:
  "on_peer_closed h s =
     (let t = fold (leave_if_member h) (map fst (m_groups s)) s
      in release_host_id h (t\<lparr>m_peers := omap_del h (m_peers t)\<rparr>))"
  by (simp add: on_peer_closed_def leave_if_member_def [abs_def])

lemma leave_if_member_frame [simp]:
  "same_net s (leave_if_member h g s)" "m_free_ids (leave_if_member h g s) = m_free_ids s"
  "m_next_id (leave_if_member h g s) = m_next_id s"
  by (simp_all add: leave_if_member_def split: option.split)

lemma map_of_leave_if_member:
  "map_of (m_groups (leave_if_member h g s)) k =
     (if k = g then map_option (oset_del h) (map_of (m_groups s) k) else map_of (m_groups s) k)"
  by (auto simp: leave_if_member_def m_groups_leave map_of_omap_put oset_del_notin split: option.split)

lemma oset_del_idem: "oset_del x (oset_del x s) = oset_del x s"
  by (rule oset_del_notin) simp

lemma map_of_leave_all:
  "map_of (m_groups (fold (leave_if_member h) gs s)) k =
     (if k \<in> set gs then map_option (oset_del h) (map_of (m_groups s) k) else map_of (m_groups s) k)"
proof (induction gs arbitrary: s)
  case (Cons g gs)
  then show ?case
    by (auto simp: map_of_leave_if_member option.map_comp o_def oset_del_idem)
qed simp

lemma net_inv_leave_all: "net_inv s \<Longrightarrow> net_inv (fold (leave_if_member h) gs s)"
  by (rule fold_invariant_set) (auto simp: leave_if_member_def inv_intros split: option.split)

lemma map_of_all_groups:
  "map_of (m_groups (fold (leave_if_member h) (map fst (m_groups s)) s)) k = map_option (oset_del h) (map_of (m_groups s) k)"
proof (cases "k \<in> set (map fst (m_groups s))")
  case True
  then show ?thesis by (simp add: map_of_leave_all)
next
  case False
  then have "map_of (m_groups s) k = None" by (simp add: map_of_eq_None_iff)
  then show ?thesis by (simp add: map_of_leave_all)
qed

text \<open>What is left of a client once it is closed: nothing but its HostID in the free set.\<close>

lemma on_peer_closed_effect:
  "find_peer (on_peer_closed h s) k =
     (if k = h then None else find_peer (fold (leave_if_member h) (map fst (m_groups s)) s) k)"
  "map_of (m_groups (on_peer_closed h s)) g = map_option (oset_del h) (map_of (m_groups s) g)"
  "m_free_ids (on_peer_closed h s) = oset_add h (m_free_ids s)"
  "m_next_id (on_peer_closed h s) = m_next_id s"
  using map_of_all_groups [of h s g]
  by (simp_all add: on_peer_closed_eq Let_def release_host_id_def map_of_omap_del fold_keeps [of m_free_ids]
      fold_keeps [of m_next_id]) (simp add: find_peer_def)

lemma same_net_leave_all: "same_net s (fold (leave_if_member h) gs s)"
  by (rule same_net_fold) simp

lemma find_peer_closed:
  assumes "k \<noteq> h"
  shows "map_option quiet (find_peer (on_peer_closed h s) k) = map_option quiet (find_peer s k)"
  using assms same_net_leave_all [of s h "map fst (m_groups s)"]
  by (simp add: on_peer_closed_effect same_net_def)

lemma net_inv_closed:
  assumes i: "net_inv s" and p: "find_peer s h \<noteq> None"
  shows "net_inv (on_peer_closed h s)"
proof -
  define t where "t = fold (leave_if_member h) (map fst (m_groups s)) s"
  have t: "net_inv t" unfolding t_def by (rule net_inv_leave_all [OF i])
  have "find_peer t h \<noteq> None"
    using p same_net_find(1) [OF same_net_leave_all [of s h "map fst (m_groups s)"]] by (simp add: t_def)
  then have "h \<in> client_ids t" by (simp add: client_ids_def domIff)
  with t have h: "h \<in> client_ids t" "h \<notin> group_ids t" by (auto simp: net_inv_def)
  have out: "h \<notin> set members" if "map_of (m_groups t) g = Some members" for g members
    using that map_of_all_groups [of h s g] by (auto simp: t_def)
  let ?t = "on_peer_closed h s"
  have eq: "?t = release_host_id h (t\<lparr>m_peers := omap_del h (m_peers t)\<rparr>)"
    by (simp add: on_peer_closed_eq t_def Let_def)
  have parts: "client_ids ?t = client_ids t - {h}" "group_ids ?t = group_ids t"
    "find_peer ?t k = (if k = h then None else find_peer t k)" "m_peers ?t = omap_del h (m_peers t)"
    "m_groups ?t = m_groups t" for k
    by (simp_all add: eq release_host_id_def om.dom_erase client_ids_def find_peer_def [abs_def] map_of_omap_del
        fun_eq_iff dom_def) auto
  have live: "client_ids t - {h} \<union> group_ids t = client_ids t \<union> group_ids t - {h}" using h by blast
  have "pool_ok (client_ids ?t \<union> group_ids ?t) ?t"
    using t h live ids.release_pool [of "client_ids t \<union> group_ids t" t h] unfolding parts
    by (simp add: net_inv_def pool_ok_def release_host_id_def eq)
  moreover have "groups_ok ?t"
    using t out unfolding groups_ok_def net_inv_def parts by auto
  moreover have "peers_ok ?t" using t unfolding net_inv_def peers_ok_def parts
    by (auto simp: omap_ok_del intro: le_trans [OF length_omap_del])
  ultimately show ?thesis using t parts by (auto simp: net_inv_def)
qed

section \<open>What an application may do\<close>

definition mark_closed :: "host_id \<Rightarrow> 'u server \<Rightarrow> 'u server" where
  "mark_closed h = on_peer h (\<lambda>p. p\<lparr>m_state := closed\<rparr>)"

text \<open>
  The operations of the public interface that leave every connection open. The bound on the number
  of groups keeps the 32-bit HostIDs from wrapping.
\<close>

inductive talk :: "'u server \<Rightarrow> 'u server \<Rightarrow> bool" where
  talk_send: "talk s (on_peer h (peer_send payload encrypt) s)"
| talk_user_data: "talk s (on_peer h (\<lambda>p. p\<lparr>user_data := u\<rparr>) s)"
| talk_create: "length (m_groups s) < 2 ^ 30 \<Longrightarrow> create_p2p_group members s = (g, s') \<Longrightarrow> talk s s'"
| talk_join: "talk s (join_p2p_group g m s)"
| talk_leave: "talk s (leave_p2p_group g m s)"
| talk_destroy: "talk s (destroy_p2p_group g s)"

text \<open>Any sequence of them, and between them connections that are closed completely\<close>

inductive api_steps :: "'u server \<Rightarrow> 'u server \<Rightarrow> bool" where
  api_refl: "api_steps s s"
| api_talk: "api_steps s s' \<Longrightarrow> talk s' s'' \<Longrightarrow> api_steps s s''"
| api_close: "api_steps s s' \<Longrightarrow> find_peer s' h = Some p \<Longrightarrow> m_state p \<noteq> closed \<Longrightarrow>
    talk\<^sup>*\<^sup>* (mark_closed h s') s'' \<Longrightarrow> api_steps s (on_peer_closed h s'')"

lemma quiet_user_data [simp]: "quiet (p\<lparr>user_data := u\<rparr>) = quiet p"
  by (simp add: quiet_def)

lemma same_net_talk: "talk s s' \<Longrightarrow> same_net s s'"
proof (induction rule: talk.induct)
  case (talk_create s members g s')
  obtain s1 where a: "allocate_host_id s = (g, s1)"
    using talk_create by (auto simp: create_p2p_group_def split: prod.splits)
  have "same_net s s1" using a by (auto simp: same_net_def allocate_find allocate_frame find_peer_def)
  moreover have "same_net t (fold (join_p2p_group g) members t)" for t :: "'a server"
    by (rule same_net_fold) simp
  then have "same_net s1 s'"
    using talk_create a by (auto simp: create_p2p_group_def intro: same_net_trans [OF same_net_updates(1)])
  ultimately show ?case by (rule same_net_trans)
next
  case (talk_destroy s g)
  have "same_net s (fold (leave_p2p_group g) ms s)" for ms by (rule same_net_fold) simp
  then show ?case
    by (simp add: destroy_p2p_group_def release_host_id_def Let_def same_net_def split: option.split)
qed (simp_all add: same_net_on_peer)

lemma same_net_talks: "talk\<^sup>*\<^sup>* s s' \<Longrightarrow> same_net s s'"
  by (induction rule: rtranclp_induct) (auto intro: same_net_trans same_net_talk)

lemma net_inv_talk: "talk s s' \<Longrightarrow> net_inv s \<Longrightarrow> net_inv s'"
proof (induction rule: talk.induct)
  case (talk_user_data s h u)
  then show ?case by (intro net_inv_on_peer) (simp_all add: peer_ok_user_data)
qed (auto simp: inv_intros dest: net_inv_create)

lemma net_inv_talks: "talk\<^sup>*\<^sup>* s s' \<Longrightarrow> net_inv s \<Longrightarrow> net_inv s'"
  by (induction rule: rtranclp_induct) (auto intro: net_inv_talk)

lemma find_mark_closed:
  "find_peer (mark_closed h s) k =
     (if k = h then map_option (\<lambda>p. p\<lparr>m_state := closed\<rparr>) (find_peer s k) else find_peer s k)"
  by (simp add: mark_closed_def find_on_peer)

lemma net_inv_mark_closed: "net_inv s \<Longrightarrow> net_inv (mark_closed h s)"
  unfolding mark_closed_def by (rule net_inv_on_peer) (simp_all add: peer_ok_def queue_ok_def sent_def)

text \<open>A complete closing, with whatever the application says meanwhile, forgets one client and no other.\<close>

lemma find_close:
  assumes "talk\<^sup>*\<^sup>* (mark_closed h s) s''"
  shows "map_option quiet (find_peer (on_peer_closed h s'') k) = (if k = h then None else map_option quiet (find_peer s k))"
  using same_net_talks [OF assms] find_peer_closed [of k h s'']
  by (auto simp: on_peer_closed_effect same_net_def find_mark_closed)

lemma net_inv_close:
  assumes "net_inv s" "find_peer s h = Some p" "talk\<^sup>*\<^sup>* (mark_closed h s) s''"
  shows "net_inv (on_peer_closed h s'')"
proof (rule net_inv_closed)
  show "net_inv s''" using assms net_inv_talks net_inv_mark_closed by blast
  show "find_peer s'' h \<noteq> None"
    using assms(2) same_net_find(1) [OF same_net_talks [OF assms(3)], of h] by (simp add: find_mark_closed)
qed

text \<open>
  Whatever sequence of operations an application performs, the clients that remain are the ones
  that were there, unchanged in everything the protocol depends on.
\<close>

lemma api_steps_find:
  assumes "api_steps s s'" "find_peer s' k = Some p'"
  shows "\<exists>p. find_peer s k = Some p \<and> quiet p' = quiet p"
  using assms
proof (induction arbitrary: p' rule: api_steps.induct)
  case (api_talk s s' s'')
  obtain p where p: "find_peer s' k = Some p" "quiet p' = quiet p"
    using same_net_find(2) [OF same_net_talk [OF api_talk.hyps(2)] api_talk.prems] by blast
  with api_talk.IH [OF p(1)] show ?case by auto
next
  case (api_close s s' h p s'')
  have "map_option quiet (find_peer s' k) = Some (quiet p')"
    using find_close [OF api_close.hyps(4), of k] api_close.prems by (simp split: if_splits)
  then obtain q where q: "find_peer s' k = Some q" "quiet q = quiet p'" by auto
  with api_close.IH [OF q(1)] show ?case by auto
qed auto

lemma net_inv_api: "api_steps s s' \<Longrightarrow> net_inv s \<Longrightarrow> net_inv s'"
  by (induction rule: api_steps.induct) (auto intro: net_inv_talk net_inv_close)

lemma api_no_closed: "api_steps s s' \<Longrightarrow> no_closed s \<Longrightarrow> no_closed s'"
  unfolding no_closed_def using api_steps_find quiet_eqD(2) by metis

lemma api_steps_trans: "api_steps s' s'' \<Longrightarrow> api_steps s s' \<Longrightarrow> api_steps s s''"
  by (induction rule: api_steps.induct) (auto intro: api_steps.intros)

lemma api_steps_frame:
  "api_steps s s' \<Longrightarrow> m_config s' = m_config s \<and> m_instance_guid s' = m_instance_guid s \<and>
     m_start_time s' = m_start_time s \<and> m_seconds s' = m_seconds s"
proof (induction rule: api_steps.induct)
  case (api_close s s' h p s'')
  have "same_net s'' (fold (leave_if_member h) (map fst (m_groups s'')) s'')" by (rule same_net_leave_all)
  with api_close same_net_talks [OF api_close.hyps(4)] show ?case
    by (simp add: on_peer_closed_eq Let_def release_host_id_def same_net_def mark_closed_def)
qed (auto dest: same_net_talk simp: same_net_def)

end
