(* ===== verification/Proudnet_Events.thy ===== *)
theory Proudnet_Events
  imports Proudnet_Inv
begin

text \<open>
  The completion handlers of the ProudNet server (\<^verbatim>\<open>src/src/proudnet/server.cpp\<close>): processing of a
  received payload, the core messages and relays, the read and write loops, accepting, timeouts and
  stopping. The application is an \<open>event_sink\<close>, a record of its callbacks; a locale states what the
  ProudNet layer relies on from it. The server is an inductive step relation over these handlers,
  and its invariant holds in every reachable state.
\<close>

section \<open>event_sink\<close>

text \<open>The state of a server process: the ProudNet layer and the application above it\<close>

record ('u, 'a) world =
  m_net :: "'u server"
  m_app :: 'a

definition with_net :: "('u server \<Rightarrow> 'u server) \<Rightarrow> ('u, 'a) world \<Rightarrow> ('u, 'a) world" where
  "with_net f w = w\<lparr>m_net := f (m_net w)\<rparr>"

text \<open>
  The callbacks. The two notifications do not throw; \<open>on_rmi\<close> may, and leaves the state it had
  reached.
\<close>

record ('u, 'a) event_sink =
  on_client_join :: "host_id \<Rightarrow> ('u, 'a) world \<Rightarrow> ('u, 'a) world"
  on_client_leave :: "host_id \<Rightarrow> ('u, 'a) world \<Rightarrow> ('u, 'a) world"
  on_rmi :: "host_id \<Rightarrow> u16 \<Rightarrow> message_reader \<Rightarrow> ('u, 'a) world \<Rightarrow> (exn + bool) \<times> ('u, 'a) world"

definition peer_close :: "('u, 'a) event_sink \<Rightarrow> host_id \<Rightarrow> ('u, 'a) world \<Rightarrow> ('u, 'a) world" where
  "peer_close sink h w =
     (case find_peer (m_net w) h of
        None \<Rightarrow> w
      | Some p \<Rightarrow>
          if m_state p = closed then w
          else
            (let was_connected = (m_state p = connected);
                 w1 = with_net (mark_closed h) w;
                 w2 = (if was_connected then on_client_leave sink h w1 else w1)
             in with_net (on_peer_closed h) w2))"

section \<open>Core messages and relays\<close>

definition server_time_sec :: "'u server \<Rightarrow> f64 \<times> 'u server" where
  "server_time_sec s = (let (now, c) = clock_now (m_clock s) in (m_seconds s (now - m_start_time s), s\<lparr>m_clock := c\<rparr>))"

definition read_dest :: "(host_id \<times> u32) read" where
  "read_dest = rbind read_u32 (\<lambda>dest. rbind read_u32 (\<lambda>frame. rreturn (dest, frame)))"

definition relay_reliable :: "host_id \<Rightarrow> message_reader \<Rightarrow> 'u server \<Rightarrow> (exn + unit) \<times> 'u server" where
  "relay_reliable from_id r s =
     (case rbind read_scalar (\<lambda>count. rbind (read_many (nat (sint count)) read_dest) (\<lambda>dests.
             rbind (rbind read_length take_bytes) (\<lambda>data. rreturn (dests, data)))) r of
        Inl e \<Rightarrow> (Inl e, s)
      | Inr ((dests, data), _) \<Rightarrow>
          (Inr (), fold (\<lambda>(dest, frame). server_send dest
             (writes [write_u8 reliable_relay2, write_u32 from_id, write_u32 frame, write_scalar (ssize data),
                      write_bytes data] message_writer_new) False) dests s))"

text \<open>\<open>for_each_destination\<close>: the HostIDs its callback is called with, in order\<close>

definition destinations :: "(host_id, host_id oset) omap \<Rightarrow> host_id \<Rightarrow> host_id \<Rightarrow> host_id list" where
  "destinations groups sender dest =
     (case map_of groups dest of Some members \<Rightarrow> filter (\<lambda>m. m \<noteq> sender) members | None \<Rightarrow> [dest])"

definition relay_unreliable :: "host_id \<Rightarrow> message_reader \<Rightarrow> 'u server \<Rightarrow> (exn + unit) \<times> 'u server" where
  "relay_unreliable from_id r s =
     (case rbind read_u8 (\<lambda>_. rbind read_scalar (\<lambda>_. rbind read_scalar (\<lambda>count.
             rbind (read_many (nat (sint count)) read_u32) (\<lambda>dests.
             rbind (rbind read_length take_bytes) (\<lambda>payload. rreturn (dests, payload)))))) r of
        Inl e \<Rightarrow> (Inl e, s)
      | Inr ((dests, payload), _) \<Rightarrow>
          (let w = writes [write_u8 unreliable_relay2, write_u32 from_id, write_scalar (ssize payload),
                           write_bytes payload] message_writer_new;
               (seen, s') = fold (\<lambda>dest. fold (\<lambda>i (seen, s).
                   if i \<in> set seen then (seen, s) else (oset_add i seen, server_send i w False s))
                 (destinations (m_groups s) from_id dest)) dests ([], s)
           in (Inr (), s')))"

definition relay_reliable_udp_frame :: "host_id \<Rightarrow> message_reader \<Rightarrow> 'u server \<Rightarrow> (exn + unit) \<times> 'u server" where
  "relay_reliable_udp_frame from_id r s =
     (case rbind read_u32 (\<lambda>dest. rbind read_u32 (\<lambda>frame. rbind (rbind read_length take_bytes) (\<lambda>data.
             rreturn (dest, frame, data)))) r of
        Inl e \<Rightarrow> (Inl e, s)
      | Inr ((dest, frame, data), _) \<Rightarrow>
          (Inr (), server_send dest
             (writes [write_u8 reliable_udp_frame_relay2, write_u32 from_id, write_u32 frame,
                      write_scalar (ssize data), write_bytes data] message_writer_new) False s))"

text \<open>\<open>10.0 * 1024 * 1024\<close> as the bits of a \<open>double\<close>\<close>

definition generous_speed :: f64 where
  "generous_speed = 0x4164000000000000"

definition handle_core_message ::
  "host_id \<Rightarrow> message_type \<Rightarrow> message_reader \<Rightarrow> 'u server \<Rightarrow> (exn + bool) \<times> 'u server" where
  "handle_core_message from_id type r s =
     (if type = request_server_time_and_keep_alive then
        (case rbind read_f64 (\<lambda>client_time. rbind read_f64 (\<lambda>_. rreturn client_time)) r of
           Inl e \<Rightarrow> (Inl e, s)
         | Inr (client_time, _) \<Rightarrow>
             (let (now, s') = server_time_sec s;
                  w = writes [write_u8 reply_server_time_and_keep_alive, write_f64 client_time, write_f64 now]
                    message_writer_new
              in (Inr True, on_peer from_id (peer_send (m_data w) False) s')))
      else if type = speed_hack_detector_ping then (Inr True, s)
      else if type = request_receive_speed_at_receiver_side then
        (let w = writes [write_u8 reply_receive_speed_at_receiver_side, write_f64 generous_speed] message_writer_new
         in (Inr True, on_peer from_id (peer_send (m_data w) False) s))
      else if type = reply_receive_speed_at_receiver_side then (Inr True, s)
      else if type = reliable_relay1 then
        (case relay_reliable from_id r s of (Inl e, s') \<Rightarrow> (Inl e, s') | (Inr _, s') \<Rightarrow> (Inr True, s'))
      else if type = unreliable_relay1 then
        (case relay_unreliable from_id r s of (Inl e, s') \<Rightarrow> (Inl e, s') | (Inr _, s') \<Rightarrow> (Inr True, s'))
      else if type = reliable_udp_frame_relay1 then
        (case relay_reliable_udp_frame from_id r s of (Inl e, s') \<Rightarrow> (Inl e, s') | (Inr _, s') \<Rightarrow> (Inr True, s'))
      else if type = compressed then (Inr True, s)
      else if type = notify_holepunch_success \<or> type = peer_udp_notify_holepunch_success then (Inr True, s)
      else (Inr False, s))"

definition handle_core_rmi :: "host_id \<Rightarrow> u16 \<Rightarrow> 'u server \<Rightarrow> 'u server" where
  "handle_core_rmi from_id rmi_id s =
     (if rmi_id = c2s_reliable_ping then on_peer from_id (peer_send (m_data (rmi_begin reliable_pong)) False) s
      else if rmi_id = c2s_shutdown_tcp then on_peer from_id (peer_send (m_data (rmi_begin shutdown_tcp_ack)) False) s
      else s)"

section \<open>Processing of a payload\<close>

definition on_public_key ::
  "('u, 'a) event_sink \<Rightarrow> host_id \<Rightarrow> message_reader \<Rightarrow> ('u, 'a) world \<Rightarrow> (exn + unit) \<times> ('u, 'a) world" where
  "on_public_key sink h r w =
     (case read_byte_array r of
        Inl e \<Rightarrow> (Inl e, w)
      | Inr (blob, _) \<Rightarrow>
          (case parse_publickeyblob blob of
             Inl _ \<Rightarrow> (Inr (), peer_close sink h w)
           | Inr key \<Rightarrow>
               (let (session_key, g) = draw_bytes rc4_key_bytes 0 255 (m_rng (m_net w));
                    w1 = with_net (\<lambda>s. on_peer h (\<lambda>p. p\<lparr>m_session_key := session_key\<rparr>) (s\<lparr>m_rng := g\<rparr>)) w
                in case make_rc4_simpleblob key session_key g of
                     (Inl e, g') \<Rightarrow> (Inl e, with_net (\<lambda>s. s\<lparr>m_rng := g'\<rparr>) w1)
                   | (Inr simple, g') \<Rightarrow>
                       (let m = write_byte_array simple (begin_message notify_cs_encrypted_session_key)
                        in (Inr (), with_net (\<lambda>s.
                              on_peer h (\<lambda>p. (peer_send (m_data m) False p)\<lparr>m_state := awaiting_connection_request\<rparr>)
                                (s\<lparr>m_rng := g'\<rparr>)) w1)))))"

definition connect_success :: "host_id \<Rightarrow> guid \<Rightarrow> endpoint \<Rightarrow> message_writer" where
  "connect_success host instance_guid remote =
     (let address = (case ep_v4 remote of Some bs \<Rightarrow> bs | None \<Rightarrow> [0, 0, 0, 0])
      in writes [write_u32 host, write_guid instance_guid, write_byte_array [], write_bytes address,
                 write_u16 (ep_port remote)] (begin_message notify_server_connect_success))"

definition on_connection_request ::
  "('u, 'a) event_sink \<Rightarrow> host_id \<Rightarrow> message_reader \<Rightarrow> ('u, 'a) world \<Rightarrow> (exn + unit) \<times> ('u, 'a) world" where
  "on_connection_request sink h r w =
     (case rbind read_byte_array (\<lambda>user_data. rbind read_guid (\<lambda>version. rbind read_u32 (\<lambda>internal_version.
             rreturn version))) r of
        Inl e \<Rightarrow> (Inl e, w)
      | Inr (version, _) \<Rightarrow>
          if version \<noteq> protocol_version (m_config (m_net w)) then
            (Inr (), peer_close sink h
               (with_net (on_peer h (peer_send (m_data (begin_message notify_protocol_version_mismatch)) False)) w))
          else
            (let instance_guid = m_instance_guid (m_net w);
                 disable = write_bool False (rmi_begin notify_speed_hack_detector_enabled)
             in (Inr (), on_client_join sink h (with_net (on_peer h (\<lambda>p.
                   peer_send (m_data disable) False
                     ((peer_send (m_data (connect_success (m_id p) instance_guid (m_remote p))) False p)
                        \<lparr>m_state := connected\<rparr>))) w))))"

definition peer_on_rmi ::
  "('u, 'a) event_sink \<Rightarrow> host_id \<Rightarrow> message_reader \<Rightarrow> ('u, 'a) world \<Rightarrow> (exn + unit) \<times> ('u, 'a) world" where
  "peer_on_rmi sink h r w =
     (case read_u16 r of
        Inl e \<Rightarrow> (Inl e, w)
      | Inr (rmi_id, r') \<Rightarrow>
          if c2s_first \<le> rmi_id \<and> rmi_id \<le> c2s_last then (Inr (), with_net (handle_core_rmi h rmi_id) w)
          else (case on_rmi sink h rmi_id r' w of (Inl e, w') \<Rightarrow> (Inl e, w') | (Inr _, w') \<Rightarrow> (Inr (), w')))"

function process_payload ::
  "('u, 'a) event_sink \<Rightarrow> host_id \<Rightarrow> bytes \<Rightarrow> bool \<Rightarrow> ('u, 'a) world \<Rightarrow> (exn + unit) \<times> ('u, 'a) world" where
  "process_payload sink h payload was_encrypted w =
     (case find_peer (m_net w) h of
        None \<Rightarrow> (Inr (), w)
      | Some p \<Rightarrow>
          (case read_u8 (message_reader_new payload) of
             Inl e \<Rightarrow> (Inl e, w)
           | Inr (type, r) \<Rightarrow>
               if type = notify_cs_public_key then
                 (if m_state p = awaiting_public_key then on_public_key sink h r w else (Inr (), w))
               else if type = notify_server_connection_request_data then
                 (if m_state p = awaiting_connection_request then on_connection_request sink h r w else (Inr (), w))
               else if type = encrypted_reliable \<or> type = encrypted_unreliable then
                 (if was_encrypted then (Inr (), w)
                  else case on_encrypted (type = encrypted_reliable) r p of
                         (Inl e, p') \<Rightarrow> (Inl e, with_net (on_peer h (\<lambda>_. p')) w)
                       | (Inr None, p') \<Rightarrow> (Inr (), with_net (on_peer h (\<lambda>_. p')) w)
                       | (Inr (Some inner), p') \<Rightarrow>
                           process_payload sink h inner True (with_net (on_peer h (\<lambda>_. p')) w))
               else if type = rmi then
                 (if m_state p = connected then peer_on_rmi sink h r w else (Inr (), w))
               else if m_state p = connected then
                 (case handle_core_message h type r (m_net w) of
                    (Inl e, s) \<Rightarrow> (Inl e, w\<lparr>m_net := s\<rparr>)
                  | (Inr handled, s) \<Rightarrow> (Inr (), w\<lparr>m_net := s\<rparr>))
               else (Inr (), w)))"
  by pat_completeness auto
termination
  by (relation "measure (\<lambda>(_, _, _, was_encrypted, _). if was_encrypted then 0 else 1)") auto

declare process_payload.simps [simp del]

section \<open>Completion handlers\<close>

definition peer_open :: "'u server \<Rightarrow> host_id \<Rightarrow> bool" where
  "peer_open s h \<longleftrightarrow> (case find_peer s h of None \<Rightarrow> False | Some p \<Rightarrow> m_state p \<noteq> closed)"

text \<open>
  The loop of the read handler. The fuel bounds the number of frames; \<open>None\<close> means that it did not
  suffice. A malformed frame closes the connection, an exception of a handler does not.
\<close>

fun frames_loop :: "nat \<Rightarrow> ('u, 'a) event_sink \<Rightarrow> host_id \<Rightarrow> ('u, 'a) world \<Rightarrow> ('u, 'a) world option" where
  "frames_loop 0 sink h w = None"
| "frames_loop (Suc fuel) sink h w =
     (case find_peer (m_net w) h of
        None \<Rightarrow> Some w
      | Some p \<Rightarrow>
          (case parser_next (m_parser p) of
             (Inl e, parser) \<Rightarrow>
               (let w' = with_net (on_peer h (\<lambda>p. p\<lparr>m_parser := parser\<rparr>)) w
                in Some (if e \<noteq> incomplete then peer_close sink h w' else w'))
           | (Inr frame, parser) \<Rightarrow>
               (let w' = snd (process_payload sink h frame False (with_net (on_peer h (\<lambda>p. p\<lparr>m_parser := parser\<rparr>)) w))
                in if \<not> peer_open (m_net w') h then Some w' else frames_loop fuel sink h w')))"

definition touch :: "host_id \<Rightarrow> 'u server \<Rightarrow> 'u server" where
  "touch h s = (let (now, c) = clock_now (m_clock s) in on_peer h (\<lambda>p. p\<lparr>m_last_receive := now\<rparr>) (s\<lparr>m_clock := c\<rparr>))"

text \<open>A frame takes at least four bytes, so the length of the buffered data is fuel enough.\<close>

definition buffered :: "'u server \<Rightarrow> host_id \<Rightarrow> nat" where
  "buffered s h = (case find_peer s h of None \<Rightarrow> 0 | Some p \<Rightarrow> length (m_buffer (m_parser p)))"

definition read_done ::
  "('u, 'a) event_sink \<Rightarrow> host_id \<Rightarrow> bytes option \<Rightarrow> ('u, 'a) world \<Rightarrow> ('u, 'a) world option" where
  "read_done sink h result w =
     (case result of
        None \<Rightarrow> Some (peer_close sink h w)
      | Some data \<Rightarrow>
          (let w' = with_net (\<lambda>s. on_peer h (\<lambda>p. p\<lparr>m_parser := feed data (m_parser p)\<rparr>) (touch h s)) w
           in frames_loop (Suc (buffered (m_net w') h)) sink h w'))"

definition write_done :: "('u, 'a) event_sink \<Rightarrow> host_id \<Rightarrow> bool \<Rightarrow> ('u, 'a) world \<Rightarrow> ('u, 'a) world" where
  "write_done sink h failed w = (if failed then peer_close sink h w else with_net (on_peer h write_next) w)"

definition accept_done :: "endpoint option \<Rightarrow> ('u, 'a) world \<Rightarrow> ('u, 'a) world" where
  "accept_done socket w =
     (case socket of
        None \<Rightarrow> w
      | Some remote \<Rightarrow>
          with_net (\<lambda>s.
            let (host, s1) = allocate_host_id s;
                (now, c) = clock_now (m_clock s1);
                s2 = s1\<lparr>m_clock := c, m_peers := omap_emplace host (peer_new host remote now) (m_peers s1)\<rparr>
            in on_peer host (peer_send (m_data (connection_hint (settings (m_config s2)))) False) s2) w)"

definition is_stale :: "nat \<Rightarrow> nat \<Rightarrow> 'u peer \<Rightarrow> bool" where
  "is_stale now limit p \<longleftrightarrow> int now - int (m_last_receive p) > int limit * 10 ^ 9"

definition timer_done :: "('u, 'a) event_sink \<Rightarrow> bool \<Rightarrow> ('u, 'a) world \<Rightarrow> ('u, 'a) world" where
  "timer_done sink cancelled w =
     (if cancelled then w
      else
        (let (now, c) = clock_now (m_clock (m_net w));
             w' = with_net (\<lambda>s. s\<lparr>m_clock := c\<rparr>) w;
             stale = map fst (filter (\<lambda>(h, p). is_stale now (timeout (m_config (m_net w'))) p) (m_peers (m_net w')))
         in fold (peer_close sink) stale w'))"

definition server_stop :: "('u, 'a) event_sink \<Rightarrow> ('u, 'a) world \<Rightarrow> ('u, 'a) world" where
  "server_stop sink w = fold (peer_close sink) (map fst (m_peers (m_net w))) w"

end
