(* ===== verification/Proudnet_Contract.thy ===== *)
theory Proudnet_Contract
  imports Proudnet_Events
begin

text \<open>
  The contract between the ProudNet layer and an application, as a locale: the callbacks act on the
  network through its public operations only. Under it every completion handler keeps the invariant,
  the read loop ends, and a connection runs through its states in order.
\<close>

section \<open>What a handler leaves of a connection\<close>

fun rank :: "peer_state \<Rightarrow> nat" where
  "rank awaiting_public_key = 0"
| "rank awaiting_connection_request = 1"
| "rank connected = 2"
| "rank closed = 3"

definition evolves :: "'u peer \<Rightarrow> 'u peer \<Rightarrow> bool" where
  "evolves p p' \<longleftrightarrow>
     m_id p' = m_id p \<and> m_remote p' = m_remote p \<and> rank (m_state p) \<le> rank (m_state p') \<and>
     (m_state p \<noteq> awaiting_public_key \<longrightarrow> m_session_key p' = m_session_key p)"

definition evolved :: "'u server \<Rightarrow> 'u server \<Rightarrow> bool" where
  "evolved s s' \<longleftrightarrow> (\<forall>k p'. find_peer s' k = Some p' \<longrightarrow> (\<exists>p. find_peer s k = Some p \<and> evolves p p'))"

definition keeps :: "'u server \<Rightarrow> 'u server \<Rightarrow> bool" where
  "keeps s s' \<longleftrightarrow>
     (\<forall>k p'. find_peer s' k = Some p' \<longrightarrow>
        (\<exists>p. find_peer s k = Some p \<and> evolves p p' \<and> m_parser p' = m_parser p))"

lemma evolves_refl [simp]: "evolves p p"
  by (simp add: evolves_def)

lemma evolves_trans: "evolves p q \<Longrightarrow> evolves q r \<Longrightarrow> evolves p r"
  by (cases "m_state p"; cases "m_state q") (auto simp: evolves_def)

lemma evolves_quiet: "quiet p' = quiet p \<Longrightarrow> evolves p p' \<and> m_parser p' = m_parser p"
  using quiet_eqD [of p' p] by (simp add: evolves_def)

lemma quiet_state: "quiet (p\<lparr>m_state := x\<rparr>) = (quiet p)\<lparr>m_state := x\<rparr>"
  by (simp add: quiet_def)

lemma evolves_send: "evolves p (peer_send payload encrypt p)"
  using evolves_quiet [of "peer_send payload encrypt p" p] by simp

lemma keeps_refl [simp]: "keeps s s"
  by (simp add: keeps_def)

lemma keeps_find:
  "keeps s s' \<Longrightarrow> find_peer s' k = Some p' \<Longrightarrow>
   \<exists>p. find_peer s k = Some p \<and> evolves p p' \<and> m_parser p' = m_parser p"
  by (simp add: keeps_def)

lemma keeps_trans:
  assumes "keeps s s'" "keeps s' s''"
  shows "keeps s s''"
  unfolding keeps_def
proof (intro allI impI)
  fix k r
  assume "find_peer s'' k = Some r"
  then obtain q where q: "find_peer s' k = Some q" "evolves q r" "m_parser r = m_parser q"
    using keeps_find [OF assms(2)] by blast
  then obtain p where "find_peer s k = Some p" "evolves p q" "m_parser q = m_parser p"
    using keeps_find [OF assms(1)] by blast
  with q show "\<exists>p. find_peer s k = Some p \<and> evolves p r \<and> m_parser r = m_parser p"
    using evolves_trans by fastforce
qed

lemma evolved_refl [simp]: "evolved s s"
  by (auto simp: evolved_def)

lemma evolved_trans: "evolved s s' \<Longrightarrow> evolved s' s'' \<Longrightarrow> evolved s s''"
  unfolding evolved_def by (meson evolves_trans)

lemma keeps_evolved: "keeps s s' \<Longrightarrow> evolved s s'"
  unfolding keeps_def evolved_def by blast

lemma keeps_api: "api_steps s s' \<Longrightarrow> keeps s s'"
  unfolding keeps_def by (meson api_steps_find evolves_quiet)

lemma keeps_talks: "talk\<^sup>*\<^sup>* s s' \<Longrightarrow> keeps s s'"
  unfolding keeps_def by (meson same_net_find(2) same_net_talks evolves_quiet)

lemma keeps_on_peer:
  "(\<And>p. find_peer s h = Some p \<Longrightarrow> evolves p (f p) \<and> m_parser (f p) = m_parser p) \<Longrightarrow> keeps s (on_peer h f s)"
  by (auto simp: keeps_def find_on_peer)

lemma evolved_on_peer:
  "(\<And>p. find_peer s h = Some p \<Longrightarrow> evolves p (f p)) \<Longrightarrow> evolved s (on_peer h f s)"
  by (auto simp: evolved_def find_on_peer)

section \<open>Sends as operations of the interface\<close>

lemma talks_server_send: "talk\<^sup>*\<^sup>* s (server_send dest m e s)"
  by (auto simp: server_send_def talk_send split: option.split)

lemma talks_fold:
  assumes "\<And>x s. x \<in> set xs \<Longrightarrow> talk\<^sup>*\<^sup>* s (f x s)"
  shows "talk\<^sup>*\<^sup>* s (fold f xs s)"
  using assms by (induction xs arbitrary: s) (auto intro: rtranclp_trans)

lemma talk_groups_relay:
  "talk\<^sup>*\<^sup>* s (snd (relay_reliable i r s))"
  "talk\<^sup>*\<^sup>* s (snd (relay_reliable_udp_frame i r s))"
  by (auto simp: relay_reliable_def relay_reliable_udp_frame_def talks_server_send intro!: talks_fold
      split: sum.split)

lemma talks_relay_loop:
  assumes "fold (\<lambda>i (seen, s). if i \<in> set seen then (seen, s) else (oset_add i seen, server_send i m False s)) xs (seen, s)
    = (seen', s')"
  shows "talk\<^sup>*\<^sup>* s s'"
  using assms
proof (induction xs arbitrary: seen s)
  case (Cons x xs)
  show ?case
  proof (cases "x \<in> set seen")
    case True
    then show ?thesis using Cons by simp
  next
    case False
    then show ?thesis
      using Cons.IH [of "oset_add x seen" "server_send x m False s"] Cons.prems talks_server_send [of s x m False]
      by (auto intro: rtranclp_trans)
  qed
qed simp

lemma fold_fold_concat: "fold (\<lambda>x. fold f (g x)) xs = fold f (concat (map g xs))"
  by (induction xs) (simp_all add: fun_eq_iff)

lemma talks_relay_unreliable: "talk\<^sup>*\<^sup>* s (snd (relay_unreliable i r s))"
  by (auto simp: relay_unreliable_def Let_def fold_fold_concat dest: talks_relay_loop split: sum.split prod.split)

lemma talks_core_rmi: "talk\<^sup>*\<^sup>* s (handle_core_rmi h i s)"
  by (auto simp: handle_core_rmi_def talk_send)

section \<open>Small state changes\<close>

definition safe :: "(('u, 'a) world \<Rightarrow> bool) \<Rightarrow> ('u, 'a) world \<Rightarrow> bool" where
  "safe app_inv w \<longleftrightarrow> app_inv w \<and> net_inv (m_net w) \<and> no_closed (m_net w)"

lemma net_inv_env [simp]:
  "net_inv (s\<lparr>m_clock := c\<rparr>) \<longleftrightarrow> net_inv s" "net_inv (s\<lparr>m_rng := g\<rparr>) \<longleftrightarrow> net_inv s"
  by (simp_all add: net_inv_def peers_ok_def groups_ok_def pool_ok_def)

lemma no_closed_env [simp]:
  "no_closed (s\<lparr>m_clock := c\<rparr>) \<longleftrightarrow> no_closed s" "no_closed (s\<lparr>m_rng := g\<rparr>) \<longleftrightarrow> no_closed s"
  by (simp_all add: no_closed_def)

lemma keeps_env [simp]:
  "keeps s (s'\<lparr>m_clock := c\<rparr>) \<longleftrightarrow> keeps s s'" "keeps s (s'\<lparr>m_rng := g\<rparr>) \<longleftrightarrow> keeps s s'"
  "keeps (s\<lparr>m_clock := c\<rparr>) s' \<longleftrightarrow> keeps s s'" "keeps (s\<lparr>m_rng := g\<rparr>) s' \<longleftrightarrow> keeps s s'"
  by (simp_all add: keeps_def)

lemma no_closed_on_peer:
  "no_closed s \<Longrightarrow> (\<And>p. find_peer s h = Some p \<Longrightarrow> m_state (f p) \<noteq> closed) \<Longrightarrow> no_closed (on_peer h f s)"
  by (auto simp: no_closed_def find_on_peer)

lemma no_closed_talks: "talk\<^sup>*\<^sup>* s s' \<Longrightarrow> no_closed s \<Longrightarrow> no_closed s'"
  unfolding no_closed_def using same_net_find(2) [OF same_net_talks] quiet_eqD(2) by metis

lemma no_closed_find: "no_closed s \<Longrightarrow> find_peer s h = Some p \<Longrightarrow> m_state p \<noteq> closed"
  by (simp add: no_closed_def)

lemma m_groups_mark_closed [simp]: "m_groups (mark_closed h s) = m_groups s"
  by (simp add: mark_closed_def)

lemma with_net_simps [simp]:
  "m_net (with_net f w) = f (m_net w)" "m_app (with_net f w) = m_app w"
  by (simp_all add: with_net_def)

lemma dom_groups_closed [simp]: "dom (map_of (m_groups (on_peer_closed h s))) = dom (map_of (m_groups s))"
  by (auto simp: on_peer_closed_effect)

lemma m_groups_relays [simp]:
  "m_groups (snd (relay_reliable i r s)) = m_groups s"
  "m_groups (snd (relay_reliable_udp_frame i r s)) = m_groups s"
  by (auto simp: relay_reliable_def relay_reliable_udp_frame_def fold_keeps [of m_groups] split_def split: sum.split)

lemma m_groups_relay_loop:
  "m_groups (snd (fold (\<lambda>i (seen, s). if i \<in> set seen then (seen, s) else (oset_add i seen, server_send i m False s))
     xs (seen, s))) = m_groups s"
  by (induction xs arbitrary: seen s) auto

lemma m_groups_relay_unreliable [simp]: "m_groups (snd (relay_unreliable i r s)) = m_groups s"
proof -
  have "m_groups s' = m_groups s"
    if "fold (\<lambda>i (seen, s). if i \<in> set seen then (seen, s) else (oset_add i seen, server_send i m False s)) xs ([], s)
      = (seen', s')" for m xs seen' s'
    using m_groups_relay_loop [of m xs "[]" s] that by simp
  then show ?thesis
    by (auto simp: relay_unreliable_def Let_def fold_fold_concat split: sum.split prod.split)
qed

lemma snd_relay_case:
  "snd (case x of (Inl e, s') \<Rightarrow> (Inl e, s') | (Inr u, s') \<Rightarrow> (Inr True, s')) = snd x"
  by (auto split: prod.split sum.split)

lemma core_message_result:
  "\<exists>c. talk\<^sup>*\<^sup>* (s\<lparr>m_clock := c\<rparr>) (snd (handle_core_message h type r s)) \<and>
       m_groups (snd (handle_core_message h type r s)) = m_groups s"
proof -
  have s: "s\<lparr>m_clock := m_clock s\<rparr> = s" by simp
  have relay: "talk\<^sup>*\<^sup>* s (snd (relay_reliable h r s))" "talk\<^sup>*\<^sup>* s (snd (relay_unreliable h r s))"
    "talk\<^sup>*\<^sup>* s (snd (relay_reliable_udp_frame h r s))"
    by (rule talk_groups_relay talks_relay_unreliable)+
  show ?thesis
  proof (cases "type = request_server_time_and_keep_alive")
    case True
    show ?thesis
    proof (cases "rbind read_f64 (\<lambda>client_time. rbind read_f64 (\<lambda>_. rreturn client_time)) r")
      case (Inl e)
      with True show ?thesis by (intro exI [of _ "m_clock s"]) (simp add: handle_core_message_def)
    next
      case (Inr tr)
      obtain t c where "server_time_sec s = (t, s\<lparr>m_clock := c\<rparr>)"
        by (auto simp: server_time_sec_def clock_now_def Let_def)
      with True Inr show ?thesis
        by (cases tr) (auto simp: handle_core_message_def Let_def intro!: exI [of _ c] talk_send)
    qed
  next
    case False
    have "talk\<^sup>*\<^sup>* s (snd (handle_core_message h type r s)) \<and> m_groups (snd (handle_core_message h type r s)) = m_groups s"
      using False
      by (simp add: handle_core_message_def Let_def snd_relay_case relay r_into_rtranclp talk_send)
    then show ?thesis by (intro exI [of _ "m_clock s"]) (simp add: s)
  qed
qed

section \<open>The contract of an application\<close>

text \<open>
  The callbacks use the network through its interface. \<open>app_inv\<close> is whatever the application needs
  for that; of the network it may only depend on which groups exist and on clients being past the
  handshake, and it has to survive the closing of a connection as a whole.
\<close>

definition settled :: "'u server \<Rightarrow> host_id set" where
  "settled s = {h. \<exists>p. find_peer s h = Some p \<and> 2 \<le> rank (m_state p)}"

lemma settled_on_peer:
  assumes "\<And>p. find_peer s h = Some p \<Longrightarrow> rank (m_state p) \<le> rank (m_state (f p))"
  shows "settled s \<subseteq> settled (on_peer h f s)"
  using assms by (fastforce simp: settled_def find_on_peer)

lemma rank_le: "rank st \<le> 3"
  by (cases st) simp_all

lemma settled_mark_closed: "settled s \<subseteq> settled (mark_closed h s)"
  unfolding mark_closed_def by (rule settled_on_peer) (simp add: rank_le)

lemma settled_same_net: "same_net s s' \<Longrightarrow> settled s' = settled s"
  unfolding settled_def using same_net_find(2,3) quiet_eqD(2) by (metis (lifting))

lemma settled_talks: "talk\<^sup>*\<^sup>* s s' \<Longrightarrow> settled s' = settled s"
  by (rule settled_same_net) (rule same_net_talks)

lemma settled_updates [simp]:
  "settled (s\<lparr>m_clock := c\<rparr>) = settled s" "settled (s\<lparr>m_rng := g\<rparr>) = settled s"
  by (simp_all add: settled_def)

locale event_handler =
  fixes sink :: "('u, 'a) event_sink"
    and app_inv :: "('u, 'a) world \<Rightarrow> bool"
  assumes join_talks: "app_inv w \<Longrightarrow> net_inv (m_net w) \<Longrightarrow> talk\<^sup>*\<^sup>* (m_net w) (m_net (on_client_join sink h w))"
    and leave_talks: "app_inv w \<Longrightarrow> net_inv (m_net w) \<Longrightarrow> talk\<^sup>*\<^sup>* (m_net w) (m_net (on_client_leave sink h w))"
    and rmi_steps: "safe app_inv w \<Longrightarrow> is_connected (m_net w) h \<Longrightarrow>
      api_steps (m_net w) (m_net (snd (on_rmi sink h i r w)))"
    and inv_join: "app_inv w \<Longrightarrow> net_inv (m_net w) \<Longrightarrow> app_inv (on_client_join sink h w)"
    and inv_close: "app_inv w \<Longrightarrow> net_inv (m_net w) \<Longrightarrow> app_inv (peer_close sink h w)"
    and inv_rmi: "safe app_inv w \<Longrightarrow> is_connected (m_net w) h \<Longrightarrow> app_inv (snd (on_rmi sink h i r w))"
    and inv_net: "app_inv w \<Longrightarrow> dom (map_of (m_groups s)) = dom (map_of (m_groups (m_net w))) \<Longrightarrow>
      settled (m_net w) \<subseteq> settled s \<Longrightarrow> app_inv (w\<lparr>m_net := s\<rparr>)"
begin

lemma inv_with_net:
  "app_inv w \<Longrightarrow> dom (map_of (m_groups (f (m_net w)))) = dom (map_of (m_groups (m_net w))) \<Longrightarrow>
   settled (m_net w) \<subseteq> settled (f (m_net w)) \<Longrightarrow> app_inv (with_net f w)"
  unfolding with_net_def by (rule inv_net)

subsection \<open>Closing\<close>

lemma close_steps:
  assumes i: "app_inv w" "net_inv (m_net w)"
  shows "api_steps (m_net w) (m_net (peer_close sink h w)) \<and> app_inv (peer_close sink h w)"
proof (cases "find_peer (m_net w) h")
  case (Some p)
  show ?thesis
  proof (cases "m_state p = closed")
    case True
    with i Some show ?thesis by (simp add: peer_close_def api_refl)
  next
    case False
    define w1 where "w1 = with_net (mark_closed h) w"
    define w2 where "w2 = (if m_state p = connected then on_client_leave sink h w1 else w1)"
    have w1: "app_inv w1" "net_inv (m_net w1)"
      using i settled_mark_closed by (auto simp: w1_def net_inv_mark_closed intro!: inv_with_net)
    then have w2: "talk\<^sup>*\<^sup>* (mark_closed h (m_net w)) (m_net w2)"
      using leave_talks [of w1 h] by (auto simp: w2_def w1_def)
    have "peer_close sink h w = with_net (on_peer_closed h) w2"
      using Some False by (simp add: peer_close_def w1_def w2_def Let_def)
    with w2 Some False show ?thesis
      using inv_close [OF i, of h] by (simp add: api_close [OF api_refl])
  qed
qed (simp add: peer_close_def api_refl i)

lemma close_safe:
  "safe app_inv w \<Longrightarrow> safe app_inv (peer_close sink h w) \<and> keeps (m_net w) (m_net (peer_close sink h w))"
  using close_steps [of w h] by (auto simp: safe_def net_inv_api api_no_closed keeps_api)

text \<open>A closed connection is gone.\<close>

lemma close_forgets: "find_peer (m_net w) h = Some p \<Longrightarrow> m_state p \<noteq> closed \<Longrightarrow> find_peer (m_net (peer_close sink h w)) h = None"
  by (simp add: peer_close_def Let_def on_peer_closed_effect)

lemma close_all_safe: "safe app_inv w \<Longrightarrow> safe app_inv (fold (peer_close sink) hs w) \<and> keeps (m_net w) (m_net (fold (peer_close sink) hs w))"
proof (induction hs arbitrary: w)
  case (Cons h hs)
  have "safe app_inv (peer_close sink h w)" "keeps (m_net w) (m_net (peer_close sink h w))"
    using close_safe [OF Cons.prems] by auto
  with Cons.IH [of "peer_close sink h w"] show ?case by (auto intro: keeps_trans)
qed simp

subsection \<open>Payloads\<close>

lemma on_peer_safe:
  assumes "safe app_inv w"
    and "\<And>p. find_peer (m_net w) h = Some p \<Longrightarrow> peer_ok p \<Longrightarrow> m_state p \<noteq> closed \<Longrightarrow>
      peer_ok (f p) \<and> m_state (f p) \<noteq> closed \<and> m_parser (f p) = m_parser p \<and> evolves p (f p)"
  shows "safe app_inv (with_net (on_peer h f) w) \<and> keeps (m_net w) (m_net (with_net (on_peer h f) w))"
proof -
  have f: "peer_ok (f p) \<and> m_state (f p) \<noteq> closed \<and> m_parser (f p) = m_parser p \<and> evolves p (f p)"
    if "find_peer (m_net w) h = Some p" for p
    using assms that by (auto simp: safe_def net_inv_def peers_ok_def no_closed_def)
  have "net_inv (on_peer h f (m_net w))"
    using assms(1) f by (intro net_inv_on_peer) (auto simp: safe_def evolves_def)
  moreover have "no_closed (on_peer h f (m_net w))"
    using assms(1) f by (intro no_closed_on_peer) (auto simp: safe_def)
  moreover have "app_inv (with_net (on_peer h f) w)"
    using assms(1) settled_on_peer [of "m_net w" h f] f by (intro inv_with_net) (auto simp: safe_def evolves_def)
  moreover have "keeps (m_net w) (on_peer h f (m_net w))" using f by (intro keeps_on_peer) auto
  ultimately show ?thesis by (simp add: safe_def)
qed

lemma rng_safe: "safe app_inv w \<Longrightarrow> safe app_inv (with_net (\<lambda>s. s\<lparr>m_rng := g\<rparr>) w)"
  by (auto simp: safe_def intro: inv_with_net)

lemma clock_safe: "safe app_inv w \<Longrightarrow> safe app_inv (with_net (\<lambda>s. s\<lparr>m_clock := c\<rparr>) w)"
  by (auto simp: safe_def intro: inv_with_net)

lemma public_key_safe:
  assumes "safe app_inv w" "find_peer (m_net w) h = Some p" "m_state p = awaiting_public_key"
  shows "safe app_inv (snd (on_public_key sink h r w)) \<and> keeps (m_net w) (m_net (snd (on_public_key sink h r w)))"
proof (cases "read_byte_array r")
  case (Inr br)
  obtain blob r' where b: "br = (blob, r')" by force
  show ?thesis
  proof (cases "parse_publickeyblob blob")
    case (Inl e)
    with Inr b close_safe [OF assms(1)] show ?thesis by (simp add: on_public_key_def)
  next
    case (Inr key)
    obtain k g where k: "draw_bytes rc4_key_bytes 0 255 (m_rng (m_net w)) = (k, g)" by force
    have lk: "length k = rc4_key_bytes" "k \<noteq> []"
      using length_draw_bytes [OF k] by (auto simp: rc4_key_bytes_def)
    obtain res g' where m: "make_rc4_simpleblob key k g = (res, g')" by force
    define setkey where "setkey = (\<lambda>p :: 'u peer. p\<lparr>m_session_key := k\<rparr>)"
    define reply where "reply = (\<lambda>simple (p :: 'u peer).
      (peer_send (m_data (write_byte_array simple (begin_message notify_cs_encrypted_session_key))) False p)
        \<lparr>m_state := awaiting_connection_request\<rparr>)"
    let ?w = "with_net (\<lambda>s. s\<lparr>m_rng := g'\<rparr>) w"
    have up: "on_peer h f (s\<lparr>m_rng := x\<rparr>) = (on_peer h f s)\<lparr>m_rng := x\<rparr>" for f x and s :: "'u server"
      by (simp add: on_peer_def split: option.split)
    have eq: "snd (on_public_key sink h r w) =
        (case res of Inl e \<Rightarrow> with_net (on_peer h setkey) ?w
         | Inr simple \<Rightarrow> with_net (on_peer h (reply simple)) (with_net (on_peer h setkey) ?w))"
      using \<open>read_byte_array r = Inr br\<close> b Inr k m
      by (simp add: on_public_key_def setkey_def reply_def with_net_def up split: sum.split)
    have a: "safe app_inv (with_net (on_peer h setkey) ?w) \<and> keeps (m_net ?w) (m_net (with_net (on_peer h setkey) ?w))"
      using rng_safe [OF assms(1)] assms(2,3) lk
      by (intro on_peer_safe) (auto simp: setkey_def peer_ok_def queue_ok_def sent_def evolves_def)
    have "safe app_inv (with_net (on_peer h (reply simple)) (with_net (on_peer h setkey) ?w)) \<and>
      keeps (m_net (with_net (on_peer h setkey) ?w)) (m_net (with_net (on_peer h (reply simple)) (with_net (on_peer h setkey) ?w)))"
      for simple
    proof (rule on_peer_safe [OF conjunct1 [OF a]])
      fix q :: "'u peer"
      assume q: "find_peer (m_net (with_net (on_peer h setkey) ?w)) h = Some q" "peer_ok q"
      have "m_session_key q = k" "m_state q = awaiting_public_key"
        using q assms(2,3) by (auto simp: find_on_peer setkey_def)
      moreover define q' where "q' = peer_send (m_data (write_byte_array simple
        (begin_message notify_cs_encrypted_session_key))) False q"
      moreover have "peer_ok q'" "quiet q' = quiet q" using q(2) by (simp_all add: q'_def peer_ok_send)
      ultimately show "peer_ok (reply simple q) \<and> m_state (reply simple q) \<noteq> closed \<and>
          m_parser (reply simple q) = m_parser q \<and> evolves q (reply simple q)"
        using lk quiet_eqD [of q' q]
        by (auto simp: reply_def q'_def [symmetric] peer_ok_def queue_ok_def sent_def evolves_def)
    qed
    with a show ?thesis unfolding eq by (auto intro: keeps_trans split: sum.split)
  qed
qed (simp add: on_public_key_def assms)

lemma connection_request_safe:
  assumes "safe app_inv w" "find_peer (m_net w) h = Some p" "m_state p = awaiting_connection_request"
  shows "safe app_inv (snd (on_connection_request sink h r w)) \<and>
    keeps (m_net w) (m_net (snd (on_connection_request sink h r w)))"
proof (cases "rbind read_byte_array (\<lambda>user_data. rbind read_guid (\<lambda>version. rbind read_u32 (\<lambda>internal_version.
             rreturn version))) r")
  case (Inr vr)
  obtain version r' where v: "vr = (version, r')" by force
  show ?thesis
  proof (cases "version = protocol_version (m_config (m_net w))")
    case False
    let ?w = "with_net (on_peer h (peer_send (m_data (begin_message notify_protocol_version_mismatch)) False)) w"
    have w: "safe app_inv ?w \<and> keeps (m_net w) (m_net ?w)"
      using assms(1) by (rule on_peer_safe) (simp add: peer_ok_send evolves_send)
    have "snd (on_connection_request sink h r w) = peer_close sink h ?w"
      using Inr v False by (simp add: on_connection_request_def)
    then show ?thesis using w close_safe [of ?w h] keeps_trans by auto
  next
    case True
    define f where "f = (\<lambda>p :: 'u peer.
      peer_send (m_data (write_bool False (rmi_begin notify_speed_hack_detector_enabled))) False
        ((peer_send (m_data (connect_success (m_id p) (m_instance_guid (m_net w)) (m_remote p))) False p)
           \<lparr>m_state := connected\<rparr>))"
    have f: "peer_ok (f q) \<and> m_state (f q) \<noteq> closed \<and> m_parser (f q) = m_parser q \<and> evolves q (f q)"
      if "find_peer (m_net w) h = Some q" "peer_ok q" for q
    proof -
      define q1 where "q1 = peer_send (m_data (connect_success (m_id q) (m_instance_guid (m_net w)) (m_remote q))) False q"
      have q: "m_state q = awaiting_connection_request" using that assms by simp
      have "peer_ok q1" "quiet q1 = quiet q" using that by (simp_all add: q1_def peer_ok_send)
      then have "peer_ok (q1\<lparr>m_state := connected\<rparr>)" and "quiet (q1\<lparr>m_state := connected\<rparr>) = quiet (q\<lparr>m_state := connected\<rparr>)"
        using q by (auto simp: peer_ok_def queue_ok_def sent_def q1_def quiet_state)
      moreover have "f q = peer_send (m_data (write_bool False (rmi_begin notify_speed_hack_detector_enabled))) False
          (q1\<lparr>m_state := connected\<rparr>)" by (simp add: f_def q1_def)
      ultimately have "peer_ok (f q)" "quiet (f q) = quiet (q\<lparr>m_state := connected\<rparr>)" by (simp_all add: peer_ok_send)
      then show ?thesis using quiet_eqD [of "f q" "q\<lparr>m_state := connected\<rparr>"] q by (simp add: evolves_def)
    qed
    let ?w = "with_net (on_peer h f) w"
    have w: "safe app_inv ?w \<and> keeps (m_net w) (m_net ?w)"
      using assms(1) by (rule on_peer_safe) (simp add: f)
    have t: "talk\<^sup>*\<^sup>* (m_net ?w) (m_net (on_client_join sink h ?w))" "app_inv (on_client_join sink h ?w)"
      using w join_talks [of ?w h] inv_join [of ?w h] by (auto simp: safe_def)
    then have "safe app_inv (on_client_join sink h ?w) \<and> keeps (m_net ?w) (m_net (on_client_join sink h ?w))"
      using w net_inv_talks no_closed_talks keeps_talks by (auto simp: safe_def)
    moreover have "snd (on_connection_request sink h r w) = on_client_join sink h ?w"
      using Inr v True by (simp add: on_connection_request_def f_def Let_def)
    ultimately show ?thesis using w keeps_trans by auto
  qed
qed (simp add: on_connection_request_def assms)

lemma steps_safe:
  assumes "safe app_inv w" "api_steps (m_net w) (m_net w')" "app_inv w'"
  shows "safe app_inv w' \<and> keeps (m_net w) (m_net w')"
  using assms by (auto simp: safe_def net_inv_api api_no_closed keeps_api)

lemma talks_api: "talk\<^sup>*\<^sup>* s s' \<Longrightarrow> api_steps s s'"
  by (induction rule: rtranclp_induct) (auto intro: api_refl api_talk)

lemma peer_on_rmi_safe:
  assumes "safe app_inv w" "is_connected (m_net w) h"
  shows "safe app_inv (snd (peer_on_rmi sink h r w)) \<and> keeps (m_net w) (m_net (snd (peer_on_rmi sink h r w)))"
proof (cases "read_u16 r")
  case (Inr ir)
  obtain i r' where i: "ir = (i, r')" by force
  show ?thesis
  proof (cases "c2s_first \<le> i \<and> i \<le> c2s_last")
    case True
    have "app_inv (with_net (handle_core_rmi h i) w)"
      using assms(1) settled_talks [OF talks_core_rmi [of "m_net w" h i]]
      by (intro inv_with_net) (auto simp: safe_def handle_core_rmi_def)
    then show ?thesis
      using True Inr i steps_safe [OF assms(1), of "with_net (handle_core_rmi h i) w"] talks_api [OF talks_core_rmi [of "m_net w" h i]]
      by (simp add: peer_on_rmi_def)
  next
    case False
    then have "snd (peer_on_rmi sink h r w) = snd (on_rmi sink h i r' w)"
      using Inr i by (auto simp: peer_on_rmi_def split: prod.split sum.split)
    then show ?thesis using steps_safe [OF assms(1) rmi_steps [OF assms] inv_rmi [OF assms]] by simp
  qed
qed (simp add: peer_on_rmi_def assms)

lemma on_encrypted_ok:
  assumes "on_encrypted reliable r p = (res, p')"
  shows "peer_ok p \<Longrightarrow> peer_ok p'" "m_state p' = m_state p" "m_parser p' = m_parser p" "evolves p p'"
  using assms
  by (auto simp: on_encrypted_def Let_def evolves_def peer_ok_def queue_ok_def sent_def
      split: if_splits sum.splits prod.splits)

lemma core_message_safe:
  assumes "safe app_inv w"
  shows "safe app_inv (w\<lparr>m_net := snd (handle_core_message h type r (m_net w))\<rparr>) \<and>
    keeps (m_net w) (snd (handle_core_message h type r (m_net w)))"
proof -
  obtain c where c: "talk\<^sup>*\<^sup>* ((m_net w)\<lparr>m_clock := c\<rparr>) (snd (handle_core_message h type r (m_net w)))"
    "m_groups (snd (handle_core_message h type r (m_net w))) = m_groups (m_net w)"
    using core_message_result by blast
  then show ?thesis
    using assms net_inv_talks [OF c(1)] no_closed_talks [OF c(1)] keeps_talks [OF c(1)] settled_talks [OF c(1)] inv_net [of w]
    by (simp add: safe_def)
qed

lemma process_payload_step:
  assumes safe: "safe app_inv w"
    and inner: "\<And>inner w'. \<not> e \<Longrightarrow> safe app_inv w' \<Longrightarrow>
      safe app_inv (snd (process_payload sink h inner True w')) \<and>
      keeps (m_net w') (m_net (snd (process_payload sink h inner True w')))"
    and Some: "find_peer (m_net w) h = Some p"
    and t: "read_u8 (message_reader_new payload) = Inr (type, r)"
  shows "safe app_inv (snd (process_payload sink h payload e w)) \<and>
    keeps (m_net w) (m_net (snd (process_payload sink h payload e w)))"
proof -
      consider (key) "type = notify_cs_public_key"
        | (request) "type = notify_server_connection_request_data"
        | (enc) "type = encrypted_reliable \<or> type = encrypted_unreliable"
        | (rmi) "type = rmi"
        | (core) "type \<notin> {notify_cs_public_key, notify_server_connection_request_data, encrypted_reliable,
            encrypted_unreliable, rmi}" by blast
      then show ?thesis
      proof cases
        case key
        with Some t safe public_key_safe [OF safe Some] show ?thesis
          by (simp add: process_payload.simps)
      next
        case request
        with Some t safe connection_request_safe [OF safe Some] show ?thesis
          by (simp add: process_payload.simps message_type_defs)
      next
        case enc
        then have ne: "type \<noteq> notify_cs_public_key" "type \<noteq> notify_server_connection_request_data"
          by (auto simp: message_type_defs)
        obtain res p' where o: "on_encrypted (type = encrypted_reliable) r p = (res, p')" by force
        define w' where "w' = with_net (on_peer h (\<lambda>_. p')) w"
        have w': "safe app_inv w' \<and> keeps (m_net w) (m_net w')"
          unfolding w'_def using safe Some on_encrypted_ok [OF o] by (intro on_peer_safe) auto
        have eq: "process_payload sink h payload e w =
            (if e then (Inr (), w) else case res of Inl x \<Rightarrow> (Inl x, w') | Inr None \<Rightarrow> (Inr (), w')
             | Inr (Some inner) \<Rightarrow> process_payload sink h inner True w')"
          using Some t enc ne o
          by (subst process_payload.simps) (auto simp: w'_def split: sum.split option.split)
        have "safe app_inv (snd (process_payload sink h inner True w')) \<and>
            keeps (m_net w) (m_net (snd (process_payload sink h inner True w')))" if "\<not> e" for inner
          using inner [OF that] w' keeps_trans by blast
        with w' safe show ?thesis unfolding eq by (auto split: sum.split option.split)
      next
        case rmi
        then have ne: "type \<noteq> notify_cs_public_key" "type \<noteq> notify_server_connection_request_data"
          "type \<noteq> encrypted_reliable" "type \<noteq> encrypted_unreliable" by (auto simp: message_type_defs)
        with rmi Some t safe peer_on_rmi_safe [OF safe] show ?thesis
          by (simp add: process_payload.simps is_connected_def)
      next
        case core
        with Some t safe core_message_safe [OF safe, of h type r] show ?thesis
          by (auto simp: process_payload.simps split: prod.split sum.split)
      qed
qed

lemma process_payload_unread:
  assumes "safe app_inv w" "find_peer (m_net w) h = None \<or> (\<exists>x. read_u8 (message_reader_new payload) = Inl x)"
  shows "safe app_inv (snd (process_payload sink h payload e w)) \<and>
    keeps (m_net w) (m_net (snd (process_payload sink h payload e w)))"
  using assms by (auto simp: process_payload.simps split: option.split)

lemma process_payload_safe:
  assumes "safe app_inv w"
  shows "safe app_inv (snd (process_payload sink h payload e w)) \<and>
    keeps (m_net w) (m_net (snd (process_payload sink h payload e w)))"
proof -
  have cases: "(\<exists>p. find_peer (m_net w) h = Some p) \<and> (\<exists>type r. read_u8 (message_reader_new payload) = Inr (type, r)) \<or>
      find_peer (m_net w) h = None \<or> (\<exists>x. read_u8 (message_reader_new payload) = Inl x)"
    for w :: "('u, 'a) world" and payload
    by (cases "find_peer (m_net w) h"; cases "read_u8 (message_reader_new payload)") auto
  have enc: "safe app_inv (snd (process_payload sink h payload True w)) \<and>
    keeps (m_net w) (m_net (snd (process_payload sink h payload True w)))" if "safe app_inv w" for payload w
    using cases [of w payload] process_payload_step [OF that, of True h _ payload] process_payload_unread [OF that]
    by blast
  show ?thesis
    using cases [of w payload] process_payload_step [OF assms enc] process_payload_unread [OF assms] by blast
qed

end

end
