(* ===== verification/Proudnet_Reach.thy ===== *)
theory Proudnet_Reach
  imports Proudnet_Contract
begin

text \<open>
  The server as a state machine: its steps are the completion handlers of \<open>Proudnet_Events\<close>, in any
  order the \<open>io_context\<close> may run them. For every application that keeps the contract, the read
  handler returns, and the invariant holds in every reachable state.
\<close>

section \<open>Steps\<close>

text \<open>
  One step of the server. Up to \<open>2 ^ 30\<close> connections are open at a time, far more than a host has
  ports and memory for.
\<close>

inductive net_step :: "('u, 'a) event_sink \<Rightarrow> ('u, 'a) world \<Rightarrow> ('u, 'a) world \<Rightarrow> bool" for sink where
  step_accept: "length (m_peers (m_net w)) < 2 ^ 30 \<Longrightarrow> net_step sink w (accept_done socket w)"
| step_read: "read_done sink h result w = Some w' \<Longrightarrow> net_step sink w w'"
| step_write: "net_step sink w (write_done sink h failed w)"
| step_timer: "net_step sink w (timer_done sink cancelled w)"
| step_stop: "net_step sink w (server_stop sink w)"

inductive reachable :: "('u, 'a) event_sink \<Rightarrow> ('u, 'a) world \<Rightarrow> ('u, 'a) world \<Rightarrow> bool" for sink w0 where
  reach_init: "reachable sink w0 w0"
| reach_step: "reachable sink w0 w \<Longrightarrow> net_step sink w w' \<Longrightarrow> reachable sink w0 w'"

inductive_cases net_stepE: "net_step sink w w'"

section \<open>Accepting\<close>

definition accept_net :: "endpoint \<Rightarrow> 'u server \<Rightarrow> 'u server" where
  "accept_net remote s =
     (let (host, s1) = allocate_host_id s;
          (now, c) = clock_now (m_clock s1);
          s2 = s1\<lparr>m_clock := c, m_peers := omap_emplace host (peer_new host remote now) (m_peers s1)\<rparr>
      in on_peer host (peer_send (m_data (connection_hint (settings (m_config s2)))) False) s2)"

lemma accept_done_eq: "accept_done socket w = (case socket of None \<Rightarrow> w | Some remote \<Rightarrow> with_net (accept_net remote) w)"
  by (simp add: accept_done_def with_net_def accept_net_def split: option.split)

lemma peer_ok_new: "peer_ok (peer_new h remote now)"
  by (simp add: peer_ok_def peer_new_def queue_ok_def sent_def)

text \<open>A new connection gets a HostID nobody has and, as its first frame, the connection hint.\<close>

lemma accept_net_effect:
  assumes i: "net_inv s" and small: "length (m_peers s) < 2 ^ 30"
  obtains host now where "host \<notin> client_ids s" "host \<notin> group_ids s" "net_inv (accept_net remote s)"
    "find_peer (accept_net remote s) = (find_peer s)(host \<mapsto>
       peer_send (m_data (connection_hint (settings (m_config s)))) False (peer_new host remote now))"
    "m_groups (accept_net remote s) = m_groups s"
proof -
  obtain host s1 where a: "allocate_host_id s = (host, s1)" by force
  obtain now c where c: "clock_now (m_clock s) = (now, c)" by force
  note n = allocate_net_inv [OF i a]
  define p where "p = (peer_new host remote now :: 'a peer)"
  define s2 where "s2 = s1\<lparr>m_clock := c, m_peers := omap_emplace host p (m_peers s1)\<rparr>"
  have fresh: "map_of (m_peers s1) host = None"
    using n(1) by (auto simp: client_ids_def find_peer_def allocate_frame [OF a])
  have f2: "find_peer s2 = (find_peer s)(host \<mapsto> p)"
    using fresh by (auto simp: s2_def find_peer_def omap_emplace_def map_of_omap_put allocate_frame [OF a])
  have ids: "client_ids s2 = insert host (client_ids s)" "group_ids s2 = group_ids s" "m_groups s2 = m_groups s"
    using f2 by (simp_all add: client_ids_def) (simp_all add: group_ids_def s2_def allocate_frame [OF a])
  have "peers_ok s2"
    using n(4) small fresh peer_ok_new [of host remote now, where 'a = 'a]
    by (auto simp: peers_ok_def s2_def omap_emplace_def omap_ok_put length_omap_put_fresh map_of_omap_put
        allocate_frame [OF a] p_def find_peer_def peer_new_def)
  moreover have "groups_ok s2"
    using n(5) by (auto simp: groups_ok_def f2 ids allocate_frame [OF a] allocate_find [OF a])
  moreover have "pool_ok (insert host (client_ids s) \<union> group_ids s) s2"
    using n(3) by (simp add: pool_ok_def s2_def)
  ultimately have "net_inv s2" using i n(1,2) by (auto simp: net_inv_def ids)
  moreover have eq: "accept_net remote s = on_peer host (peer_send (m_data (connection_hint (settings (m_config s)))) False) s2"
    by (simp add: accept_net_def a c Let_def s2_def p_def allocate_frame [OF a])
  ultimately have "net_inv (accept_net remote s)" by (simp add: net_inv_peer_send)
  moreover have "find_peer (accept_net remote s) = (find_peer s)(host \<mapsto>
       peer_send (m_data (connection_hint (settings (m_config s)))) False p)"
    by (rule ext) (simp add: eq find_on_peer f2)
  ultimately show ?thesis using that n(1,2) ids eq by (simp add: p_def)
qed

section \<open>Every handler is safe\<close>

lemma parser_next_rest: "parser_next p = (Inl e, p') \<Longrightarrow> p' = p"
  by (auto simp: parser_next_def Let_def split: sum.splits prod.splits if_splits)

lemma evolves_parser [simp]: "evolves p (p\<lparr>m_parser := x\<rparr>)" "evolves p (p\<lparr>m_last_receive := t\<rparr>)"
  by (simp_all add: evolves_def)

lemma peer_ok_parser [simp]:
  "peer_ok (p\<lparr>m_parser := x\<rparr>) \<longleftrightarrow> peer_ok p" "peer_ok (p\<lparr>m_last_receive := t\<rparr>) \<longleftrightarrow> peer_ok p"
  by (simp_all add: peer_ok_def queue_ok_def sent_def)

context event_handler
begin

lemma on_peer_evolves:
  assumes "safe app_inv w"
    and "\<And>p. find_peer (m_net w) h = Some p \<Longrightarrow> peer_ok p \<Longrightarrow> m_state p \<noteq> closed \<Longrightarrow>
      peer_ok (f p) \<and> m_state (f p) \<noteq> closed \<and> evolves p (f p)"
  shows "safe app_inv (with_net (on_peer h f) w) \<and> evolved (m_net w) (m_net (with_net (on_peer h f) w))"
proof -
  have f: "peer_ok (f p) \<and> m_state (f p) \<noteq> closed \<and> evolves p (f p)"
    if "find_peer (m_net w) h = Some p" for p
    using assms that by (auto simp: safe_def net_inv_def peers_ok_def no_closed_def)
  have "net_inv (on_peer h f (m_net w))"
    using assms(1) f by (intro net_inv_on_peer) (auto simp: safe_def evolves_def)
  moreover have "no_closed (on_peer h f (m_net w))"
    using assms(1) f by (intro no_closed_on_peer) (auto simp: safe_def)
  moreover have "app_inv (with_net (on_peer h f) w)"
    using assms(1) settled_on_peer [of "m_net w" h f] f by (intro inv_with_net) (auto simp: safe_def evolves_def)
  moreover have "evolved (m_net w) (on_peer h f (m_net w))" using f by (intro evolved_on_peer) auto
  ultimately show ?thesis by (simp add: safe_def)
qed

text \<open>The loop ends within its fuel and hands back a safe state.\<close>

lemma frames_loop_total:
  "safe app_inv w \<Longrightarrow> buffered (m_net w) h < fuel \<Longrightarrow>
   \<exists>w'. frames_loop fuel sink h w = Some w' \<and> safe app_inv w' \<and> evolved (m_net w) (m_net w')"
proof (induction fuel arbitrary: w)
  case (Suc fuel)
  show ?case
  proof (cases "find_peer (m_net w) h")
    case None
    with Suc.prems show ?thesis by simp
  next
    case (Some p)
    obtain res parser where n: "parser_next (m_parser p) = (res, parser)" by force
    define w1 where "w1 = with_net (on_peer h (\<lambda>p. p\<lparr>m_parser := parser\<rparr>)) w"
    have w1: "safe app_inv w1 \<and> evolved (m_net w) (m_net w1)"
      unfolding w1_def using Suc.prems(1) by (rule on_peer_evolves) simp
    show ?thesis
    proof (cases res)
      case (Inl e)
      then show ?thesis
        using Some n w1 close_safe [of w1 h]
        by (auto simp: w1_def [symmetric] Let_def intro: evolved_trans keeps_evolved)
    next
      case (Inr frame)
      define w2 where "w2 = snd (process_payload sink h frame False w1)"
      have w2: "safe app_inv w2" "keeps (m_net w1) (m_net w2)"
        using process_payload_safe w1 by (auto simp: w2_def)
      have ev: "evolved (m_net w) (m_net w2)" using w1 w2 evolved_trans keeps_evolved by blast
      have "buffered (m_net w2) h < fuel" if "find_peer (m_net w2) h = Some q" for q
      proof -
        have "m_parser q = parser"
          using keeps_find [OF w2(2) that] Some by (auto simp: w1_def find_on_peer)
        moreover have "length (m_buffer parser) + 4 \<le> length (m_buffer (m_parser p))"
          using parser_next_shrinks n Inr by blast
        ultimately show ?thesis using that Some Suc.prems(2) by (simp add: buffered_def)
      qed
      then have "\<exists>w'. frames_loop fuel sink h w2 = Some w' \<and> safe app_inv w' \<and> evolved (m_net w2) (m_net w')"
        if "peer_open (m_net w2) h"
        using that Suc.IH [OF w2(1)] by (auto simp: peer_open_def split: option.splits)
      then show ?thesis
        using Some n Inr ev w2(1)
        by (auto simp: w1_def [symmetric] w2_def [symmetric] Let_def intro: evolved_trans)
    qed
  qed
qed simp

lemma touch_feed_safe:
  fixes h data
  assumes "safe app_inv w"
  defines "w' \<equiv> with_net (\<lambda>s. on_peer h (\<lambda>p. p\<lparr>m_parser := feed data (m_parser p)\<rparr>) (touch h s)) w"
  shows "safe app_inv w' \<and> evolved (m_net w) (m_net w')"
proof -
  obtain now c where c: "clock_now (m_clock (m_net w)) = (now, c)" by force
  let ?a = "with_net (\<lambda>s. s\<lparr>m_clock := c\<rparr>) w"
  let ?b = "with_net (on_peer h (\<lambda>p. p\<lparr>m_last_receive := now\<rparr>)) ?a"
  have a: "safe app_inv ?a" "evolved (m_net w) (m_net ?a)"
    using clock_safe [OF assms(1)] by (auto simp: evolved_def)
  have b: "safe app_inv ?b \<and> evolved (m_net ?a) (m_net ?b)" using a(1) by (rule on_peer_evolves) simp
  have "w' = with_net (on_peer h (\<lambda>p. p\<lparr>m_parser := feed data (m_parser p)\<rparr>)) ?b"
    by (simp add: w'_def with_net_def touch_def c)
  moreover have "safe app_inv (with_net (on_peer h (\<lambda>p. p\<lparr>m_parser := feed data (m_parser p)\<rparr>)) ?b) \<and>
      evolved (m_net ?b) (m_net (with_net (on_peer h (\<lambda>p. p\<lparr>m_parser := feed data (m_parser p)\<rparr>)) ?b))"
    using conjunct1 [OF b] by (rule on_peer_evolves) simp
  ultimately show ?thesis using a(2) b evolved_trans by metis
qed

lemma read_done_total:
  assumes "safe app_inv w"
  shows "\<exists>w'. read_done sink h result w = Some w' \<and> safe app_inv w' \<and> evolved (m_net w) (m_net w')"
proof (cases result)
  case None
  then show ?thesis using close_safe [OF assms] by (auto simp: read_done_def intro: keeps_evolved)
next
  case (Some data)
  let ?w = "with_net (\<lambda>s. on_peer h (\<lambda>p. p\<lparr>m_parser := feed data (m_parser p)\<rparr>) (touch h s)) w"
  have "safe app_inv ?w \<and> evolved (m_net w) (m_net ?w)" using assms by (rule touch_feed_safe)
  then show ?thesis
    using frames_loop_total [of ?w h "Suc (buffered (m_net ?w) h)"] Some evolved_trans
    by (auto simp: read_done_def Let_def simp del: frames_loop.simps with_net_simps)
qed

lemma write_done_safe:
  assumes "safe app_inv w"
  shows "safe app_inv (write_done sink h failed w) \<and> evolved (m_net w) (m_net (write_done sink h failed w))"
proof -
  have "safe app_inv (with_net (on_peer h write_next) w) \<and> evolved (m_net w) (m_net (with_net (on_peer h write_next) w))"
  proof (rule on_peer_evolves [OF assms])
    fix p :: "'u peer"
    assume p: "peer_ok p" "m_state p \<noteq> closed"
    have "quiet (write_next p) = quiet p" by simp
    with p quiet_eqD [OF this] queue_ok_write_next [of p]
    show "peer_ok (write_next p) \<and> m_state (write_next p) \<noteq> closed \<and> evolves p (write_next p)"
      by (simp add: peer_ok_def evolves_def)
  qed
  then show ?thesis using close_safe [OF assms] keeps_evolved by (auto simp: write_done_def)
qed

lemma timer_done_safe:
  assumes "safe app_inv w"
  shows "safe app_inv (timer_done sink c w) \<and> evolved (m_net w) (m_net (timer_done sink c w))"
proof (cases c)
  case False
  obtain now k where k: "clock_now (m_clock (m_net w)) = (now, k)" by force
  let ?w = "with_net (\<lambda>s. s\<lparr>m_clock := k\<rparr>) w"
  have w: "safe app_inv ?w" "evolved (m_net w) (m_net ?w)"
    using clock_safe [OF assms] by (auto simp: evolved_def)
  with False k close_all_safe [OF w(1)] show ?thesis
    by (auto simp: timer_done_def Let_def simp del: with_net_simps intro: evolved_trans keeps_evolved)
qed (simp add: timer_done_def assms)

lemma accept_safe:
  assumes "safe app_inv w" "length (m_peers (m_net w)) < 2 ^ 30"
  shows "safe app_inv (accept_done socket w)"
proof (cases socket)
  case (Some remote)
  obtain host now where h: "net_inv (accept_net remote (m_net w))"
    "find_peer (accept_net remote (m_net w)) = (find_peer (m_net w))(host \<mapsto>
       peer_send (m_data (connection_hint (settings (m_config (m_net w))))) False (peer_new host remote now))"
    "m_groups (accept_net remote (m_net w)) = m_groups (m_net w)" "host \<notin> client_ids (m_net w)"
    using accept_net_effect [OF _ assms(2), of remote] assms(1) unfolding safe_def by blast
  have "no_closed (accept_net remote (m_net w))"
    using assms(1) by (auto simp: no_closed_def safe_def h(2) peer_new_def)
  moreover have "settled (m_net w) \<subseteq> settled (accept_net remote (m_net w))"
    using h(2,4) by (auto simp: settled_def client_ids_def)
  ultimately show ?thesis
    using h Some assms by (auto simp: accept_done_eq safe_def intro!: inv_with_net)
qed (simp add: accept_done_eq assms)

lemma step_safe: "safe app_inv w \<Longrightarrow> net_step sink w w' \<Longrightarrow> safe app_inv w'"
proof (erule net_stepE)
  fix h result
  assume "safe app_inv w" "read_done sink h result w = Some w'"
  then show "safe app_inv w'" using read_done_total [of w h result] by auto
qed (use accept_safe write_done_safe timer_done_safe close_all_safe in \<open>auto simp: server_stop_def\<close>)

lemma reachable_safe: "reachable sink w0 w \<Longrightarrow> safe app_inv w0 \<Longrightarrow> safe app_inv w"
  by (induction rule: reachable.induct) (auto intro: step_safe)

text \<open>A step that is not an \<open>accept\<close> brings no new client and moves every client forward only.\<close>

lemma step_evolves:
  assumes "safe app_inv w" "net_step sink w w'" "find_peer (m_net w') h = Some p'"
  shows "(\<exists>p. find_peer (m_net w) h = Some p \<and> evolves p p') \<or>
    find_peer (m_net w) h = None \<and> m_state p' = awaiting_public_key"
  using assms(2)
proof cases
  case (step_accept socket)
  show ?thesis
  proof (cases socket)
    case None
    with step_accept assms show ?thesis by (simp add: accept_done_eq)
  next
    case (Some remote)
    obtain host now where "host \<notin> client_ids (m_net w)" "find_peer (accept_net remote (m_net w)) = (find_peer (m_net w))(host \<mapsto>
       peer_send (m_data (connection_hint (settings (m_config (m_net w))))) False (peer_new host remote now))"
      using accept_net_effect [OF _ step_accept(2), of remote] assms(1) unfolding safe_def by blast
    with Some step_accept assms(3) show ?thesis
      by (auto simp: accept_done_eq client_ids_def domIff peer_new_def split: if_splits)
  qed
next
  case (step_read k result)
  then have "evolved (m_net w) (m_net w')" using read_done_total [OF assms(1), of k result] by auto
  with assms(3) show ?thesis by (auto simp: evolved_def)
next
  case (step_write k failed)
  then have "evolved (m_net w) (m_net w')" using write_done_safe [OF assms(1)] by simp
  with assms(3) show ?thesis by (auto simp: evolved_def)
next
  case (step_timer c)
  then have "evolved (m_net w) (m_net w')" using timer_done_safe [OF assms(1)] by simp
  with assms(3) show ?thesis by (auto simp: evolved_def)
next
  case step_stop
  then have "evolved (m_net w) (m_net w')"
    using close_all_safe [OF assms(1)] keeps_evolved by (auto simp: server_stop_def)
  with assms(3) show ?thesis by (auto simp: evolved_def)
qed

end

section \<open>Closing and timeouts, for every application\<close>

lemma is_stale_quiet: "quiet p = quiet q \<Longrightarrow> is_stale now limit p = is_stale now limit q"
  using quiet_eqD(7) [of p q] by (simp add: is_stale_def)

context event_handler
begin

lemma close_find:
  assumes "safe app_inv w"
  shows "map_option quiet (find_peer (m_net (peer_close sink h w)) k) =
    (if k = h then None else map_option quiet (find_peer (m_net w) k))"
proof (cases "find_peer (m_net w) h")
  case (Some p)
  then have o: "m_state p \<noteq> closed" using assms no_closed_find by (auto simp: safe_def)
  define w1 where "w1 = with_net (mark_closed h) w"
  define w2 where "w2 = (if m_state p = connected then on_client_leave sink h w1 else w1)"
  have "app_inv w1" "net_inv (m_net w1)"
    using assms settled_mark_closed by (auto simp: w1_def safe_def net_inv_mark_closed intro!: inv_with_net)
  then have "talk\<^sup>*\<^sup>* (mark_closed h (m_net w)) (m_net w2)"
    using leave_talks [of w1 h] by (auto simp: w2_def w1_def)
  moreover have "peer_close sink h w = with_net (on_peer_closed h) w2"
    using Some o by (simp add: peer_close_def w1_def w2_def Let_def)
  ultimately show ?thesis using find_close [of h "m_net w" "m_net w2" k] by simp
qed (simp add: peer_close_def)

lemma close_all_find:
  "safe app_inv w \<Longrightarrow> map_option quiet (find_peer (m_net (fold (peer_close sink) hs w)) k) =
    (if k \<in> set hs then None else map_option quiet (find_peer (m_net w) k))"
proof (induction hs arbitrary: w)
  case (Cons h hs)
  have "safe app_inv (peer_close sink h w)" using close_safe [OF Cons.prems] by blast
  from Cons.IH [OF this] close_find [OF Cons.prems] show ?case by auto
qed simp

text \<open>The timer closes the silent connections and no other.\<close>

lemma timer_find:
  assumes "safe app_inv w" "clock_now (m_clock (m_net w)) = (now, c)"
  shows "map_option quiet (find_peer (m_net (timer_done sink False w)) k) =
    (case find_peer (m_net w) k of
       None \<Rightarrow> None
     | Some p \<Rightarrow> if is_stale now (timeout (m_config (m_net w))) p then None else Some (quiet p))"
proof -
  let ?w = "with_net (\<lambda>s. s\<lparr>m_clock := c\<rparr>) w"
  let ?stale = "map fst (filter (\<lambda>(h, p). is_stale now (timeout (m_config (m_net w))) p) (m_peers (m_net w)))"
  have w: "safe app_inv ?w" using clock_safe [OF assms(1)] .
  have ok: "omap_ok (m_peers (m_net w))" using assms(1) by (simp add: safe_def net_inv_def peers_ok_def)
  have "timer_done sink False w = fold (peer_close sink) ?stale ?w"
    using assms(2) by (simp add: timer_done_def Let_def)
  moreover have "k \<in> set ?stale \<longleftrightarrow> (\<exists>p. find_peer (m_net w) k = Some p \<and> is_stale now (timeout (m_config (m_net w))) p)"
    using om.entries_find [OF ok] by (force simp: find_peer_def image_iff)
  ultimately show ?thesis using close_all_find [OF w, of ?stale k] by (auto split: option.split)
qed

text \<open>After \<open>stop\<close> nobody is left.\<close>

lemma stop_find: "safe app_inv w \<Longrightarrow> find_peer (m_net (server_stop sink w)) k = None"
proof -
  assume s: "safe app_inv w"
  have "map_option quiet (find_peer (m_net (server_stop sink w)) k) = None"
  proof (cases "k \<in> set (map fst (m_peers (m_net w)))")
    case False
    then have "find_peer (m_net w) k = None" by (simp add: find_peer_def map_of_eq_None_iff)
    then show ?thesis using close_all_find [OF s] by (simp add: server_stop_def)
  qed (simp add: server_stop_def close_all_find [OF s])
  then show ?thesis by simp
qed

end

section \<open>The initial state\<close>

lemma net_inv_server_new: "net_inv (server_new config g c seconds)" "no_closed (server_new config g c seconds)"
proof -
  obtain start c' where "clock_now c = (start, c')" by force
  moreover obtain i g' where "draw_bytes 16 0 255 g = (i, g')" by force
  ultimately have s: "server_new config g c seconds =
      (\<lparr>m_config = config, m_instance_guid = i, m_rng = g', m_peers = [], m_groups = [],
       m_free_ids = [], m_next_id = host_id_first_client, m_start_time = start, m_next_event_id = 1,
       m_clock = c', m_seconds = seconds\<rparr>)" by (simp add: server_new_def)
  show "net_inv (server_new config g c seconds)"
    by (simp add: s net_inv_def peers_ok_def groups_ok_def client_ids_def group_ids_def find_peer_def [abs_def]
        pool_ok_def host_id_first_client_def)
  show "no_closed (server_new config g c seconds)"
    by (simp add: s no_closed_def find_peer_def)
qed

end
