(* ===== verification/Utf_Text.thy ===== *)
theory Utf_Text
  imports Message
begin

text \<open>
  The text conversions of \<^verbatim>\<open>src/src/net/message.hpp\<close> against the Unicode encoding forms. The
  specification is arithmetic on code points (\<open>utf8_of\<close>, \<open>utf16_of\<close>); the theorems say that
  \<open>utf8_to_utf16\<close> and \<open>utf16_to_utf8\<close>, which work with masks and shifts, compute it on every text of
  Unicode scalar values, hence that a text sent by \<open>write_text\<close> is read back by \<open>read_string\<close>.
\<close>

section \<open>The encoding forms\<close>

definition scalar_value :: "nat \<Rightarrow> bool" where
  "scalar_value c \<longleftrightarrow> c < 0xD800 \<or> 0xE000 \<le> c \<and> c < 0x110000"

definition utf8_of :: "nat \<Rightarrow> bytes" where
  "utf8_of c = map of_nat
     (if c < 0x80 then [c]
      else if c < 0x800 then [0xC0 + c div 64, 0x80 + c mod 64]
      else if c < 0x10000 then [0xE0 + c div 4096, 0x80 + c div 64 mod 64, 0x80 + c mod 64]
      else [0xF0 + c div 262144, 0x80 + c div 4096 mod 64, 0x80 + c div 64 mod 64, 0x80 + c mod 64])"

definition utf16_of :: "nat \<Rightarrow> u16 list" where
  "utf16_of c = map of_nat
     (if c < 0x10000 then [c]
      else [0xD800 + (c - 0x10000) div 1024, 0xDC00 + (c - 0x10000) mod 1024])"

definition utf8_text :: "nat list \<Rightarrow> str" where
  "utf8_text cs = concat (map utf8_of cs)"

definition utf16_text :: "nat list \<Rightarrow> u16 list" where
  "utf16_text cs = concat (map utf16_of cs)"

definition valid_text :: "str \<Rightarrow> bool" where
  "valid_text s \<longleftrightarrow> (\<exists>cs. (\<forall>c \<in> set cs. scalar_value c) \<and> s = utf8_text cs)"

section \<open>Masks and shifts as arithmetic\<close>

lemma or_consts:
  "x < 32 \<Longrightarrow> (0xC0 :: u32) OR of_nat x = of_nat (0xC0 + x)"
  "x < 16 \<Longrightarrow> (0xE0 :: u32) OR of_nat x = of_nat (0xE0 + x)"
  "x < 8 \<Longrightarrow> (0xF0 :: u32) OR of_nat x = of_nat (0xF0 + x)"
  "x < 64 \<Longrightarrow> (0x80 :: u32) OR of_nat x = of_nat (0x80 + x)"
  using or_of_nat_const [of x 5 6, where 'a = 32] or_of_nat_const [of x 4 14, where 'a = 32]
    or_of_nat_const [of x 3 30, where 'a = 32] or_of_nat_const [of x 6 2, where 'a = 32]
  by simp_all

lemma and_consts:
  "(of_nat x :: u32) AND 0x3F = of_nat (x mod 64)"
  "(of_nat x :: u32) AND 0x3FF = of_nat (x mod 1024)"
  using and_mask_of_nat [of x 6, where 'a = 32] and_mask_of_nat [of x 10, where 'a = 32]
  by (simp_all add: mask_eq_exp_minus_1)

lemma le_of_nat_u32:
  assumes "x < 2 ^ 32" "y < 2 ^ 32"
  shows "(of_nat x :: u32) \<le> of_nat y \<longleftrightarrow> x \<le> y" "(of_nat x :: u32) < of_nat y \<longleftrightarrow> x < y"
  using assms by (simp_all add: word_le_nat_alt word_less_nat_alt unat_of_nat take_bit_nat_eq_self)

lemma le_of_nat_u16:
  assumes "x < 2 ^ 16" "y < 2 ^ 16"
  shows "(of_nat x :: u16) \<le> of_nat y \<longleftrightarrow> x \<le> y"
  using assms by (simp add: word_le_nat_alt unat_of_nat take_bit_nat_eq_self)

section \<open>From UTF-8 to UTF-16\<close>

text \<open>The byte classes are finite: each is checked value by value.\<close>

lemma byte_classes:
  "\<forall>y \<in> set [0..<128]. utf8_lead (of_nat y) = (of_nat y, 0)"
  "\<forall>y \<in> set [0..<32]. utf8_lead (of_nat (0xC0 + y)) = (of_nat y, 1)"
  "\<forall>y \<in> set [0..<16]. utf8_lead (of_nat (0xE0 + y)) = (of_nat y, 2)"
  "\<forall>y \<in> set [0..<8]. utf8_lead (of_nat (0xF0 + y)) = (of_nat y, 3)"
  "\<forall>y \<in> set [0..<64]. (ucast ((of_nat (0x80 + y) :: u8) AND 0x3F) :: u32) = of_nat y"
  by code_simp+

lemma utf8_lead_of:
  "y < 128 \<Longrightarrow> utf8_lead (of_nat y) = (of_nat y, 0)"
  "y < 32 \<Longrightarrow> utf8_lead (of_nat (0xC0 + y)) = (of_nat y, 1)"
  "y < 16 \<Longrightarrow> utf8_lead (of_nat (0xE0 + y)) = (of_nat y, 2)"
  "y < 8 \<Longrightarrow> utf8_lead (of_nat (0xF0 + y)) = (of_nat y, 3)"
  using byte_classes(1-4) by (simp_all only: set_upt atLeastLessThan_iff Ball_def) auto

lemma utf8_tail_cont:
  "y < 64 \<Longrightarrow> utf8_tail (Suc k) (of_nat a) (of_nat (0x80 + y) # s) = utf8_tail k (of_nat (64 * a + y)) s"
  using byte_classes(5) or_of_nat_add [of y 6 a, where 'a = 32]
  by (simp del: of_nat_add)

lemma utf8_tails:
  "x < 64 \<Longrightarrow> utf8_tail 1 (of_nat a) (of_nat (0x80 + x) # s) = (of_nat (64 * a + x), s)"
  "x < 64 \<Longrightarrow> y < 64 \<Longrightarrow>
   utf8_tail 2 (of_nat a) (of_nat (0x80 + x) # of_nat (0x80 + y) # s) = (of_nat (64 * (64 * a + x) + y), s)"
  "x < 64 \<Longrightarrow> y < 64 \<Longrightarrow> z < 64 \<Longrightarrow>
   utf8_tail 3 (of_nat a) (of_nat (0x80 + x) # of_nat (0x80 + y) # of_nat (0x80 + z) # s) =
     (of_nat (64 * (64 * (64 * a + x) + y) + z), s)"
  by (simp_all only: One_nat_def numeral_2_eq_2 numeral_3_eq_3 utf8_tail_cont utf8_tail.simps(1))

lemma utf16_units_of_nat: "c < 0x110000 \<Longrightarrow> utf16_units (of_nat c) = utf16_of c"
proof -
  assume c: "c < 0x110000"
  have le: "(0x10000 :: u32) \<le> of_nat c \<longleftrightarrow> 0x10000 \<le> c"
    using le_of_nat_u32(1) [of "0x10000" c] c by simp
  show ?thesis
  proof (cases "0x10000 \<le> c")
    case True
    define d where "d = c - 0x10000"
    have d: "d < 0x100000" and cd: "(of_nat c :: u32) - 0x10000 = of_nat d"
      using c True by (simp_all add: d_def of_nat_diff)
    have "0xDC00 + of_nat (d mod 1024) = (of_nat (0xDC00 + d mod 1024) :: u32)"
      and "0xD800 + of_nat (d div 1024) = (of_nat (0xD800 + d div 1024) :: u32)"
      by simp_all
    then show ?thesis
      using True le d c
      by (simp add: utf16_units_def utf16_of_def cd Let_def drop_bit_of_nat_small and_consts
          ucast_of_nat_small d_def [symmetric] del: of_nat_add)
  next
    case False
    then show ?thesis
      using le by (simp add: utf16_units_def utf16_of_def ucast_of_nat_small)
  qed
qed

lemma utf8_to_utf16_Cons:
  "utf8_lead b = (c0, k) \<Longrightarrow> utf8_tail k c0 s = (of_nat c, post) \<Longrightarrow> c < 0x110000 \<Longrightarrow>
   utf8_to_utf16 (b # s) = utf16_of c @ utf8_to_utf16 post"
  by (simp add: utf16_units_of_nat)

lemma radix_64:
  fixes c :: nat
  shows "64 * (c div 64) + c mod 64 = c"
    and "64 * (64 * (c div 4096) + c div 64 mod 64) + c mod 64 = c"
    and "64 * (64 * (64 * (c div 262144) + c div 4096 mod 64) + c div 64 mod 64) + c mod 64 = c"
proof -
  have "c div 4096 = c div 64 div 64" "c div 262144 = c div 64 div 64 div 64"
    by (simp_all add: div_mult2_eq [symmetric])
  then show "64 * (c div 64) + c mod 64 = c"
    and "64 * (64 * (c div 4096) + c div 64 mod 64) + c mod 64 = c"
    and "64 * (64 * (64 * (c div 262144) + c div 4096 mod 64) + c div 64 mod 64) + c mod 64 = c"
    by (simp_all only: mult_div_mod_eq)
qed

lemma utf8_to_utf16_of:
  assumes "c < 0x110000"
  shows "utf8_to_utf16 (utf8_of c @ s) = utf16_of c @ utf8_to_utf16 s"
proof -
  consider "c < 0x80" | "0x80 \<le> c" "c < 0x800" | "0x800 \<le> c" "c < 0x10000" | "0x10000 \<le> c"
    by linarith
  then show ?thesis
  proof cases
    case 1
    then show ?thesis
      using assms by (simp add: utf8_of_def utf8_lead_of utf16_units_of_nat)
  next
    case 2
    then have *: "64 * (c div 64) + c mod 64 = c" "c div 64 < 32" by (auto simp: less_mult_imp_div_less)
    have "utf8_to_utf16 (of_nat (0xC0 + c div 64) # of_nat (0x80 + c mod 64) # s) =
          utf16_of c @ utf8_to_utf16 s"
      by (rule utf8_to_utf16_Cons [OF utf8_lead_of(2)]) (use * assms in \<open>simp_all add: utf8_tails(1) del: of_nat_add One_nat_def\<close>)
    with 2 show ?thesis by (simp add: utf8_of_def del: of_nat_add)
  next
    case 3
    then have *: "64 * (64 * (c div 4096) + c div 64 mod 64) + c mod 64 = c" "c div 4096 < 16"
      by (simp only: radix_64, simp add: less_mult_imp_div_less)
    have "utf8_to_utf16 (of_nat (0xE0 + c div 4096) # of_nat (0x80 + c div 64 mod 64) #
            of_nat (0x80 + c mod 64) # s) = utf16_of c @ utf8_to_utf16 s"
      by (rule utf8_to_utf16_Cons [OF utf8_lead_of(3)]) (use * assms in \<open>simp_all add: utf8_tails(2) del: of_nat_add\<close>)
    with 3 show ?thesis by (simp add: utf8_of_def del: of_nat_add)
  next
    case 4
    then have *: "64 * (64 * (64 * (c div 262144) + c div 4096 mod 64) + c div 64 mod 64) + c mod 64 = c"
      "c div 262144 < 8" using assms
      by (simp only: radix_64, simp add: less_mult_imp_div_less)
    have "utf8_to_utf16 (of_nat (0xF0 + c div 262144) # of_nat (0x80 + c div 4096 mod 64) #
            of_nat (0x80 + c div 64 mod 64) # of_nat (0x80 + c mod 64) # s) = utf16_of c @ utf8_to_utf16 s"
      by (rule utf8_to_utf16_Cons [OF utf8_lead_of(4)]) (use * assms in \<open>simp_all add: utf8_tails(3) del: of_nat_add\<close>)
    with 4 show ?thesis by (simp add: utf8_of_def del: of_nat_add)
  qed
qed

lemma utf8_to_utf16_text:
  "\<forall>c \<in> set cs. scalar_value c \<Longrightarrow> utf8_to_utf16 (utf8_text cs) = utf16_text cs"
proof (induction cs)
  case (Cons c cs)
  then have "c < 0x110000" by (auto simp: scalar_value_def)
  with Cons show ?case by (simp add: utf8_text_def utf16_text_def utf8_to_utf16_of)
qed (simp add: utf8_text_def utf16_text_def)

section \<open>From UTF-16 to UTF-8\<close>

lemma utf8_bytes_of_nat:
  assumes "c < 0x110000"
  shows "utf8_bytes (of_nat c) = utf8_of c"
proof -
  have le: "(of_nat c :: u32) < 0x80 \<longleftrightarrow> c < 0x80" "(of_nat c :: u32) < 0x800 \<longleftrightarrow> c < 0x800"
    "(of_nat c :: u32) < 0x10000 \<longleftrightarrow> c < 0x10000"
    using le_of_nat_u32(2) [of c "0x80"] le_of_nat_u32(2) [of c "0x800"]
      le_of_nat_u32(2) [of c "0x10000"] assms by simp_all
  have d: "drop_bit 6 (of_nat c :: u32) = of_nat (c div 64)"
    "drop_bit 12 (of_nat c :: u32) = of_nat (c div 4096)"
    "drop_bit 18 (of_nat c :: u32) = of_nat (c div 262144)"
    using assms by (simp_all add: drop_bit_of_nat_small)
  have u: "(ucast (of_nat x :: u32) :: u8) = of_nat x" if "x < 2 ^ 32" for x
    using that by (simp add: ucast_of_nat_small)
  have b: "x < 256 \<Longrightarrow> x < 2 ^ 32" for x :: nat by simp
  have "c < 0x800 \<Longrightarrow> c div 64 < 32" "c < 0x10000 \<Longrightarrow> c div 4096 < 16" "c div 262144 < 8"
    using assms by (simp_all add: less_mult_imp_div_less)
  then show ?thesis
    using assms
    by (simp add: utf8_bytes_def utf8_of_def le d and_consts or_consts u del: of_nat_add)
qed

lemma utf16_to_utf8_single:
  assumes "scalar_value c" "c < 0x10000"
  shows "utf16_to_utf8 (of_nat c # w) = utf8_of c @ utf16_to_utf8 w"
proof -
  have "\<not> ((of_nat c :: u16) \<ge> 0xD800 \<and> (of_nat c :: u16) \<le> 0xDBFF)"
    using le_of_nat_u16 [of "0xD800" c] le_of_nat_u16 [of c "0xDBFF"] assms
    by (auto simp: scalar_value_def)
  moreover have "utf8_bytes (ucast (of_nat c :: u16)) = utf8_of c"
    using assms by (simp add: ucast_of_nat_small utf8_bytes_of_nat)
  ultimately show ?thesis by (cases w) auto
qed

lemma utf16_to_utf8_pair:
  assumes "d < 0x100000"
  shows "utf16_to_utf8 (of_nat (0xD800 + d div 1024) # of_nat (0xDC00 + d mod 1024) # w) =
         utf8_of (0x10000 + d) @ utf16_to_utf8 w"
proof -
  define x y where "x = 0xD800 + d div 1024" and "y = 0xDC00 + d mod 1024"
  have hi: "d div 1024 < 1024" using assms by (simp add: less_mult_imp_div_less)
  have lo: "d mod 1024 < 1024" by simp
  have xy: "x < 2 ^ 16" "y < 2 ^ 16" "0xD800 \<le> x" "x \<le> 0xDBFF" "0xDC00 \<le> y" "y \<le> 0xDFFF"
    unfolding x_def y_def using hi lo by simp_all
  have cond: "(of_nat x :: u16) \<ge> 0xD800 \<and> (of_nat x :: u16) \<le> 0xDBFF \<and>
        (of_nat y :: u16) \<ge> 0xDC00 \<and> (of_nat y :: u16) \<le> 0xDFFF"
    using le_of_nat_u16 [of "0xD800" x] le_of_nat_u16 [of x "0xDBFF"]
      le_of_nat_u16 [of "0xDC00" y] le_of_nat_u16 [of y "0xDFFF"] xy by simp
  have "(ucast (of_nat x :: u16) :: u32) - 0xD800 = of_nat (d div 1024)"
    "(ucast (of_nat y :: u16) :: u32) - 0xDC00 = of_nat (d mod 1024)"
    using xy by (simp_all add: ucast_of_nat_small, simp_all add: x_def y_def)
  moreover have "(of_nat d :: u32) = of_nat (d div 1024) * 1024 + of_nat (d mod 1024)"
    by (metis div_mult_mod_eq of_nat_add of_nat_mult of_nat_numeral)
  ultimately have "0x10000 + push_bit 10 ((ucast (of_nat x :: u16) :: u32) - 0xD800) +
        (ucast (of_nat y :: u16) - 0xDC00) = of_nat (0x10000 + d)"
    by (simp add: push_bit_eq_mult)
  then show ?thesis
    using assms cond by (simp add: utf8_bytes_of_nat x_def [symmetric] y_def [symmetric] del: of_nat_add)
qed

lemma utf16_to_utf8_of:
  assumes "scalar_value c"
  shows "utf16_to_utf8 (utf16_of c @ w) = utf8_of c @ utf16_to_utf8 w"
proof (cases "c < 0x10000")
  case True
  then show ?thesis using assms by (simp add: utf16_of_def utf16_to_utf8_single)
next
  case False
  with assms show ?thesis
    using utf16_to_utf8_pair [of "c - 0x10000" w]
    by (auto simp: utf16_of_def scalar_value_def simp del: of_nat_add)
qed

lemma utf16_to_utf8_text:
  "\<forall>c \<in> set cs. scalar_value c \<Longrightarrow> utf16_to_utf8 (utf16_text cs) = utf8_text cs"
  by (induction cs) (simp_all add: utf8_text_def utf16_text_def utf16_to_utf8_of)

lemma valid_text_round_trip: "valid_text s \<Longrightarrow> utf16_to_utf8 (utf8_to_utf16 s) = s"
  by (auto simp: valid_text_def utf8_to_utf16_text utf16_to_utf8_text)

section \<open>Size of the result\<close>

text \<open>
  \<open>out.reserve(s.size())\<close> is enough for any input, well-formed or not: a surrogate pair is only
  produced from four bytes.
\<close>

lemma utf8_tail_bound:
  "unat c < 2 ^ b \<Longrightarrow> b + 6 * k \<le> 32 \<Longrightarrow> utf8_tail k c s = (c', post) \<Longrightarrow>
   \<exists>j \<le> k. length s = length post + j \<and> unat c' < 2 ^ (b + 6 * j)"
proof (induction k c s arbitrary: b rule: utf8_tail.induct)
  case (3 k c x s)
  define y where "y = unat (x AND 0x3F)"
  have "x AND 0x3F = take_bit 6 x" by (simp add: take_bit_eq_mask mask_eq_exp_minus_1)
  then have y: "y < 2 ^ 6"
    unfolding y_def by (simp only: unat_take_bit_less)
  have "push_bit 6 c OR ucast (x AND 0x3F) = (of_nat (2 ^ 6 * unat c + y) :: u32)"
    using or_of_nat_add [OF y, of "unat c", where 'a = 32] by (simp add: y_def unsigned_ucast_eq)
  moreover have "2 ^ 6 * unat c + y < 2 ^ (b + 6)"
  proof -
    have "2 ^ 6 * (unat c + 1) \<le> 2 ^ 6 * 2 ^ b" using "3.prems"(1) by (intro mult_left_mono) auto
    with y show ?thesis by (simp add: power_add)
  qed
  moreover have "(2 :: nat) ^ (b + 6) \<le> 2 ^ 32" using "3.prems"(2) by (intro power_increasing) auto
  ultimately have "unat (push_bit 6 c OR ucast (x AND 0x3F)) < 2 ^ (b + 6)"
    by (simp add: unat_of_nat take_bit_nat_eq_self del: of_nat_add of_nat_mult)
  from "3.IH" [OF this] "3.prems" obtain j where
    "j \<le> k" "length s = length post + j" "unat c' < 2 ^ (b + 6 + 6 * j)" by auto
  then show ?case by (intro exI [of _ "Suc j"]) (simp add: ac_simps)
qed auto

lemma utf8_lead_bound:
  "utf8_lead b = (c, k) \<Longrightarrow> (k, unat c < 2 ^ 7) = (0, True) \<or> (k, unat c < 2 ^ 5) = (1, True) \<or>
     (k, unat c < 2 ^ 4) = (2, True) \<or> (k, unat c < 2 ^ 3) = (3, True)"
proof -
  assume l: "utf8_lead b = (c, k)"
  have m: "b AND 0x1F = take_bit 5 b" "b AND 0x0F = take_bit 4 b" "b AND 0x07 = take_bit 3 b"
    by (simp_all add: take_bit_eq_mask mask_eq_exp_minus_1)
  show ?thesis
    using l unat_ucast_take_bit_less [of 5 b, where 'a = 32] unat_ucast_take_bit_less [of 4 b, where 'a = 32]
      unat_ucast_take_bit_less [of 3 b, where 'a = 32]
    by (auto simp: utf8_lead_def m unsigned_ucast_eq word_less_nat_alt take_bit_nat_eq_self split: if_splits)
qed

lemma length_utf16_units:
  "length (utf16_units c) \<le> 2" "unat c < 0x10000 \<Longrightarrow> length (utf16_units c) = 1"
  by (auto simp: utf16_units_def word_le_nat_alt Let_def)

lemma length_utf8_to_utf16: "length (utf8_to_utf16 s) \<le> length s"
proof (induction s rule: utf8_to_utf16.induct)
  case (2 b s)
  obtain c0 k where lead: "utf8_lead b = (c0, k)" by force
  obtain c post where tail: "utf8_tail k c0 s = (c, post)" by force
  have IH: "length (utf8_to_utf16 post) \<le> length post" using 2 lead tail by auto
  have "length (utf16_units c) + length post \<le> Suc (length s)"
  proof -
    obtain n where n: "(k, n) \<in> {(0, 7), (1, 5), (2, 4), (3, 3)}" "unat c0 < 2 ^ n"
      using utf8_lead_bound [OF lead] by auto
    with utf8_tail_bound [OF n(2) _ tail] obtain j where
      j: "j \<le> k" "length s = length post + j" "unat c < 2 ^ (n + 6 * j)" by auto
    show ?thesis
    proof (cases "n + 6 * j \<le> 16")
      case True
      then have "(2 :: nat) ^ (n + 6 * j) \<le> 2 ^ 16" by (intro power_increasing) auto
      with j show ?thesis using length_utf16_units(2) [of c] by simp
    next
      case False
      with n j have "j = 3" by auto
      with j show ?thesis using length_utf16_units(1) [of c] by linarith
    qed
  qed
  with IH show ?case by (simp add: lead tail)
qed simp

section \<open>Text on the wire\<close>

lemma u16_of_image_image [simp]: "u16_of_image (u16_image s) = s"
proof -
  have "u16_of_image (le_bytes 2 x @ bs) = x # u16_of_image bs" for x bs
  proof -
    obtain a b where ab: "le_bytes 2 x = [a, b]"
      by (simp add: le_bytes_def upt_conv_Cons numeral_2_eq_2)
    have "le_word (le_bytes 2 x) = x" by simp
    with ab show ?thesis by simp
  qed
  then show ?thesis by (induction s) (simp_all add: u16_image_def)
qed

lemma length_u16_image [simp]: "length (u16_image s) = length s * 2"
  by (induction s) (simp_all add: u16_image_def)

text \<open>A text the wire carries: Unicode text of a length a string can have.\<close>

definition wire_text :: "str \<Rightarrow> bool" where
  "wire_text s \<longleftrightarrow> valid_text s \<and> length s \<le> u16string_max_size"

interpretation textc: wire_codec text_bytes read_string wire_text
proof unfold_locales
  fix s pre post assume "wire_text s"
  then have v: "valid_text s" and l: "length (utf8_to_utf16 s) \<le> u16string_max_size"
    using length_utf8_to_utf16 [of s] by (auto simp: wire_text_def)
  then have "length (utf8_to_utf16 s) < 2 ^ 63" by (simp add: u16string_max_size_def)
  then show "read_string (reader_at pre (text_bytes s @ post)) =
        Inr (s, reader_at (pre @ text_bytes s) post)"
    using l by (simp add: read_string_def text_bytes_eq codec_simps scalarc.rbind_dec sint_ssize unat_ssize
        rbind_def [of "take_bytes _"] take_bytes_append rreturn_def valid_text_round_trip [OF v])
qed

lemma wire_text_Nil [simp]: "wire_text []"
  by (auto simp: wire_text_def valid_text_def utf8_text_def intro: exI [of _ "[]"])

text \<open>Short texts can be sent, and take about two bytes per character.\<close>

lemma short_wire_text: "valid_text s \<Longrightarrow> length s \<le> 2 ^ 16 \<Longrightarrow> wire_text s"
  by (simp add: wire_text_def u16string_max_size_def)

lemma length_text_bytes: "length (text_bytes s) \<le> 10 + 2 * length s"
  using length_scalar_bytes [of "ssize (utf8_to_utf16 s)"] length_utf8_to_utf16 [of s] by (auto simp: text_bytes_eq)

end
