(* ===== verification/Proudnet_Channel.thy ===== *)
theory Proudnet_Channel
  imports Proudnet_Reach Utf_Text
begin

text \<open>
  What the ProudNet handlers do for a well-behaved client: the key exchange hands over the session
  key, encrypted messages are unwrapped once and in order, relayed messages reach exactly the
  connected addressees, groups tell every member about the others, and timeouts close the silent
  connections only.
\<close>

section \<open>The encrypted channel\<close>

lemma omap_put_same: "omap_ok m \<Longrightarrow> map_of m k = Some v \<Longrightarrow> omap_put k v m = m"
proof (induction m)
  case (Cons e m)
  obtain k' v' where e: "e = (k', v')" by force
  have "\<not> k < k'" if "map_of m k = Some v"
    using map_of_SomeD [OF that] Cons.prems(1) by (auto simp: omap_ok_def e dest!: bspec)
  with Cons e show ?case by (auto simp: omap_ok_def split: if_splits)
qed simp

lemma on_peer_same: "omap_ok (m_peers s) \<Longrightarrow> find_peer s h = Some p \<Longrightarrow> on_peer h (\<lambda>_. p) s = s"
  by (simp add: on_peer_def find_peer_def omap_put_same)

lemma encrypt_payload_eq:
  "encrypt_payload key serial payload =
     (let cipher = rc4_apply key (le_bytes 2 serial @ payload)
      in encrypted_reliable # 1 # scalar_bytes (ssize cipher) @ cipher)"
  by (simp add: encrypt_payload_def wire_simps Let_def)

text \<open>What arrives: the mode and length are read over, the plaintext starts with the serial.\<close>

lemma on_encrypted_reliable:
  assumes "m_session_key p \<noteq> []"
  shows "on_encrypted True
    (reader_at pre (1 # scalar_bytes (ssize cipher) @ rc4_apply (m_session_key p) (le_bytes 2 serial @ payload))) p =
    (if serial \<noteq> m_recv_serial p then (Inr None, p)
     else (Inr (Some payload), p\<lparr>m_recv_serial := m_recv_serial p + 1\<rparr>))"
proof -
  have "rbind read_u8 (\<lambda>_. read_scalar) (reader_at pre (1 # scalar_bytes (ssize cipher) @ x)) =
      Inr (ssize cipher, reader_at (pre @ [1] @ scalar_bytes (ssize cipher)) x)" for x
    by (simp add: codec_simps scalarc.dec_enc)
  then show ?thesis
    using assms by (simp add: on_encrypted_def rc4.apply_involution message_reader_new_at codec_simps)
qed

lemma read_type: "read_u8 (message_reader_new (t # x)) = Inr (t, reader_at [t] x)"
  by (simp add: message_reader_new_at codec_simps)

lemma process_encrypted:
  assumes "find_peer (m_net w) h = Some p" "m_session_key p \<noteq> []"
  shows "process_payload sink h (encrypt_payload (m_session_key p) serial payload) False w =
    (if serial \<noteq> m_recv_serial p then (Inr (), with_net (on_peer h (\<lambda>_. p)) w)
     else process_payload sink h payload True
       (with_net (on_peer h (\<lambda>_. p\<lparr>m_recv_serial := m_recv_serial p + 1\<rparr>)) w))"
  using assms on_encrypted_reliable [OF assms(2), of "[encrypted_reliable]"
      "rc4_apply (m_session_key p) (le_bytes 2 serial @ payload)" serial payload]
  by (subst process_payload.simps) (simp add: encrypt_payload_eq Let_def read_type message_type_defs)

section \<open>Relays\<close>

definition unreliable_relay_payload :: "host_id \<Rightarrow> bytes \<Rightarrow> bytes" where
  "unreliable_relay_payload from_id payload = unreliable_relay2 # le_bytes 4 from_id @ byte_array_bytes payload"

definition reliable_relay_payload :: "host_id \<Rightarrow> u32 \<Rightarrow> bytes \<Rightarrow> bytes" where
  "reliable_relay_payload from_id frame data =
     reliable_relay2 # le_bytes 4 from_id @ le_bytes 4 frame @ byte_array_bytes data"

lemma sent_to_relay_loop:
  "sent_to (snd (fold (\<lambda>i (seen, s). if i \<in> set seen then (seen, s) else (oset_add i seen, server_send i m False s))
     xs (seen, s))) h =
   sent_to s h @ (if h \<in> set xs \<and> h \<notin> set seen \<and> is_connected s h then [make_frame (m_data m)] else [])"
proof (induction xs arbitrary: seen s)
  case (Cons x xs)
  show ?case
  proof (cases "x \<in> set seen")
    case True
    with Cons show ?thesis by auto
  next
    case False
    with Cons.IH [of "oset_add x seen" "server_send x m False s"] show ?thesis
      by (auto simp: sent_to_server_send same_net_connected [OF same_net_server_send])
  qed
qed simp

lemma read_many_u32:
  "read_many (length xs) read_u32 (reader_at pre (concat (map (le_bytes 4) xs) @ post)) =
     Inr (xs, reader_at (pre @ concat (map (le_bytes 4) xs)) post)"
  by (rule u32c.read_many_dec) simp

interpretation destc: wire_codec "\<lambda>(d, f). le_bytes 4 d @ le_bytes 4 f" read_dest "\<lambda>_. True"
  by unfold_locales (auto simp: read_dest_def codec_simps rreturn_def)

lemma read_length_take: "rbind read_length take_bytes = read_byte_array"
  by (simp add: read_byte_array_def)

lemma relay_unreliable_sends:
  fixes priority unique
  assumes "length payload < 2 ^ 63" "length dests < 2 ^ 63"
  defines "request \<equiv> priority # scalar_bytes unique @ scalar_bytes (ssize dests) @ concat (map (le_bytes 4) dests) @
    byte_array_bytes payload"
  shows "\<exists>s'. relay_unreliable from_id (reader_at pre request) s = (Inr (), s') \<and>
    (\<forall>h. sent_to s' h = sent_to s h @
       (if (\<exists>d \<in> set dests. h \<in> set (destinations (m_groups s) from_id d)) \<and> is_connected s h
        then [make_frame (unreliable_relay_payload from_id payload)] else []))"
proof -
  let ?w = "writes [write_u8 unreliable_relay2, write_u32 from_id, write_scalar (ssize payload),
    write_bytes payload] message_writer_new"
  have w: "m_data ?w = unreliable_relay_payload from_id payload"
    by (simp add: wire_simps unreliable_relay_payload_def byte_array_bytes_eq)
  have n: "nat (sint (ssize dests)) = length dests" using sint_ssize [OF assms(2)] by simp
  have read: "rbind read_u8 (\<lambda>_. rbind read_scalar (\<lambda>_. rbind read_scalar (\<lambda>count.
      rbind (read_many (nat (sint count)) read_u32) (\<lambda>dests.
      rbind (rbind read_length take_bytes) (\<lambda>payload. rreturn (dests, payload)))))) (reader_at pre request) =
    Inr ((dests, payload), reader_at (pre @ request) [])"
    using assms(1)
    by (simp add: request_def codec_simps scalarc.rbind_dec n read_length_take)
      (simp add: rbind_def [of "read_many _ _"] read_many_u32 byte_arrayc.rbind_dec_end rreturn_def)
  show ?thesis
    using sent_to_relay_loop [of ?w "concat (map (destinations (m_groups s) from_id) dests)" "[]" s]
    by (auto simp: relay_unreliable_def read fold_fold_concat w split: prod.split)
qed

lemma sent_to_reliable_loop:
  "sent_to (fold (\<lambda>(d, f). server_send d (m f) False) dests s) h =
     sent_to s h @ (if is_connected s h then map (\<lambda>(d, f). make_frame (m_data (m f))) (filter (\<lambda>(d, f). d = h) dests) else [])"
  by (induction dests arbitrary: s)
    (auto simp: sent_to_server_send same_net_connected [OF same_net_server_send])

lemma relay_reliable_sends:
  assumes "length data < 2 ^ 63" "length dests < 2 ^ 63"
  defines "request \<equiv> scalar_bytes (ssize dests) @ concat (map (\<lambda>(d, f). le_bytes 4 d @ le_bytes 4 f) dests) @
    byte_array_bytes data"
  shows "\<exists>s'. relay_reliable from_id (reader_at pre request) s = (Inr (), s') \<and>
    (\<forall>h. sent_to s' h = sent_to s h @
       (if is_connected s h
        then map (\<lambda>(d, f). make_frame (reliable_relay_payload from_id f data)) (filter (\<lambda>(d, f). d = h) dests) else []))"
proof -
  have w: "m_data (writes [write_u8 reliable_relay2, write_u32 from_id, write_u32 frame, write_scalar (ssize data),
      write_bytes data] message_writer_new) = reliable_relay_payload from_id frame data" for frame
    by (simp add: wire_simps reliable_relay_payload_def byte_array_bytes_eq)
  have n: "nat (sint (ssize dests)) = length dests" using sint_ssize [OF assms(2)] by simp
  have "read_many (length dests) read_dest (reader_at (pre @ scalar_bytes (ssize dests))
      (concat (map (\<lambda>(d, f). le_bytes 4 d @ le_bytes 4 f) dests) @ byte_array_bytes data)) =
    Inr (dests, reader_at ((pre @ scalar_bytes (ssize dests)) @ concat (map (\<lambda>(d, f). le_bytes 4 d @ le_bytes 4 f) dests))
      (byte_array_bytes data))"
    by (rule destc.read_many_dec) simp
  then have read: "rbind read_scalar (\<lambda>count. rbind (read_many (nat (sint count)) read_dest) (\<lambda>dests.
      rbind (rbind read_length take_bytes) (\<lambda>data. rreturn (dests, data)))) (reader_at pre request) =
    Inr ((dests, data), reader_at (pre @ request) [])"
    using assms(1)
    by (simp add: request_def scalarc.rbind_dec n read_length_take)
      (simp add: rbind_def [of "read_many _ _"] byte_arrayc.rbind_dec_end rreturn_def)
  show ?thesis
    by (simp add: relay_reliable_def read sent_to_reliable_loop [of "\<lambda>frame. writes [write_u8 reliable_relay2,
        write_u32 from_id, write_u32 frame, write_scalar (ssize data), write_bytes data] message_writer_new"] w)
qed

section \<open>Groups\<close>

definition join_payload :: "host_id \<Rightarrow> host_id \<Rightarrow> u32 \<Rightarrow> guid \<Rightarrow> bytes" where
  "join_payload g joined event magic =
     rmi # le_bytes 2 p2p_group_member_join_unencrypted @ le_bytes 4 g @ le_bytes 4 joined @ byte_array_bytes [] @
     le_bytes 4 event @ le_bytes 4 (1 :: u32) @ magic @ [0] @ le_bytes 2 (0 :: u16)"

definition leave_payload :: "host_id \<Rightarrow> host_id \<Rightarrow> bytes" where
  "leave_payload g left_member = rmi # le_bytes 2 p2p_group_member_leave @ le_bytes 4 left_member @ le_bytes 4 g"

lemma sent_to_updates [simp]:
  "sent_to (s\<lparr>m_groups := G\<rparr>) h = sent_to s h" "sent_to (s\<lparr>m_next_event_id := e\<rparr>) h = sent_to s h"
  "is_connected (s\<lparr>m_groups := G\<rparr>) h = is_connected s h" "is_connected (s\<lparr>m_next_event_id := e\<rparr>) h = is_connected s h"
  by (simp_all add: sent_to_def is_connected_def)

lemma sent_to_notify_join:
  "sent_to (notify_group_member_join g a b s) h = sent_to s h @
     (if h = a \<and> is_connected s h
      then [make_frame (join_payload g b (m_next_event_id s) (m_instance_guid s))] else [])"
  by (auto simp: notify_group_member_join_def sent_to_server_send wire_simps join_payload_def)

lemma sent_to_notify_leave:
  "sent_to (notify_group_member_leave g a b s) h = sent_to s h @
     (if h = a \<and> is_connected s h then [make_frame (leave_payload g b)] else [])"
  by (auto simp: notify_group_member_leave_def sent_to_server_send wire_simps leave_payload_def)

lemma same_net_guid: "same_net s s' \<Longrightarrow> m_instance_guid s' = m_instance_guid s"
  by (simp add: same_net_def)

lemma sent_to_join_round:
  "\<exists>e e'. sent_to (join_round g m x s) h = sent_to s h @
     (if is_connected s h
      then (if h = m then [make_frame (join_payload g x e (m_instance_guid s))] else []) @
           (if h = x \<and> x \<noteq> m then [make_frame (join_payload g m e' (m_instance_guid s))] else []) else [])"
  by (auto simp: join_round_def Let_def sent_to_notify_join same_net_connected [OF notify_join_frame(1)]
      same_net_guid [OF notify_join_frame(1)])

text \<open>The new member hears of everyone in the group, everyone else of the new member.\<close>

lemma sent_to_join_fold:
  assumes "distinct xs"
  shows "\<exists>es e. length es = length xs \<and>
    sent_to (fold (join_round g m) xs s) h = sent_to s h @
      (if \<not> is_connected s h then []
       else if h = m then map2 (\<lambda>x e. make_frame (join_payload g x e (m_instance_guid s))) xs es
       else if h \<in> set xs then [make_frame (join_payload g m e (m_instance_guid s))] else [])"
  using assms
proof (induction xs arbitrary: s)
  case (Cons x xs)
  let ?s = "join_round g m x s"
  obtain es e where IH: "length es = length xs" "sent_to (fold (join_round g m) xs ?s) h = sent_to ?s h @
      (if \<not> is_connected s h then []
       else if h = m then map2 (\<lambda>x e. make_frame (join_payload g x e (m_instance_guid s))) xs es
       else if h \<in> set xs then [make_frame (join_payload g m e (m_instance_guid s))] else [])"
    using Cons.IH [of ?s] Cons.prems
    unfolding same_net_connected [OF join_round_frame(1)] same_net_guid [OF join_round_frame(1)] by auto
  obtain d d' where step: "sent_to ?s h = sent_to s h @
     (if is_connected s h
      then (if h = m then [make_frame (join_payload g x d (m_instance_guid s))] else []) @
           (if h = x \<and> x \<noteq> m then [make_frame (join_payload g m d' (m_instance_guid s))] else []) else [])"
    using sent_to_join_round by metis
  show ?case
    using IH step Cons.prems
    by (intro exI [of _ "d # es"] exI [of _ "if h = x then d' else e"]) auto
qed simp

lemma oset_add_distinct: "oset_ok xs \<Longrightarrow> distinct (oset_add x xs)"
  by (simp add: oset_ok_add oset_ok_distinct)

lemma sent_to_leave:
  assumes "oset_ok members" "map_of (m_groups s) g = Some members" "m \<in> set members"
  shows "sent_to (leave_p2p_group g m s) h = sent_to s h @
    (if h \<in> set members \<and> is_connected s h then [make_frame (leave_payload g m)] else [])"
proof -
  let ?s = "s\<lparr>m_groups := omap_put g (oset_del m members) (m_groups s)\<rparr>"
  let ?f = "fold (\<lambda>r. notify_group_member_leave g r m) (oset_del m members) ?s"
  have d: "distinct (oset_del m members)" using assms(1) by (simp add: oset_ok_del oset_ok_distinct)
  have "is_connected ?f h = is_connected s h"
    using same_net_connected [OF fold_frame_fields(1) [of "\<lambda>r. notify_group_member_leave g r m" ?s "oset_del m members"], of h]
    by simp
  moreover have "sent_to ?f h = sent_to s h @
      (if h \<in> set (oset_del m members) \<and> is_connected s h then [make_frame (leave_payload g m)] else [])"
    using sent_to_fold_send [OF d, of "\<lambda>_. writes [write_u32 m, write_u32 g] (rmi_begin p2p_group_member_leave)" ?s h]
    by (simp add: notify_group_member_leave_def [abs_def] wire_simps leave_payload_def)
  ultimately show ?thesis
    using assms by (auto simp: leave_p2p_group_def Let_def sent_to_notify_leave)
qed

section \<open>For applications\<close>

text \<open>\<^verbatim>\<open>client.send(message)\<close>\<close>

definition client_send :: "host_id \<Rightarrow> message_writer \<Rightarrow> ('u, 'a) world \<Rightarrow> ('u, 'a) world" where
  "client_send client m = with_net (on_peer client (peer_send (m_data m) False))"

lemma client_send_net [simp]:
  "m_net (client_send client m w) = on_peer client (peer_send (m_data m) False) (m_net w)"
  "m_app (client_send client m w) = m_app w"
  by (simp_all add: client_send_def)

lemma talks_send: "talk\<^sup>*\<^sup>* s s' \<Longrightarrow> talk\<^sup>*\<^sup>* s (on_peer h (peer_send payload e) s')"
  by (erule rtranclp.rtrancl_into_rtrancl) (rule talk_send)

lemma talks_user: "talk\<^sup>*\<^sup>* s s' \<Longrightarrow> talk\<^sup>*\<^sup>* s (on_peer h (\<lambda>p. p\<lparr>user_data := u\<rparr>) s')"
  by (erule rtranclp.rtrancl_into_rtrancl) (rule talk_user_data)

lemma talks_api_steps: "talk\<^sup>*\<^sup>* s s' \<Longrightarrow> api_steps s s'"
  by (induction rule: rtranclp_induct) (auto intro: api_refl api_talk)

text \<open>Closing is an operation of the interface as long as leaving does not touch the network.\<close>

lemma close_api_steps:
  assumes "\<And>w. talk\<^sup>*\<^sup>* (m_net w) (m_net (on_client_leave sink h w))"
  shows "api_steps (m_net w) (m_net (peer_close sink h w))"
proof (cases "find_peer (m_net w) h")
  case (Some p)
  have "talk\<^sup>*\<^sup>* (mark_closed h (m_net w)) (m_net (on_client_leave sink h (with_net (mark_closed h) w)))"
    using assms [of "with_net (mark_closed h) w"] by simp
  with Some show ?thesis
    by (auto simp: peer_close_def Let_def api_refl intro: api_close [OF api_refl Some])
qed (simp add: peer_close_def api_refl)

lemma peer_close_leave_only:
  "on_client_leave a = on_client_leave b \<Longrightarrow> peer_close a = peer_close b"
  by (intro ext) (simp add: peer_close_def Let_def split: option.split)

end
