(* ===== verification/Proudnet_Handshake.thy ===== *)
theory Proudnet_Handshake
  imports Proudnet_Channel
begin

text \<open>
  Progress of a well-behaved client: from every consistent state of a server, connecting, sending a
  public key and sending a connection request with the right version leads to an established
  connection, in three completion handlers and without any effect on the application.
\<close>

section \<open>Reading a frame\<close>

text \<open>The reads of one connection, one after the other\<close>

fun reads :: "('u, 'a) event_sink \<Rightarrow> host_id \<Rightarrow> bytes list \<Rightarrow> ('u, 'a) world \<Rightarrow> ('u, 'a) world option" where
  "reads sink h [] w = Some w"
| "reads sink h (data # datas) w =
     (case read_done sink h (Some data) w of None \<Rightarrow> None | Some w' \<Rightarrow> reads sink h datas w')"

lemma reads_append:
  "reads sink h (xs @ ys) w = (case reads sink h xs w of None \<Rightarrow> None | Some w' \<Rightarrow> reads sink h ys w')"
  by (induction xs arbitrary: w) (simp_all split: option.split)

lemma reachable_reads: "reads sink h datas w = Some w' \<Longrightarrow> reachable sink w0 w \<Longrightarrow> reachable sink w0 w'"
proof (induction datas arbitrary: w)
  case (Cons data datas)
  then obtain v where v: "read_done sink h (Some data) w = Some v" "reads sink h datas v = Some w'"
    by (auto split: option.splits)
  have "reachable sink w0 v" by (rule reach_step [OF Cons.prems(2) step_read [OF v(1)]])
  with v(2) show ?case by (rule Cons.IH)
qed simp

text \<open>A connection with nothing buffered that gets one whole frame\<close>

definition idle :: "('u, 'a) world \<Rightarrow> host_id \<Rightarrow> 'u peer \<Rightarrow> bool" where
  "idle w h p \<longleftrightarrow> find_peer (m_net w) h = Some p \<and> m_state p \<noteq> closed \<and> m_parser p = frame_parser_new"

lemma read_frame:
  assumes "idle w h p" "length x \<le> max_frame_payload"
  obtains v q where "idle v h q" "m_state q = m_state p" "m_app v = m_app w" "m_config (m_net v) = m_config (m_net w)"
    "\<And>q'. idle (snd (process_payload sink h x False v)) h q' \<Longrightarrow>
       \<exists>w''. read_done sink h (Some (make_frame x)) w = Some w'' \<and> idle w'' h q' \<and>
         m_app w'' = m_app (snd (process_payload sink h x False v)) \<and>
         m_config (m_net w'') = m_config (m_net (snd (process_payload sink h x False v)))"
proof -
  have p: "find_peer (m_net w) h = Some p" "m_state p \<noteq> closed" "m_parser p = frame_parser_new"
    using assms(1) by (simp_all add: idle_def)
  obtain now c where c: "clock_now (m_clock (m_net w)) = (now, c)" by force
  define w0 where "w0 = with_net (\<lambda>s. on_peer h (\<lambda>p. p\<lparr>m_parser := feed (make_frame x) (m_parser p)\<rparr>) (touch h s)) w"
  define p0 where "p0 = p\<lparr>m_last_receive := now, m_parser := \<lparr>m_buffer = make_frame x\<rparr>\<rparr>"
  have w0: "find_peer (m_net w0) h = Some p0"
    using p by (simp add: w0_def touch_def c find_on_peer p0_def feed_def frame_parser_new_def)
  define v where "v = with_net (on_peer h (\<lambda>p. p\<lparr>m_parser := frame_parser_new\<rparr>)) w0"
  define q where "q = p0\<lparr>m_parser := frame_parser_new\<rparr>"
  have v: "idle v h q" "m_app v = m_app w" "m_config (m_net v) = m_config (m_net w)"
    using p w0 by (simp_all add: idle_def v_def q_def p0_def find_on_peer w0_def touch_def c)
  have next1: "parser_next (m_parser p0) = (Inr x, frame_parser_new)"
    using parser_next_make_frame [OF assms(2), of "[]"] by (simp add: p0_def frame_parser_new_def)
  have next2: "parser_next frame_parser_new = (Inl incomplete, frame_parser_new)"
    by (simp add: parser_next_def frame_parser_new_def frame_header_def)
  have "\<exists>w''. read_done sink h (Some (make_frame x)) w = Some w'' \<and> idle w'' h q' \<and>
      m_app w'' = m_app (snd (process_payload sink h x False v)) \<and>
      m_config (m_net w'') = m_config (m_net (snd (process_payload sink h x False v)))"
    if "idle (snd (process_payload sink h x False v)) h q'" for q'
  proof -
    define w2 where "w2 = snd (process_payload sink h x False v)"
    have q': "find_peer (m_net w2) h = Some q'" "m_state q' \<noteq> closed" "m_parser q' = frame_parser_new"
      using that by (simp_all add: idle_def w2_def)
    have b: "buffered (m_net w0) h \<noteq> 0" using w0 make_frame_not_Nil by (simp add: buffered_def p0_def)
    then obtain fuel where fuel: "buffered (m_net w0) h = Suc fuel" by (cases "buffered (m_net w0) h") auto
    have "read_done sink h (Some (make_frame x)) w = frames_loop (Suc (Suc fuel)) sink h w0"
      using fuel by (simp add: read_done_def w0_def [symmetric] Let_def del: frames_loop.simps)
    also have "\<dots> = frames_loop (Suc fuel) sink h w2"
      using w0 next1 q' by (simp add: v_def [symmetric] w2_def [symmetric] Let_def peer_open_def)
    also have "\<dots> = Some (with_net (on_peer h (\<lambda>p. p\<lparr>m_parser := frame_parser_new\<rparr>)) w2)"
      using q' next2 by simp
    finally show ?thesis
      using q' by (auto simp: idle_def find_on_peer w2_def)
  qed
  then show ?thesis using that [of v q] v by (simp add: q_def p0_def)
qed

section \<open>The two messages of the handshake\<close>

definition key_hello :: "u32 \<Rightarrow> bytes \<Rightarrow> bytes" where
  "key_hello e n = notify_cs_public_key # byte_array_bytes (export_publickeyblob e n)"

definition connect_hello :: "guid \<Rightarrow> bytes \<Rightarrow> u32 \<Rightarrow> bytes" where
  "connect_hello version user internal =
     notify_server_connection_request_data # byte_array_bytes user @ version @ le_bytes 4 internal"

lemma length_byte_array_bytes: "length (byte_array_bytes bs) \<le> 9 + length bs"
  using length_scalar_bytes [of "ssize bs"] by (auto simp: byte_array_bytes_eq)

lemma make_rc4_simpleblob_succeeds:
  assumes "length k + 11 \<le> modulus_bytes key"
  obtains out g' where "make_rc4_simpleblob key k g = (Inr out, g')"
proof -
  obtain ps g' where "rsa_pkcs1_encrypt key k g =
       (Inr (rev (to_le_bytes (mod_pow (from_be_bytes (pkcs1_encode ps k)) (exponent key) (modulus key))
          (modulus_bytes key))), g')"
    using rsa_pkcs1_encrypt_ok [OF assms] by blast
  then show ?thesis using that by (simp add: make_rc4_simpleblob_def)
qed

lemma process_key_hello:
  assumes p: "idle w h p" "m_state p = awaiting_public_key" and len: "27 \<le> length n" "length n \<le> 2 ^ 16"
  shows "\<exists>p'. idle (snd (process_payload sink h (key_hello e n) False w)) h p' \<and> m_state p' = awaiting_connection_request \<and>
    m_app (snd (process_payload sink h (key_hello e n) False w)) = m_app w \<and>
    m_config (m_net (snd (process_payload sink h (key_hello e n) False w))) = m_config (m_net w)"
proof -
  let ?key = "\<lparr>modulus = from_le_bytes n, exponent = from_u32 e, modulus_bytes = length n\<rparr>"
  obtain k g where k: "draw_bytes rc4_key_bytes 0 255 (m_rng (m_net w)) = (k, g)" by force
  have "length k + 11 \<le> modulus_bytes ?key" using length_draw_bytes [OF k] len by (simp add: rc4_key_bytes_def)
  then obtain blob g' where b: "make_rc4_simpleblob ?key k g = (Inr blob, g')"
    by (rule make_rc4_simpleblob_succeeds)
  have "n \<noteq> []" "8 * length n < 2 ^ 32" using len by auto
  then have parse: "parse_publickeyblob (export_publickeyblob e n) = Inr ?key"
    using parse_export [of n e "[]"] by simp
  have "length (export_publickeyblob e n) < 2 ^ 63" using len by (simp add: export_publickeyblob_def)
  then have read: "read_byte_array (reader_at [notify_cs_public_key] (byte_array_bytes (export_publickeyblob e n))) =
      Inr (export_publickeyblob e n, reader_at (notify_cs_public_key # byte_array_bytes (export_publickeyblob e n)) [])"
    using byte_arrayc.dec_end by simp
  show ?thesis
    using p by (simp add: key_hello_def idle_def process_payload.simps read_type on_public_key_def read parse k b find_on_peer)
qed

lemma process_connect_hello:
  assumes p: "idle w h p" "m_state p = awaiting_connection_request" and len: "length user < 2 ^ 63" "length version = 16"
    and version: "version = protocol_version (m_config (m_net w))"
    and join: "\<And>w. on_client_join sink h w = w"
  shows "\<exists>p'. idle (snd (process_payload sink h (connect_hello version user internal) False w)) h p' \<and> m_state p' = connected \<and>
    m_app (snd (process_payload sink h (connect_hello version user internal) False w)) = m_app w"
proof -
  have "rbind read_byte_array (\<lambda>user_data. rbind read_guid (\<lambda>version. rbind read_u32 (\<lambda>internal_version. rreturn version)))
      (reader_at [notify_server_connection_request_data] (byte_array_bytes user @ version @ le_bytes 4 internal)) =
    Inr (version, reader_at (notify_server_connection_request_data # byte_array_bytes user @ version @ le_bytes 4 internal) [])"
    using len by (simp add: byte_arrayc.rbind_dec guidc.rbind_dec u32c.rbind_dec_end rreturn_def)
  moreover have "notify_server_connection_request_data \<noteq> notify_cs_public_key" by (simp add: message_type_defs)
  ultimately show ?thesis
    using p version join
    by (simp add: connect_hello_def idle_def process_payload.simps read_type on_connection_request_def find_on_peer Let_def)
qed

section \<open>The handshake\<close>

text \<open>An application that does nothing when a client joins\<close>

locale silent_join =
  fixes sink :: "('u, 'a) event_sink"
  assumes join_nothing: "on_client_join sink h w = w"
begin

lemma accept_idle:
  assumes "net_inv (m_net w)" "length (m_peers (m_net w)) < 2 ^ 30"
  obtains h p where "find_peer (m_net w) h = None" "idle (accept_done (Some remote) w) h p" "m_state p = awaiting_public_key"
    "m_app (accept_done (Some remote) w) = m_app w" "m_config (m_net (accept_done (Some remote) w)) = m_config (m_net w)"
proof -
  obtain h now where h: "h \<notin> client_ids (m_net w)" "find_peer (accept_net remote (m_net w)) = (find_peer (m_net w))(h \<mapsto>
       peer_send (m_data (connection_hint (settings (m_config (m_net w))))) False (peer_new h remote now))"
    using accept_net_effect [OF assms] by blast
  have "find_peer (m_net w) h = None" using h(1) by (auto simp: client_ids_def)
  moreover have "m_config (accept_net remote (m_net w)) = m_config (m_net w)"
    by (simp add: accept_net_def allocate_host_id_def Let_def split: prod.split list.split)
  ultimately show ?thesis
    using that [of h "peer_send (m_data (connection_hint (settings (m_config (m_net w))))) False (peer_new h remote now)"] h(2)
    by (simp add: accept_done_eq idle_def peer_new_def)
qed

lemma handshake:
  assumes w: "net_inv (m_net w)" "length (m_peers (m_net w)) < 2 ^ 30" and n: "27 \<le> length n" "length n \<le> 2 ^ 16"
    and user: "length user \<le> 2 ^ 16" and v: "length (protocol_version (m_config (m_net w))) = 16"
  obtains h w' p where "find_peer (m_net w) h = None"
    "reads sink h [make_frame (key_hello e n), make_frame (connect_hello (protocol_version (m_config (m_net w))) user i)]
       (accept_done (Some remote) w) = Some w'"
    "idle w' h p" "m_state p = connected" "m_app w' = m_app w"
proof -
  obtain h p where h: "find_peer (m_net w) h = None" "idle (accept_done (Some remote) w) h p" "m_state p = awaiting_public_key"
    "m_app (accept_done (Some remote) w) = m_app w" "m_config (m_net (accept_done (Some remote) w)) = m_config (m_net w)"
    using accept_idle [OF w] by blast
  have "length (key_hello e n) \<le> max_frame_payload"
    using length_byte_array_bytes [of "export_publickeyblob e n"] n
    by (simp add: key_hello_def max_frame_payload_def export_publickeyblob_def)
  from read_frame [OF h(2) this, where sink = sink] obtain v1 q1 where v1: "idle v1 h q1" "m_state q1 = awaiting_public_key"
    "m_app v1 = m_app w" "m_config (m_net v1) = m_config (m_net w)"
    "\<And>q'. idle (snd (process_payload sink h (key_hello e n) False v1)) h q' \<Longrightarrow>
       \<exists>w''. read_done sink h (Some (make_frame (key_hello e n))) (accept_done (Some remote) w) = Some w'' \<and> idle w'' h q' \<and>
         m_app w'' = m_app (snd (process_payload sink h (key_hello e n) False v1)) \<and>
         m_config (m_net w'') = m_config (m_net (snd (process_payload sink h (key_hello e n) False v1)))"
    using h(3-5) by metis
  obtain p2 w2 where w2: "read_done sink h (Some (make_frame (key_hello e n))) (accept_done (Some remote) w) = Some w2"
    "idle w2 h p2" "m_state p2 = awaiting_connection_request" "m_app w2 = m_app w" "m_config (m_net w2) = m_config (m_net w)"
    using process_key_hello [OF v1(1,2) n, of sink e] v1(3-5) by metis
  let ?x = "connect_hello (protocol_version (m_config (m_net w))) user i"
  have "length ?x \<le> max_frame_payload"
    using length_byte_array_bytes [of user] user v by (simp add: connect_hello_def max_frame_payload_def)
  from read_frame [OF w2(2) this, where sink = sink] obtain v3 q3 where v3: "idle v3 h q3" "m_state q3 = awaiting_connection_request"
    "m_app v3 = m_app w" "m_config (m_net v3) = m_config (m_net w)"
    "\<And>q'. idle (snd (process_payload sink h ?x False v3)) h q' \<Longrightarrow>
       \<exists>w''. read_done sink h (Some (make_frame ?x)) w2 = Some w'' \<and> idle w'' h q' \<and>
         m_app w'' = m_app (snd (process_payload sink h ?x False v3))"
    using w2(3-5) by metis
  have "length user < 2 ^ 63" using user by simp
  then obtain p4 w4 where w4: "read_done sink h (Some (make_frame ?x)) w2 = Some w4" "idle w4 h p4" "m_state p4 = connected"
    "m_app w4 = m_app w"
    using process_connect_hello [OF v3(1,2) _ v, of user sink i] v3(3-5) join_nothing by metis
  have "reads sink h [make_frame (key_hello e n), make_frame ?x] (accept_done (Some remote) w) = Some w4"
    by (simp add: w2(1) w4(1))
  then show ?thesis using that h(1) w4(2-4) by blast
qed

end

end
