(* ===== verification/Proudnet_App.thy ===== *)
theory Proudnet_App
  imports Proudnet_Reach
begin

text \<open>
  Invariants of applications. The ProudNet layer touches the state of the application through its
  callbacks only and never changes the configuration of the server, so a property of both which the
  callbacks keep holds in every reachable state. The locale states this once for all applications.
\<close>

section \<open>The configuration stays\<close>

lemma closing_config [simp]: "m_config (mark_closed h s) = m_config s" "m_config (on_peer_closed h s) = m_config s"
  using same_net_leave_all [of s h "map fst (m_groups s)"]
  by (simp_all add: mark_closed_def on_peer_closed_eq release_host_id_def Let_def same_net_def)

lemma touch_config [simp]: "m_config (touch h s) = m_config s"
  by (simp add: touch_def split: prod.split)

lemma core_rmi_config [simp]: "m_config (handle_core_rmi h i s) = m_config s"
  by (simp add: handle_core_rmi_def)

lemma core_message_config: "handle_core_message h type r s = (res, s') \<Longrightarrow> m_config s' = m_config s"
  using core_message_result [of s h type r] same_net_talks by (fastforce simp: same_net_def)

lemma accept_config [simp]: "m_config (accept_net remote s) = m_config s"
  by (auto simp: accept_net_def allocate_frame(3) Let_def split: prod.split)

section \<open>Properties the callbacks keep\<close>

abbreviation kept :: "(server_config \<Rightarrow> 'a \<Rightarrow> bool) \<Rightarrow> ('u, 'a) world \<Rightarrow> bool" where
  "kept P w \<equiv> P (m_config (m_net w)) (m_app w)"

locale app_invariant =
  fixes sink :: "('u, 'a) event_sink"
    and P :: "server_config \<Rightarrow> 'a \<Rightarrow> bool"
  assumes join_keeps: "kept P w \<Longrightarrow> kept P (on_client_join sink h w)"
    and leave_keeps: "kept P w \<Longrightarrow> kept P (on_client_leave sink h w)"
    and rmi_keeps: "kept P w \<Longrightarrow> kept P (snd (on_rmi sink h i r w))"
begin

lemma close_keeps: "kept P w \<Longrightarrow> kept P (peer_close sink h w)"
  using leave_keeps [of "with_net (mark_closed h) w" h]
  by (auto simp: peer_close_def Let_def split: option.split)

lemma close_all_keeps: "kept P w \<Longrightarrow> kept P (fold (peer_close sink) hs w)"
  by (induction hs arbitrary: w) (auto simp: close_keeps)

lemma public_key_keeps: "kept P w \<Longrightarrow> kept P (snd (on_public_key sink h r w))"
  by (auto simp: on_public_key_def Let_def close_keeps split: sum.split prod.split)

lemma connection_request_keeps: "kept P w \<Longrightarrow> kept P (snd (on_connection_request sink h r w))"
  by (auto simp: on_connection_request_def Let_def close_keeps join_keeps split: sum.split prod.split)

lemma peer_on_rmi_keeps: "kept P w \<Longrightarrow> kept P (snd (peer_on_rmi sink h r w))"
proof (cases "read_u16 r")
  case (Inr ir)
  assume "kept P w"
  then have "kept P (snd (on_rmi sink h i x w))" for i x by (rule rmi_keeps)
  then have "kept P w'" if "on_rmi sink h i x w = (res, w')" for i x res w' using that by (metis snd_conv)
  then show ?thesis
    using \<open>kept P w\<close> Inr by (auto simp: peer_on_rmi_def split: prod.split sum.split)
qed (simp add: peer_on_rmi_def)

lemma process_payload_round:
  assumes "kept P w"
    and inner: "\<And>inner w'. \<not> e \<Longrightarrow> kept P w' \<Longrightarrow> kept P (snd (process_payload sink h inner True w'))"
  shows "kept P (snd (process_payload sink h payload e w))"
proof -
  define Q where "Q = (\<lambda>w :: ('u, 'a) world. kept P w)"
  have rec: "Q (snd (process_payload sink h x True (with_net (on_peer h (\<lambda>_. p)) w)))" if "\<not> e" for x p
    unfolding Q_def using assms(1) by (intro inner that) simp
  have parts: "Q w" "Q (with_net (on_peer h f) w)" "Q (snd (on_public_key sink h r w))" "Q (snd (on_connection_request sink h r w))"
    "Q (snd (peer_on_rmi sink h r w))" "handle_core_message h type r (m_net w) = (res, s) \<Longrightarrow> Q (w\<lparr>m_net := s\<rparr>)" for f r type res s
    using public_key_keeps [OF assms(1)] connection_request_keeps [OF assms(1)] peer_on_rmi_keeps [OF assms(1)] assms(1)
    by (simp_all add: Q_def core_message_config)
  have "Q (snd (process_payload sink h payload e w))"
    by (subst process_payload.simps) (simp add: parts rec split: option.split sum.split prod.split)
  then show ?thesis by (simp add: Q_def)
qed

lemma process_payload_keeps: "kept P w \<Longrightarrow> kept P (snd (process_payload sink h payload e w))"
  using process_payload_round [of w e h payload] process_payload_round [of _ True h] by blast

lemma frames_loop_keeps: "frames_loop fuel sink h w = Some w' \<Longrightarrow> kept P w \<Longrightarrow> kept P w'"
proof (induction fuel arbitrary: w)
  case (Suc fuel)
  show ?case
  proof (cases "find_peer (m_net w) h")
    case None
    with Suc.prems show ?thesis by simp
  next
    case (Some p)
    obtain res parser where n: "parser_next (m_parser p) = (res, parser)" by force
    define w1 where "w1 = with_net (on_peer h (\<lambda>p. p\<lparr>m_parser := parser\<rparr>)) w"
    have w1: "kept P w1" using Suc.prems by (simp add: w1_def)
    show ?thesis
    proof (cases res)
      case (Inl e)
      then show ?thesis
        using Suc.prems(1) Some n w1 close_keeps [of w1 h] by (auto simp: w1_def [symmetric] Let_def split: if_splits)
    next
      case (Inr frame)
      then show ?thesis
        using Suc.prems(1) Some n Suc.IH [of "snd (process_payload sink h frame False w1)"]
          process_payload_keeps [OF w1, of h frame False]
        by (auto simp: w1_def [symmetric] Let_def split: if_splits)
    qed
  qed
qed simp

lemma step_keeps: "net_step sink w w' \<Longrightarrow> kept P w \<Longrightarrow> kept P w'"
proof (induction rule: net_step.induct)
  case (step_read h result w w')
  then show ?case
    using frames_loop_keeps by (auto simp: read_done_def Let_def close_keeps split: option.splits simp del: frames_loop.simps)
qed (auto simp: accept_done_eq write_done_def timer_done_def server_stop_def close_keeps close_all_keeps Let_def
    split: option.split prod.split)

lemma reachable_keeps: "reachable sink w0 w \<Longrightarrow> kept P w0 \<Longrightarrow> kept P w"
  by (induction rule: reachable.induct) (auto intro: step_keeps)

end

end
