(* ===== verification/Accounts.thy ===== *)
theory Accounts
  imports Prelude
begin

text \<open>
  The account store shared by the three servers, \<^verbatim>\<open>src/src/app/accounts.hpp\<close>: the map of accounts and
  the text file behind it. The file is its contents (empty when it does not exist); every login is a
  function on the store. A locale states what the servers rely on from the store, and the file is
  shown to reproduce the store when the program is started again.
\<close>

section \<open>account_store\<close>

record account =
  acc_index :: u32
  acc_username :: str
  acc_password :: str

datatype login_result = login_ok | wrong_password | unknown_user

record account_store =
  m_file :: bytes
  m_auto_register :: bool
  m_accounts :: "(str, account) omap"

text \<open>\<^verbatim>\<open>in >> word\<close>: leading white space is skipped, the word extends to the next white space.\<close>

definition is_space :: "u8 \<Rightarrow> bool" where
  "is_space c \<longleftrightarrow> c = 0x20 \<or> 0x09 \<le> c \<and> c \<le> 0x0D"

definition not_space :: "u8 \<Rightarrow> bool" where
  "not_space c \<longleftrightarrow> \<not> is_space c"

function words :: "bytes \<Rightarrow> str list" where
  "words input =
     (case dropWhile is_space input of
        [] \<Rightarrow> []
      | c # rest \<Rightarrow> takeWhile not_space (c # rest) # words (dropWhile not_space (c # rest)))"
  by pat_completeness auto
termination
proof (relation "measure length")
  fix input rest :: bytes and c
  assume d: "dropWhile is_space input = c # rest"
  then have "not_space c" using hd_dropWhile [of is_space input] by (simp add: not_space_def)
  then have "length (dropWhile not_space (c # rest)) \<le> length rest" by (simp add: length_dropWhile_le)
  moreover have "length (c # rest) \<le> length input" using d length_dropWhile_le [of is_space input] by metis
  ultimately show "(dropWhile not_space (c # rest), input) \<in> measure length" by simp
qed simp

declare words.simps [simp del]

text \<open>\<open>add\<close>; the index of a new account is one more than the number of accounts so far.\<close>

definition add :: "str \<Rightarrow> str \<Rightarrow> (str, account) omap \<Rightarrow> (str, account) omap" where
  "add username password accounts =
     omap_emplace username
       \<lparr>acc_index = of_nat (length accounts + 1), acc_username = username, acc_password = password\<rparr> accounts"

text \<open>The loop \<^verbatim>\<open>in >> user >> pass\<close>: a last word without a partner is dropped.\<close>

fun add_words :: "str list \<Rightarrow> (str, account) omap \<Rightarrow> (str, account) omap" where
  "add_words (user # pass # ws) accounts = add_words ws (add user pass accounts)"
| "add_words _ accounts = accounts"

definition account_store_new :: "bytes \<Rightarrow> bool \<Rightarrow> account_store" where
  "account_store_new file auto_register =
     \<lparr>m_file = file, m_auto_register = auto_register, m_accounts = add_words (words file) []\<rparr>"

definition find_account :: "account_store \<Rightarrow> str \<Rightarrow> account option" where
  "find_account s username = map_of (m_accounts s) username"

definition login :: "str \<Rightarrow> str \<Rightarrow> account_store \<Rightarrow> login_result \<times> account_store" where
  "login username password s =
     (case map_of (m_accounts s) username of
        Some a \<Rightarrow> (if acc_password a = password then login_ok else wrong_password, s)
      | None \<Rightarrow>
          if \<not> m_auto_register s \<or> username = [] \<or> 0x20 \<in> set username \<or> 0x20 \<in> set password then (unknown_user, s)
          else (login_ok, s\<lparr>m_accounts := add username password (m_accounts s),
                            m_file := m_file s @ username @ [0x20] @ password @ [0x0A]\<rparr>))"

section \<open>What the servers rely on\<close>

locale account_service =
  fixes log_in :: "str \<Rightarrow> str \<Rightarrow> 's \<Rightarrow> login_result \<times> 's"
    and find_acc :: "'s \<Rightarrow> str \<Rightarrow> account option"
  assumes ok_found: "log_in u p s = (login_ok, s') \<Longrightarrow> \<exists>a. find_acc s' u = Some a \<and> acc_password a = p"
    and found_ok: "find_acc s u = Some a \<Longrightarrow>
      log_in u p s = (if acc_password a = p then login_ok else wrong_password, s)"
    and found_stays: "find_acc s u = Some a \<Longrightarrow> find_acc (snd (log_in v q s)) u = Some a"
begin

lemma found_stays_all: "find_acc s u = Some a \<Longrightarrow> find_acc (fold (\<lambda>(v, q) s. snd (log_in v q s)) attempts s) u = Some a"
  by (induction attempts arbitrary: s) (auto simp: found_stays)

text \<open>Once a login has succeeded, whoever logs in meanwhile, exactly the same password is accepted.\<close>

lemma same_password_only:
  assumes "log_in u p s = (login_ok, s')"
  shows "fst (log_in u q (fold (\<lambda>(v, q) s. snd (log_in v q s)) attempts s')) = login_ok \<longleftrightarrow> q = p"
proof -
  obtain a where a: "find_acc s' u = Some a" "acc_password a = p" using ok_found [OF assms] by blast
  from found_ok [OF found_stays_all [OF a(1), of attempts], of q] a(2) show ?thesis by auto
qed

end

lemma map_of_add:
  "map_of (add u p m) v =
     (if v = u \<and> map_of m u = None then Some \<lparr>acc_index = of_nat (length m + 1), acc_username = u, acc_password = p\<rparr>
      else map_of m v)"
  by (simp add: add_def map_of_omap_emplace)

interpretation acc: account_service login find_account
proof unfold_locales
  fix u p s s'
  assume "login u p s = (login_ok, s')"
  then show "\<exists>a. find_account s' u = Some a \<and> acc_password a = p"
    by (auto simp: login_def find_account_def map_of_add split: option.splits if_splits)
qed (auto simp: login_def find_account_def map_of_add split: option.split)

section \<open>Well-formed stores\<close>

text \<open>Every account is filed under its own name, and the indices of the accounts are \<open>1, 2, ...\<close>.\<close>

definition store_ok :: "(str, account) omap \<Rightarrow> bool" where
  "store_ok m \<longleftrightarrow> omap_ok m \<and> (\<forall>u a. map_of m u = Some a \<longrightarrow> acc_username a = u) \<and>
     (length m < 2 ^ 32 \<longrightarrow> (\<lambda>(u, a). unat (acc_index a)) ` set m = {1..length m})"

lemma set_omap_put_fresh: "map_of m k = None \<Longrightarrow> set (omap_put k v m) = insert (k, v) (set m)"
  by (induction m) (auto split: if_splits)

lemma length_omap_put_new: "map_of m k = None \<Longrightarrow> length (omap_put k v m) = Suc (length m)"
  by (induction m) (auto split: if_splits)

lemma store_ok_add: "store_ok m \<Longrightarrow> store_ok (add u p m)"
proof (cases "map_of m u")
  case None
  assume ok: "store_ok m"
  have l: "length (add u p m) = Suc (length m)" using None by (simp add: add_def omap_emplace_def length_omap_put_new)
  have "(\<lambda>(u, a). unat (acc_index a)) ` set (add u p m) = {1..length (add u p m)}" if "length (add u p m) < 2 ^ 32"
  proof -
    have "unat (of_nat (Suc (length m)) :: u32) = Suc (length m)"
      using that l by (simp only: unat_of_nat take_bit_nat_eq_self_iff) simp
    then have "(\<lambda>(u, a). unat (acc_index a)) ` set (add u p m) = insert (Suc (length m)) {1..length m}"
      using ok None that l by (simp add: add_def omap_emplace_def set_omap_put_fresh store_ok_def)
    then show ?thesis by (auto simp: l)
  qed
  moreover have "omap_ok (add u p m)" using ok by (simp add: store_ok_def add_def omap_ok_emplace)
  ultimately show ?thesis using ok by (auto simp: store_ok_def map_of_add)
qed (simp add: add_def omap_emplace_def)

lemma store_ok_add_words: "store_ok m \<Longrightarrow> store_ok (add_words ws m)"
  by (induction ws m rule: add_words.induct) (auto simp: store_ok_add)

lemma store_ok_new: "store_ok (m_accounts (account_store_new file auto_register))"
  by (simp add: account_store_new_def) (rule store_ok_add_words, simp add: store_ok_def)

lemma store_ok_login: "store_ok (m_accounts s) \<Longrightarrow> store_ok (m_accounts (snd (login u p s)))"
  by (auto simp: login_def store_ok_add split: option.split)

text \<open>Different accounts have different indices.\<close>

lemma store_ok_index_inj:
  assumes "store_ok m" "length m < 2 ^ 32" "map_of m u = Some a" "map_of m v = Some b" "acc_index a = acc_index b"
  shows "u = v"
proof -
  have "card ((\<lambda>(u, a). unat (acc_index a)) ` set m) = card (set m)"
  proof -
    have "distinct m" using assms(1) distinct_map [of fst m] by (simp add: store_ok_def omap_ok_distinct)
    then have "card (set m) = length m" by (rule distinct_card)
    with assms(1,2) show ?thesis by (simp add: store_ok_def)
  qed
  then have "inj_on (\<lambda>(u, a). unat (acc_index a)) (set m)" by (simp add: eq_card_imp_inj_on)
  from inj_onD [OF this, of "(u, a)" "(v, b)"] show ?thesis
    using map_of_SomeD [OF assms(3)] map_of_SomeD [OF assms(4)] assms(5) by simp
qed

section \<open>What logins do to the store in the long run\<close>

text \<open>\<open>grown s s'\<close>: some sequence of logins, successful or not, leads from \<open>s\<close> to \<open>s'\<close>.\<close>

inductive grown :: "account_store \<Rightarrow> account_store \<Rightarrow> bool" where
  grown_refl [simp, intro!]: "grown s s"
| grown_login: "grown s s' \<Longrightarrow> grown s (snd (login u p s'))"

lemma grown_trans: "grown s' s'' \<Longrightarrow> grown s s' \<Longrightarrow> grown s s''"
  by (induction rule: grown.induct) (auto intro: grown_login)

lemma grown_attempts: "grown s s' \<Longrightarrow> \<exists>attempts. s' = fold (\<lambda>(v, q) s. snd (login v q s)) attempts s"
proof (induction rule: grown.induct)
  case (grown_login s s' u p)
  then obtain attempts where "s' = fold (\<lambda>(v, q) s. snd (login v q s)) attempts s" by blast
  then show ?case by (intro exI [of _ "attempts @ [(u, p)]"]) simp
qed (auto intro: exI [of _ "[]"])

lemma grown_find: "grown s s' \<Longrightarrow> find_account s u = Some a \<Longrightarrow> find_account s' u = Some a"
  using grown_attempts [of s s'] acc.found_stays_all by blast

lemma grown_store_ok: "grown s s' \<Longrightarrow> store_ok (m_accounts s) \<Longrightarrow> store_ok (m_accounts s')"
  by (induction rule: grown.induct) (auto simp: store_ok_login)

lemma grown_settings: "grown s s' \<Longrightarrow> m_auto_register s' = m_auto_register s"
  by (induction rule: grown.induct) (auto simp: login_def split: option.split)

text \<open>Without registration the store never changes.\<close>

lemma grown_closed: "grown s s' \<Longrightarrow> \<not> m_auto_register s \<Longrightarrow> s' = s"
  by (induction rule: grown.induct) (auto simp: login_def split: option.split)

text \<open>After a successful login exactly its password is accepted, at every later time.\<close>

lemma grown_password:
  assumes "login u p s = (login_ok, s')" "grown s' s''"
  shows "fst (login u q s'') = login_ok \<longleftrightarrow> q = p"
  using grown_attempts [OF assms(2)] acc.same_password_only [OF assms(1)] by auto

section \<open>Restarting\<close>

text \<open>What a registration must look like for the file to hold it: two words without white space\<close>

definition clean :: "str \<Rightarrow> bool" where
  "clean w \<longleftrightarrow> w \<noteq> [] \<and> (\<forall>c \<in> set w. \<not> is_space c)"

definition file_ok :: "bytes \<Rightarrow> bool" where
  "file_ok f \<longleftrightarrow> (f = [] \<or> is_space (last f)) \<and> even (length (words f))"

lemma words_Nil [simp]: "words [] = []"
  by (simp add: words.simps)

lemma words_space [simp]: "is_space c \<Longrightarrow> words (c # f) = words f"
  by (simp add: words.simps [of "c # f"] words.simps [of f])

lemma words_word:
  assumes "clean w" "f = [] \<or> is_space (hd f)"
  shows "words (w @ f) = w # words f"
proof -
  have ns: "\<forall>c \<in> set w. not_space c" "w \<noteq> []" using assms(1) by (auto simp: clean_def not_space_def)
  have d: "dropWhile is_space (w @ f) = w @ f"
    using ns by (cases w) (auto simp: not_space_def)
  have f: "takeWhile not_space f = []" "dropWhile not_space f = f"
    using assms(2) by (cases f; simp add: not_space_def)+
  have "takeWhile not_space (w @ f) = w" "dropWhile not_space (w @ f) = f"
    using ns f by (simp_all add: takeWhile_append2 dropWhile_append2)
  with d ns show ?thesis by (cases w) (simp_all add: words.simps [of "w @ f"] words.simps [of "_ # _ @ f"])
qed

text \<open>Behind white space the words continue independently.\<close>

lemma words_append: "f = [] \<or> is_space (last f) \<Longrightarrow> words (f @ g) = words f @ words g"
proof (induction f rule: words.induct)
  case (1 f)
  show ?case
  proof (cases "dropWhile is_space f")
    case Nil
    then have s: "\<forall>c \<in> set f. is_space c" by (simp add: dropWhile_eq_Nil_conv)
    then have "words (f @ g) = words g" by (induction f) simp_all
    moreover have "words f = []" using s by (induction f) simp_all
    ultimately show ?thesis by simp
  next
    case (Cons c r)
    define t where "t = dropWhile not_space (c # r)"
    have ne: "f \<noteq> []" using Cons by auto
    have c: "not_space c" using Cons hd_dropWhile [of is_space f] by (simp add: not_space_def)
    have last: "is_space (last (c # r))"
      using "1.prems" ne Cons by (metis dropWhile_eq_Nil_conv last_appendR list.distinct(1) takeWhile_dropWhile_id)
    have t: "t \<noteq> []" "is_space (last t)"
    proof -
      have "last (c # r) \<in> set (c # r)" by simp
      then show "t \<noteq> []" using last by (auto simp: t_def dropWhile_eq_Nil_conv not_space_def)
      then show "is_space (last t)" using last unfolding t_def
        by (metis last_appendR takeWhile_dropWhile_id)
    qed
    have "\<exists>x \<in> set (c # r). \<not> not_space x"
      using last last_in_set [of "c # r"] unfolding not_space_def by blast
    then have tw: "takeWhile not_space ((c # r) @ g) = takeWhile not_space (c # r)"
      "dropWhile not_space ((c # r) @ g) = t @ g"
      unfolding t_def by (meson takeWhile_append1 dropWhile_append1)+
    have df: "dropWhile is_space (f @ g) = (c # r) @ g"
      using Cons by (metis dropWhile_append1 dropWhile_eq_Nil_conv list.distinct(1))
    have "words (f @ g) = takeWhile not_space (c # r) # words (t @ g)"
      using df tw by (simp add: words.simps [of "f @ g"])
    moreover have "words f = takeWhile not_space (c # r) # words t"
      using Cons by (simp add: words.simps [of f] t_def)
    moreover have "words (t @ g) = words t @ words g"
      using "1.IH" [OF Cons] t by (simp add: t_def)
    ultimately show ?thesis by simp
  qed
qed

lemma add_words_append: "even (length ws) \<Longrightarrow> add_words (ws @ [u, p]) m = add u p (add_words ws m)"
  by (induction ws m rule: add_words.induct) auto

lemma words_registration:
  assumes "clean u" "clean p"
  shows "words (u @ [0x20] @ p @ [0x0A]) = [u, p]"
proof -
  have "words (u @ 0x20 # p @ [0x0A]) = u # words (p @ [0x0A])"
    using words_word [OF assms(1), of "0x20 # p @ [0x0A]"] by (simp add: is_space_def)
  moreover have "words (p @ [0x0A]) = [p]"
    using words_word [OF assms(2), of "[0x0A]"] by (simp add: is_space_def)
  ultimately show ?thesis by simp
qed

text \<open>\<open>persistent s\<close>: a restart rebuilds the accounts from the file.\<close>

definition persistent :: "account_store \<Rightarrow> bool" where
  "persistent s \<longleftrightarrow> file_ok (m_file s) \<and> account_store_new (m_file s) (m_auto_register s) = s"

lemma persistent_login:
  assumes "persistent s" "clean u" "clean p"
  shows "persistent (snd (login u p s))"
proof (cases "fst (login u p s) = login_ok \<and> map_of (m_accounts s) u = None")
  case True
  then have l: "snd (login u p s) = s\<lparr>m_accounts := add u p (m_accounts s), m_file := m_file s @ u @ [0x20] @ p @ [0x0A]\<rparr>"
    by (auto simp: login_def split: if_splits)
  have w: "words (m_file s @ u @ [0x20] @ p @ [0x0A]) = words (m_file s) @ [u, p]"
    using assms words_append [of "m_file s"] words_registration by (simp add: persistent_def file_ok_def)
  have "m_accounts s = add_words (words (m_file s)) []"
    using assms(1) by (metis account_store.select_convs(3) account_store_new_def persistent_def)
  then have "add_words (words (m_file s) @ [u, p]) [] = add u p (m_accounts s)"
    using assms(1) by (simp add: add_words_append persistent_def file_ok_def)
  then show ?thesis
    using assms(1) w unfolding persistent_def l file_ok_def account_store_new_def
    by (cases s) (simp add: is_space_def)
next
  case False
  then have "snd (login u p s) = s" by (auto simp: login_def split: option.splits if_splits)
  with assms show ?thesis by simp
qed

end
