(* ===== verification/Shared_Store.thy ===== *)
theory Shared_Store
  imports Proudnet_App Accounts
begin

text \<open>
  Servers over one account store. The three servers of the program get a reference to the same
  store; a server may log clients in and does nothing else to it. The locale states this for one
  server, and gives it for all its steps.
\<close>

definition lawful :: "('a \<Rightarrow> account_store) \<Rightarrow> ('u, 'a) world \<Rightarrow> ('u, 'a) world \<Rightarrow> bool" where
  "lawful accounts w w' \<longleftrightarrow>
     m_config (m_net w') = m_config (m_net w) \<and> grown (accounts (m_app w)) (accounts (m_app w'))"

lemma lawful_refl [simp]: "lawful accounts w w"
  by (simp add: lawful_def)

locale store_client =
  fixes sink :: "('u, 'a) event_sink"
    and accounts :: "'a \<Rightarrow> account_store"
  assumes join_lawful: "lawful accounts w (on_client_join sink h w)"
    and leave_lawful: "lawful accounts w (on_client_leave sink h w)"
    and rmi_lawful: "lawful accounts w (snd (on_rmi sink h i r w))"

sublocale store_client \<subseteq> lawful_steps: app_invariant sink "\<lambda>config a. config = c \<and> grown s (accounts a)" for c s
proof unfold_locales
  have keep: "config = c \<and> grown s (accounts (m_app w'))"
    if "lawful accounts w w'" "m_config (m_net w) = c \<and> grown s (accounts (m_app w))" "config = m_config (m_net w')" for w w' config
    using that by (auto simp: lawful_def intro: grown_trans)
  fix w :: "('u, 'a) world" and h i r
  assume w: "m_config (m_net w) = c \<and> grown s (accounts (m_app w))"
  show "m_config (m_net (on_client_join sink h w)) = c \<and> grown s (accounts (m_app (on_client_join sink h w)))"
    "m_config (m_net (on_client_leave sink h w)) = c \<and> grown s (accounts (m_app (on_client_leave sink h w)))"
    "m_config (m_net (snd (on_rmi sink h i r w))) = c \<and> grown s (accounts (m_app (snd (on_rmi sink h i r w))))"
    by (rule keep [OF join_lawful w refl] keep [OF leave_lawful w refl] keep [OF rmi_lawful w refl])+
qed

context store_client
begin

lemma step_lawful: "net_step sink w w' \<Longrightarrow> lawful accounts w w'"
  using lawful_steps.step_keeps [of w w' "m_config (m_net w)" "accounts (m_app w)"] by (simp add: lawful_def)

lemma reachable_lawful: "reachable sink w w' \<Longrightarrow> lawful accounts w w'"
  using lawful_steps.reachable_keeps [of w w' "m_config (m_net w)" "accounts (m_app w)"] by (simp add: lawful_def)

end

end
