(* ===== verification/Session.thy ===== *)
theory Session
  imports Proudnet_Handshake Shared_Store Config
begin

text \<open>
  The session (login) server, \<^verbatim>\<open>src/src/session/session_server.hpp\<close> and \<^verbatim>\<open>.cpp\<close>: an event sink over the
  ProudNet layer that checks credentials and hands out the address of the game server. The data a
  connection carries (\<open>user_data\<close>) is its \<open>session_user\<close>; the application state is the
  configuration, the account store and the map of online users.
\<close>

section \<open>RMI numbers and data\<close>

definition Logon_CLSS :: u16 where "Logon_CLSS = 1201"
definition Change_Nation_CLSS :: u16 where "Change_Nation_CLSS = 1202"
definition Logout_CLSS :: u16 where "Logout_CLSS = 1203"

definition User_Logon_SSCL :: u16 where "User_Logon_SSCL = 2301"
definition Change_Nation_SSCL :: u16 where "Change_Nation_SSCL = 2302"
definition Forced_Close_SSCL :: u16 where "Forced_Close_SSCL = 2303"

definition logon_result_ok :: u16 where "logon_result_ok = 0"
definition logon_result_wrong_password :: u16 where "logon_result_wrong_password = 11"
definition forced_close_duplicate_login :: u16 where "forced_close_duplicate_login = 2"

lemmas session_rmi_defs = Logon_CLSS_def Change_Nation_CLSS_def Logout_CLSS_def

record session_user =
  su_username :: str
  su_nation :: u8

record session_app =
  ss_config :: config
  ss_accounts :: account_store
  m_online :: "(str, host_id) omap"

type_synonym session_world = "(session_user, session_app) world"

definition session_server_config :: "config \<Rightarrow> server_config" where
  "session_server_config c = \<lparr>sc_name = ''session'', sc_port = session_port c,
     protocol_version = session_protocol_version, settings = net_settings_default, timeout = 90\<rparr>"

definition session_new :: "config \<Rightarrow> account_store \<Rightarrow> rng \<Rightarrow> clock \<Rightarrow> (nat \<Rightarrow> f64) \<Rightarrow> session_world" where
  "session_new c accounts g clk seconds =
     \<lparr>m_net = server_new (session_server_config c) g clk seconds,
      m_app = \<lparr>ss_config = c, ss_accounts = accounts, m_online = []\<rparr>\<rparr>"

section \<open>Handlers\<close>

definition session_user_of :: "session_world \<Rightarrow> host_id \<Rightarrow> session_user option" where
  "session_user_of w client = (case find_peer (m_net w) client of None \<Rightarrow> None | Some p \<Rightarrow> user_data p)"

definition session_on_client_leave :: "host_id \<Rightarrow> session_world \<Rightarrow> session_world" where
  "session_on_client_leave client w =
     (case session_user_of w client of
        None \<Rightarrow> w
      | Some user \<Rightarrow>
          if map_of (m_online (m_app w)) (su_username user) = Some client
          then w\<lparr>m_app := (m_app w)\<lparr>m_online := omap_del (su_username user) (m_online (m_app w))\<rparr>\<rparr>
          else w)"

definition logon_answer :: "config \<Rightarrow> u16 \<Rightarrow> u8 \<Rightarrow> u16 \<Rightarrow> message_writer" where
  "logon_answer c rmi_id nation result =
     writes [write_u8 nation, write_text (game_public_ip c), write_u16 (game_port c), write_u16 result] (rmi_begin rmi_id)"

definition send_logon_answer :: "host_id \<Rightarrow> u16 \<Rightarrow> u8 \<Rightarrow> u16 \<Rightarrow> session_world \<Rightarrow> session_world" where
  "send_logon_answer client rmi_id nation result w =
     client_send client (logon_answer (ss_config (m_app w)) rmi_id nation result) w"

definition kick_message :: message_writer where
  "kick_message = write_u16 forced_close_duplicate_login (rmi_begin Forced_Close_SSCL)"

definition session_logon :: "host_id \<Rightarrow> str \<Rightarrow> str \<Rightarrow> session_world \<Rightarrow> session_world" where
  "session_logon client user password w =
     (let (result, accounts) = login user password (ss_accounts (m_app w));
          w1 = w\<lparr>m_app := (m_app w)\<lparr>ss_accounts := accounts\<rparr>\<rparr>
      in case result of
           wrong_password \<Rightarrow> send_logon_answer client User_Logon_SSCL 1 logon_result_wrong_password w1
         | unknown_user \<Rightarrow> send_logon_answer client User_Logon_SSCL 1 logon_result_wrong_password w1
         | login_ok \<Rightarrow>
             (let w2 = (case map_of (m_online (m_app w1)) user of
                          None \<Rightarrow> w1
                        | Some old \<Rightarrow> if old \<noteq> client then client_send old kick_message w1 else w1);
                  w3 = w2\<lparr>m_app := (m_app w2)\<lparr>m_online := omap_put user client (m_online (m_app w2))\<rparr>\<rparr>;
                  w4 = with_net (on_peer client (\<lambda>p. p\<lparr>user_data := Some \<lparr>su_username = user, su_nation = 1\<rparr>\<rparr>)) w3
              in send_logon_answer client User_Logon_SSCL 1 logon_result_ok w4))"

text \<open>
  \<open>client.close()\<close> calls back into \<open>on_client_leave\<close> only; the sink below is the part of the session
  server that a closing connection sees.
\<close>

definition session_leave_sink :: "(session_user, session_app) event_sink" where
  "session_leave_sink =
     \<lparr>on_client_join = \<lambda>_ w. w, on_client_leave = session_on_client_leave, on_rmi = \<lambda>_ _ _ w. (Inr False, w)\<rparr>"

definition session_on_rmi :: "host_id \<Rightarrow> u16 \<Rightarrow> message_reader \<Rightarrow> session_world \<Rightarrow> (exn + bool) \<times> session_world" where
  "session_on_rmi client rmi_id params w =
     (if rmi_id = Logon_CLSS then
        (case rbind read_string (\<lambda>user. rbind read_string (\<lambda>password. rreturn (user, password))) params of
           Inl e \<Rightarrow> (Inl e, w)
         | Inr ((user, password), _) \<Rightarrow> (Inr True, session_logon client user password w))
      else if rmi_id = Change_Nation_CLSS then
        (case read_u8 params of
           Inl e \<Rightarrow> (Inl e, w)
         | Inr (nation, _) \<Rightarrow>
             (case session_user_of w client of
                None \<Rightarrow> (Inr True, w)
              | Some user \<Rightarrow>
                  (let user' = user\<lparr>su_nation := nation + 1\<rparr>;
                       w' = with_net (on_peer client (\<lambda>p. p\<lparr>user_data := Some user'\<rparr>)) w
                   in (Inr True, send_logon_answer client Change_Nation_SSCL (su_nation user') logon_result_ok w'))))
      else if rmi_id = Logout_CLSS then (Inr True, peer_close session_leave_sink client w)
      else (Inr False, w))"

definition session_sink :: "(session_user, session_app) event_sink" where
  "session_sink =
     \<lparr>on_client_join = \<lambda>_ w. w, on_client_leave = session_on_client_leave, on_rmi = session_on_rmi\<rparr>"

section \<open>The contract\<close>

lemma session_close: "peer_close session_leave_sink = peer_close session_sink"
  by (rule peer_close_leave_only) (simp add: session_leave_sink_def session_sink_def)

lemma m_net_session_leave [simp]: "m_net (session_on_client_leave client w) = m_net w"
  by (auto simp: session_on_client_leave_def split: option.split)

lemma send_logon_answer_net [simp]:
  "m_net (send_logon_answer client i nation result w) =
     on_peer client (peer_send (m_data (logon_answer (ss_config (m_app w)) i nation result)) False) (m_net w)"
  "m_app (send_logon_answer client i nation result w) = m_app w"
  by (simp_all add: send_logon_answer_def)

lemma session_logon_talks: "talk\<^sup>*\<^sup>* (m_net w) (m_net (session_logon client user password w))"
  by (auto simp: session_logon_def Let_def split: prod.split login_result.split option.split
      intro!: talks_send talks_user)

lemma session_on_rmi_steps: "api_steps (m_net w) (m_net (snd (session_on_rmi client i r w)))"
proof (cases "i = Logout_CLSS")
  case True
  have "api_steps (m_net w) (m_net (peer_close session_leave_sink client w))"
    by (rule close_api_steps) (simp add: session_leave_sink_def)
  with True show ?thesis by (simp add: session_on_rmi_def session_rmi_defs)
next
  case False
  then have "talk\<^sup>*\<^sup>* (m_net w) (m_net (snd (session_on_rmi client i r w)))"
    by (auto simp: session_on_rmi_def session_logon_talks Let_def intro!: talks_send talks_user
        split: sum.split option.split)
  then show ?thesis by (rule talks_api_steps)
qed

interpretation sess_join: silent_join session_sink
  by unfold_locales (simp add: session_sink_def)

interpretation sess: event_handler session_sink "\<lambda>_. True"
  by unfold_locales (simp_all add: session_sink_def session_on_rmi_steps)

section \<open>What a logon does\<close>

lemma sent_to_client_send:
  "sent_to (on_peer c (peer_send payload False) s) h =
     sent_to s h @ (if h = c \<and> peer_open s h then [make_frame payload] else [])"
  by (auto simp: sent_to_def find_on_peer peer_open_def sent_peer_send wire_payload_def split: option.split)

lemma peer_open_send [simp]: "peer_open (on_peer c (peer_send payload e) s) h = peer_open s h"
  by (auto simp: peer_open_def find_on_peer split: option.split)

lemma peer_open_user_data [simp]: "peer_open (on_peer c (\<lambda>p. p\<lparr>user_data := u\<rparr>) s) h = peer_open s h"
  by (auto simp: peer_open_def find_on_peer split: option.split)

lemma sent_to_user_data [simp]: "sent_to (on_peer c (\<lambda>p. p\<lparr>user_data := u\<rparr>) s) h = sent_to s h"
  by (auto simp: sent_to_def find_on_peer sent_def split: option.split)

definition answer_payload :: "config \<Rightarrow> u16 \<Rightarrow> bytes" where
  "answer_payload c result =
     rmi # le_bytes 2 User_Logon_SSCL @ [1] @ text_bytes (game_public_ip c) @ le_bytes 2 (game_port c) @ le_bytes 2 result"

lemma m_data_logon_answer: "m_data (logon_answer c User_Logon_SSCL 1 result) = answer_payload c result"
  by (simp add: logon_answer_def wire_simps answer_payload_def)

lemma session_logon_sends:
  "sent_to (m_net (session_logon client user password w)) h = sent_to (m_net w) h @
     (case fst (login user password (ss_accounts (m_app w))) of
        login_ok \<Rightarrow>
          (if map_of (m_online (m_app w)) user = Some h \<and> h \<noteq> client \<and> peer_open (m_net w) h
           then [make_frame (m_data kick_message)] else []) @
          (if h = client \<and> peer_open (m_net w) h
           then [make_frame (answer_payload (ss_config (m_app w)) logon_result_ok)] else [])
      | _ \<Rightarrow>
          if h = client \<and> peer_open (m_net w) h
          then [make_frame (answer_payload (ss_config (m_app w)) logon_result_wrong_password)] else [])"
  by (auto simp: session_logon_def Let_def sent_to_client_send m_data_logon_answer
      split: prod.split login_result.split option.split)

lemma session_logon_app:
  assumes "login user password (ss_accounts (m_app w)) = (result, accounts)"
  shows "m_app (session_logon client user password w) =
    (m_app w)\<lparr>ss_accounts := accounts,
      m_online := (if result = login_ok then omap_put user client (m_online (m_app w)) else m_online (m_app w))\<rparr>"
  using assms by (auto simp: session_logon_def Let_def split: login_result.split option.split)

text \<open>The session server changes the accounts through logins only.\<close>

lemma session_leave_accounts: "ss_accounts (m_app (session_on_client_leave h w)) = ss_accounts (m_app w)"
  by (simp add: session_on_client_leave_def split: option.split)

lemma session_on_rmi_accounts: "grown (ss_accounts (m_app w)) (ss_accounts (m_app (snd (session_on_rmi client i r w))))"
proof -
  have "ss_accounts (m_app (session_logon client user password w)) = snd (login user password (ss_accounts (m_app w)))" for user password
    by (simp add: session_logon_app [OF surjective_pairing])
  then have "grown (ss_accounts (m_app w)) (ss_accounts (m_app (session_logon client user password w)))" for user password
    by (simp add: grown_login)
  moreover have "ss_accounts (m_app (peer_close session_leave_sink h w)) = ss_accounts (m_app w)" for h
    by (simp add: peer_close_def Let_def session_leave_sink_def session_leave_accounts split: option.split)
  ultimately show ?thesis
    by (auto simp: session_on_rmi_def Let_def split: sum.split option.split)
qed

interpretation sess_store: store_client session_sink ss_accounts
  by unfold_locales
    (simp_all add: lawful_def session_sink_def session_leave_accounts session_on_rmi_accounts
      api_steps_frame [OF session_on_rmi_steps])

text \<open>The configuration stays, and whoever is recorded as online has an account.\<close>

definition session_known :: "config \<Rightarrow> session_app \<Rightarrow> bool" where
  "session_known c a \<longleftrightarrow> ss_config a = c \<and> (\<forall>u h. map_of (m_online a) u = Some h \<longrightarrow> find_account (ss_accounts a) u \<noteq> None)"

lemma session_leave_known: "session_known c (m_app w) \<Longrightarrow> session_known c (m_app (session_on_client_leave h w))"
  by (auto simp: session_on_client_leave_def session_known_def map_of_omap_del split: option.split)

lemma session_logon_known:
  assumes "session_known c (m_app w)"
  shows "session_known c (m_app (session_logon client user password w))"
proof -
  obtain result accounts where l: "login user password (ss_accounts (m_app w)) = (result, accounts)" by force
  have "find_account accounts u \<noteq> None" if "find_account (ss_accounts (m_app w)) u \<noteq> None" for u
    using that acc.found_stays [of "ss_accounts (m_app w)" u _ user password] l by force
  moreover have "find_account accounts user \<noteq> None" if "result = login_ok"
    using that l acc.ok_found by fastforce
  ultimately show ?thesis
    using assms by (auto simp: session_logon_app [OF l] session_known_def map_of_omap_put)
qed

lemma session_on_rmi_known: "session_known c (m_app w) \<Longrightarrow> session_known c (m_app (snd (session_on_rmi client i r w)))"
proof -
  assume k: "session_known c (m_app w)"
  then have "session_known c (m_app (peer_close session_leave_sink h w))" for h
    using session_leave_known [of c "with_net (mark_closed h) w" h]
    by (simp add: peer_close_def Let_def session_leave_sink_def split: option.split)
  then show ?thesis
    using k session_logon_known [OF k] by (simp add: session_on_rmi_def Let_def split: sum.split option.split)
qed

interpretation sess_known: app_invariant session_sink "\<lambda>_. session_known c" for c
  by unfold_locales (simp_all add: session_sink_def session_leave_known session_on_rmi_known)

lemma session_logon_user:
  assumes "fst (login user password (ss_accounts (m_app w))) = login_ok" "find_peer (m_net w) client \<noteq> None"
  shows "map_option su_username (session_user_of (session_logon client user password w) client) = Some user"
  using assms
  by (auto simp: session_logon_def Let_def session_user_of_def find_on_peer split: prod.split option.split)

text \<open>
  A connection that has logged in twice is remembered under its last name; leaving removes that
  entry and keeps the first one.
\<close>

lemma session_leave_forgets_one:
  assumes "find_peer (m_net w) client = Some p" "m_state p = connected"
    "user_data p = Some u" "su_username u \<noteq> first" "map_of (m_online (m_app w)) first = Some client"
  shows "map_of (m_online (m_app (peer_close session_sink client w))) first = Some client"
    "find_peer (m_net (peer_close session_sink client w)) client = None"
  using assms
  by (auto simp: peer_close_def session_sink_def Let_def session_on_client_leave_def session_user_of_def find_mark_closed
      map_of_omap_del on_peer_closed_effect)

end
