(* ===== verification/Session_Login.thy ===== *)
theory Session_Login
  imports Session
begin

text \<open>
  The way of a client to the session server: connecting, the handshake and a logon with accepted
  credentials are answered with the address of the game server, from every consistent state.
\<close>

definition session_logon_payload :: "str \<Rightarrow> str \<Rightarrow> bytes" where
  "session_logon_payload user password = rmi # le_bytes 2 Logon_CLSS @ text_bytes user @ text_bytes password"

lemma session_logon_fits:
  assumes "length user \<le> 2 ^ 16" "length password \<le> 2 ^ 16"
  shows "length (session_logon_payload user password) \<le> max_frame_payload"
  using length_text_bytes [of user] length_text_bytes [of password] assms
  by (simp add: session_logon_payload_def max_frame_payload_def)

lemma process_session_logon:
  assumes "idle w h p" "m_state p = connected" "wire_text user" "wire_text password"
  shows "snd (process_payload session_sink h (session_logon_payload user password) False w) = session_logon h user password w"
proof -
  have read: "rbind read_string (\<lambda>user. rbind read_string (\<lambda>password. rreturn (user, password)))
      (reader_at pre (text_bytes user @ text_bytes password)) =
      Inr ((user, password), reader_at (pre @ text_bytes user @ text_bytes password) [])" for pre
    using assms(3,4) by (simp add: textc.rbind_dec textc.rbind_dec_end rreturn_def)
  have core: "\<not> c2s_first \<le> Logon_CLSS" by (simp add: c2s_first_def Logon_CLSS_def)
  have "peer_on_rmi session_sink h (reader_at pre (le_bytes 2 Logon_CLSS @ text_bytes user @ text_bytes password)) w =
      (Inr (), session_logon h user password w)" for pre
    using core by (simp add: peer_on_rmi_def u16c.dec_enc session_sink_def session_on_rmi_def read)
  moreover have "rmi \<notin> {notify_cs_public_key, notify_server_connection_request_data, encrypted_reliable, encrypted_unreliable}"
    by (simp add: message_type_defs)
  ultimately show ?thesis
    using assms(1,2) by (simp add: session_logon_payload_def idle_def process_payload.simps read_type)
qed

text \<open>A logon leaves the connection of the client open and its parser as it is.\<close>

lemma session_logon_find:
  assumes "find_peer (m_net w) client = Some q"
  obtains q' where "find_peer (m_net (session_logon client user password w)) client = Some q'" "m_state q' = m_state q"
    "m_parser q' = m_parser q"
proof -
  have "\<exists>q'. find_peer (m_net (session_logon client user password w)) client = Some q' \<and> m_state q' = m_state q \<and>
      m_parser q' = m_parser q"
    using assms by (auto simp: session_logon_def Let_def find_on_peer split: prod.split login_result.split option.split)
  then show ?thesis using that by blast
qed

lemma client_registers:
  assumes w: "net_inv (m_net w)" "length (m_peers (m_net w)) < 2 ^ 30"
    and config: "m_config (m_net w) = session_server_config c"
    and n: "27 \<le> length n" "length n \<le> 2 ^ 16"
    and login: "wire_text user" "wire_text password" "fst (login user password (ss_accounts (m_app w))) = login_ok"
    and len: "length (session_logon_payload user password) \<le> max_frame_payload"
  obtains h w' p frames where "find_peer (m_net w) h = None"
    "reads session_sink h [make_frame (key_hello e n), make_frame (connect_hello session_protocol_version [] i),
       make_frame (session_logon_payload user password)] (accept_done (Some remote) w) = Some w'"
    "idle w' h p" "m_state p = connected" "sent p = frames @ [make_frame (answer_payload (ss_config (m_app w)) logon_result_ok)]"
    "ss_accounts (m_app w') = snd (login user password (ss_accounts (m_app w)))" "map_of (m_online (m_app w')) user = Some h"
proof -
  let ?x = "session_logon_payload user password"
  have v: "protocol_version (m_config (m_net w)) = session_protocol_version" "length session_protocol_version = 16"
    by (simp_all add: config session_server_config_def session_protocol_version_def length_derive_protocol_version)
  obtain h v p where h: "find_peer (m_net w) h = None"
    "reads session_sink h [make_frame (key_hello e n), make_frame (connect_hello session_protocol_version [] i)]
       (accept_done (Some remote) w) = Some v" "idle v h p" "m_state p = connected" "m_app v = m_app w"
    using sess_join.handshake [OF w n, of "[]" e i remote] v by auto
  from read_frame [OF h(3) len, where sink = session_sink] obtain u q where u: "idle u h q" "m_state q = connected" "m_app u = m_app w"
    "\<And>q'. idle (snd (process_payload session_sink h ?x False u)) h q' \<Longrightarrow>
       \<exists>w''. read_done session_sink h (Some (make_frame ?x)) v = Some w'' \<and> idle w'' h q' \<and>
         m_app w'' = m_app (snd (process_payload session_sink h ?x False u))"
    using h(4,5) by metis
  note pl = process_session_logon [OF u(1,2) login(1,2)]
  have uq: "find_peer (m_net u) h = Some q" using u(1) by (simp add: idle_def)
  obtain q' where q': "find_peer (m_net (session_logon h user password u)) h = Some q'" "m_state q' = connected" "m_parser q' = m_parser q"
    using session_logon_find [OF uq, of user password] u(2) by metis
  then have "idle (session_logon h user password u) h q'" using u(1) by (simp add: idle_def)
  then obtain w' where w': "read_done session_sink h (Some (make_frame ?x)) v = Some w'"
    "idle w' h q'" "m_app w' = m_app (session_logon h user password u)"
    using u(4) [of q'] unfolding pl by blast
  obtain accounts where l: "login user password (ss_accounts (m_app u)) = (login_ok, accounts)"
    using login(3) u(3) by (metis prod.collapse)
  have "sent q' = sent_to (m_net (session_logon h user password u)) h" by (simp add: sent_to_def q'(1))
  also have "\<dots> = sent_to (m_net u) h @ [make_frame (answer_payload (ss_config (m_app w)) logon_result_ok)]"
    using uq u(2,3) login(3) by (simp add: session_logon_sends peer_open_def)
  finally have s: "sent q' = sent_to (m_net u) h @ [make_frame (answer_payload (ss_config (m_app w)) logon_result_ok)]" .
  have a: "ss_accounts (m_app w') = snd (login user password (ss_accounts (m_app w)))" "map_of (m_online (m_app w')) user = Some h"
    using w'(3) session_logon_app [OF l, of h] l u(3) by (simp_all add: map_of_omap_put)
  have "reads session_sink h ([make_frame (key_hello e n), make_frame (connect_hello session_protocol_version [] i)] @
      [make_frame ?x]) (accept_done (Some remote) w) = Some w'"
    unfolding reads_append h(2) by (simp add: w'(1))
  then show ?thesis using that [OF h(1) _ w'(2) q'(2) s a] by simp
qed

end
