(* ===== verification/Handlers.thy ===== *)
theory Handlers
  imports Proudnet_Channel
begin

text \<open>
  What the message handlers of the applications share: updating the application, sending through
  the server, and decoding the parameters of a message before acting on them. A handler whose
  parameters are too short throws before it changes anything.
\<close>

definition with_app :: "('a \<Rightarrow> 'a) \<Rightarrow> ('u, 'a) world \<Rightarrow> ('u, 'a) world" where
  "with_app f w = w\<lparr>m_app := f (m_app w)\<rparr>"

text \<open>\<^verbatim>\<open>m_net.send(host, message)\<close>\<close>

definition net_send :: "host_id \<Rightarrow> message_writer \<Rightarrow> ('u, 'a) world \<Rightarrow> ('u, 'a) world" where
  "net_send host m = with_net (server_send host m False)"

definition reading ::
  "'v read \<Rightarrow> message_reader \<Rightarrow> ('u, 'a) world \<Rightarrow> ('v \<Rightarrow> ('u, 'a) world \<Rightarrow> ('u, 'a) world) \<Rightarrow> (exn + bool) \<times> ('u, 'a) world"
  where "reading dec r w act = (case dec r of Inl e \<Rightarrow> (Inl e, w) | Inr (v, _) \<Rightarrow> (Inr True, act v w))"

definition read_pair :: "'v read \<Rightarrow> 'b read \<Rightarrow> ('v \<times> 'b) read" where
  "read_pair a b = rbind a (\<lambda>x. rbind b (\<lambda>y. rreturn (x, y)))"

lemma with_app_simps [simp]: "m_net (with_app f w) = m_net w" "m_app (with_app f w) = f (m_app w)"
  by (simp_all add: with_app_def)

lemma net_send_simps [simp]:
  "m_net (net_send h m w) = server_send h m False (m_net w)" "m_app (net_send h m w) = m_app w"
  by (simp_all add: net_send_def)

lemma talks_net_send: "talk\<^sup>*\<^sup>* s (m_net w) \<Longrightarrow> talk\<^sup>*\<^sup>* s (m_net (net_send h m w))"
  using talks_server_send by (fastforce intro: rtranclp_trans)

lemma fold_world_inv:
  assumes "P w" "\<And>x w. P w \<Longrightarrow> P (f x w)"
  shows "P (fold f xs w)"
  using assms(1) by (rule fold_invariant_set) (rule assms(2))

lemma snd_if_intro: "(b \<Longrightarrow> P (snd x)) \<Longrightarrow> (\<not> b \<Longrightarrow> P (snd y)) \<Longrightarrow> P (snd (if b then x else y))"
  by simp

lemma reading_talks:
  "(\<And>v w. talk\<^sup>*\<^sup>* (m_net w) (m_net (act v w))) \<Longrightarrow> talk\<^sup>*\<^sup>* (m_net w) (m_net (snd (reading dec r w act)))"
  by (auto simp: reading_def split: sum.split)

lemma api_steps_send: "api_steps s s' \<Longrightarrow> api_steps s (on_peer h (peer_send payload e) s')"
  by (erule api_talk) (rule talk_send)

lemma reading_keeps:
  "P (m_app w) \<Longrightarrow> (\<And>v w. P (m_app w) \<Longrightarrow> P (m_app (act v w))) \<Longrightarrow> P (m_app (snd (reading dec r w act)))"
  by (auto simp: reading_def split: sum.split)

end
