(* ===== verification/Messenger.thy ===== *)
theory Messenger
  imports Session Handlers
begin

text \<open>
  The messenger server, \<^verbatim>\<open>src/src/messenger/messenger_server.hpp\<close> and \<^verbatim>\<open>.cpp\<close>: friends, whispers,
  invitations and mail between online users; clans are answered with empty data. The state is the map
  of online users by HostID and the friendships by user name. Every message handler is a function on
  the state that may throw and keeps what it had already changed.
\<close>

section \<open>RMI numbers and result codes\<close>

definition Logon_CLMS :: u16 where "Logon_CLMS = 2601"
definition Add_Friend_Nick :: u16 where "Add_Friend_Nick = 2603"
definition Add_Friend_UserID :: u16 where "Add_Friend_UserID = 2604"
definition Agree_Friend_Answer :: u16 where "Agree_Friend_Answer = 2606"
definition Del_Friend :: u16 where "Del_Friend = 2607"
definition Del_Friend_UserID :: u16 where "Del_Friend_UserID = 2608"
definition Change_Position :: u16 where "Change_Position = 2609"
definition Whisper_UserIndex_CLMS :: u16 where "Whisper_UserIndex_CLMS = 2610"
definition Whisper_UserID :: u16 where "Whisper_UserID = 2611"
definition Invitation_CLMS :: u16 where "Invitation_CLMS = 2612"
definition Invitation_Answer_CLMS :: u16 where "Invitation_Answer_CLMS = 2613"
definition Send_Message_CLMS :: u16 where "Send_Message_CLMS = 2616"
definition Send_Message_Id :: u16 where "Send_Message_Id = 2617"
definition Get_Message :: u16 where "Get_Message = 2618"
definition Create_Clan_CLMS :: u16 where "Create_Clan_CLMS = 2620"
definition Join_Clan_CLMS :: u16 where "Join_Clan_CLMS = 2621"
definition Join_Clan_Name :: u16 where "Join_Clan_Name = 2622"
definition Secede_Clan_CLMS :: u16 where "Secede_Clan_CLMS = 2623"
definition Dissolve_Clan_CLMS :: u16 where "Dissolve_Clan_CLMS = 2624"
definition Clan_List :: u16 where "Clan_List = 2627"
definition Check_Clan_Name_CLMS :: u16 where "Check_Clan_Name_CLMS = 2636"
definition RankInfo_Request :: u16 where "RankInfo_Request = 2644"
definition Find_User_Clan :: u16 where "Find_User_Clan = 2649"
definition CL2MS_Test :: u16 where "CL2MS_Test = 2650"

lemmas clms_defs =
  Logon_CLMS_def Add_Friend_Nick_def Add_Friend_UserID_def Agree_Friend_Answer_def Del_Friend_def
  Del_Friend_UserID_def Change_Position_def Whisper_UserIndex_CLMS_def Whisper_UserID_def Invitation_CLMS_def
  Invitation_Answer_CLMS_def Send_Message_CLMS_def Send_Message_Id_def Get_Message_def Create_Clan_CLMS_def
  Join_Clan_CLMS_def Join_Clan_Name_def Secede_Clan_CLMS_def Dissolve_Clan_CLMS_def Clan_List_def
  Check_Clan_Name_CLMS_def RankInfo_Request_def Find_User_Clan_def CL2MS_Test_def

definition Logon_MSCL :: u16 where "Logon_MSCL = 2701"
definition Change_State :: u16 where "Change_State = 2706"
definition Insert_Friend :: u16 where "Insert_Friend = 2707"
definition Agree_Friend :: u16 where "Agree_Friend = 2708"
definition Agree_Friend_AnswerResult :: u16 where "Agree_Friend_AnswerResult = 2710"
definition Delete_Friend_UserID :: u16 where "Delete_Friend_UserID = 2713"
definition Add_Friend_Info :: u16 where "Add_Friend_Info = 2714"
definition Whisper_UserIndex_MSCL :: u16 where "Whisper_UserIndex_MSCL = 2715"
definition Whisper_Answer :: u16 where "Whisper_Answer = 2716"
definition Invitation_MSCL :: u16 where "Invitation_MSCL = 2717"
definition Invitation_Answer_MSCL :: u16 where "Invitation_Answer_MSCL = 2718"
definition Send_Message_MSCL :: u16 where "Send_Message_MSCL = 2720"
definition Create_Clan_MSCL :: u16 where "Create_Clan_MSCL = 2722"
definition Join_Clan_MSCL :: u16 where "Join_Clan_MSCL = 2723"
definition Secede_Clan_MSCL :: u16 where "Secede_Clan_MSCL = 2727"
definition Dissolve_Clan_MSCL :: u16 where "Dissolve_Clan_MSCL = 2729"
definition Message_Info :: u16 where "Message_Info = 2735"
definition Clan_List_Request :: u16 where "Clan_List_Request = 2741"
definition Check_Clan_Name_MSCL :: u16 where "Check_Clan_Name_MSCL = 2744"
definition RankInfo_Answer :: u16 where "RankInfo_Answer = 2759"
definition Find_User_Clan_Answer :: u16 where "Find_User_Clan_Answer = 2763"

definition ms_ok :: u16 where "ms_ok = 0"
definition whisper_target_offline :: u16 where "whisper_target_offline = 9"
definition invitation_not_connected :: u8 where "invitation_not_connected = 1"
definition clan_create_failed :: u16 where "clan_create_failed = 9"
definition clan_join_not_found :: u16 where "clan_join_not_found = 6"
definition clan_not_member :: u16 where "clan_not_member = 3"
definition state_offline :: u16 where "state_offline = 0"
definition state_online :: u16 where "state_online = 1"

section \<open>State\<close>

record messenger_user =
  mu_host :: host_id
  mu_account :: account
  mu_room :: u16
  position_a :: u8
  position_b :: u8
  pending_requests :: "str oset"

text \<open>\<open>ms_dates\<close> are the dates the successive readings of the system clock give, formatted as the source does.\<close>

record messenger_app =
  ms_accounts :: account_store
  m_users :: "(host_id, messenger_user) omap"
  m_friendships :: "(str, str oset) omap"
  ms_dates :: "nat \<Rightarrow> str"
  ms_date_position :: nat

type_synonym messenger_world = "(unit, messenger_app) world"

definition messenger_server_config :: "config \<Rightarrow> server_config" where
  "messenger_server_config c = \<lparr>sc_name = ''messenger'', sc_port = messenger_port c,
     protocol_version = messenger_protocol_version, settings = net_settings_default, timeout = 90\<rparr>"

definition messenger_new ::
  "config \<Rightarrow> account_store \<Rightarrow> (nat \<Rightarrow> str) \<Rightarrow> rng \<Rightarrow> clock \<Rightarrow> (nat \<Rightarrow> f64) \<Rightarrow> messenger_world" where
  "messenger_new c accounts dates g clk seconds =
     \<lparr>m_net = server_new (messenger_server_config c) g clk seconds,
      m_app = \<lparr>ms_accounts = accounts, m_users = [], m_friendships = [], ms_dates = dates, ms_date_position = 0\<rparr>\<rparr>"

text \<open>\<^verbatim>\<open>m_friendships[name]\<close>: the set, and the map with the entry the access creates\<close>

definition friends_of :: "messenger_app \<Rightarrow> str \<Rightarrow> str oset" where
  "friends_of a name = (case map_of (m_friendships a) name of None \<Rightarrow> [] | Some s \<Rightarrow> s)"

definition touch_friends :: "str \<Rightarrow> messenger_app \<Rightarrow> messenger_app" where
  "touch_friends name a = a\<lparr>m_friendships := omap_emplace name [] (m_friendships a)\<rparr>"

definition put_friends :: "str \<Rightarrow> str oset \<Rightarrow> messenger_app \<Rightarrow> messenger_app" where
  "put_friends name s a = a\<lparr>m_friendships := omap_put name s (m_friendships a)\<rparr>"

definition online :: "messenger_app \<Rightarrow> str \<Rightarrow> (host_id \<times> messenger_user) option" where
  "online a username = List.find (\<lambda>(h, u). acc_username (mu_account u) = username) (m_users a)"

definition by_index :: "messenger_app \<Rightarrow> u32 \<Rightarrow> (host_id \<times> messenger_user) option" where
  "by_index a i = List.find (\<lambda>(h, u). acc_index (mu_account u) = i) (m_users a)"

section \<open>Messages\<close>

definition write_empty_clan_info :: "message_writer \<Rightarrow> message_writer" where
  "write_empty_clan_info = writes
     ([write_u32 0, write_text [], write_text []] @ replicate 14 (write_u32 0) @ replicate 9 (write_u16 0) @
      [write_u8 0, write_text [], write_text [], write_text []] @ replicate 5 (write_u8 0))"

definition write_empty_clan_member_info :: "message_writer \<Rightarrow> message_writer" where
  "write_empty_clan_member_info = writes
     ([write_u32 0, write_u32 0, write_text [], write_text [], write_u16 0] @ replicate 10 (write_u32 0) @
      [write_u8 0, write_u8 0] @ replicate 4 (write_u16 0) @ [write_text [], write_u16 0, write_u8 0])"

definition write_empty_clan_board_info :: "message_writer \<Rightarrow> message_writer" where
  "write_empty_clan_board_info = writes
     [write_u32 0, write_u32 0, write_u32 0, write_u8 0, write_text [], write_text [], write_text []]"

definition write_message_info :: "str \<Rightarrow> u32 \<Rightarrow> u32 \<Rightarrow> str \<Rightarrow> str \<Rightarrow> message_writer \<Rightarrow> message_writer" where
  "write_message_info date i receiver sender body = writes
     [write_u32 i, write_u32 receiver, write_u32 0, write_u8 0, write_u8 0, write_text sender, write_text body,
      write_text date]"

definition next_date :: "messenger_world \<Rightarrow> str \<times> messenger_world" where
  "next_date w = (ms_dates (m_app w) (ms_date_position (m_app w)),
     with_app (\<lambda>a. a\<lparr>ms_date_position := ms_date_position a + 1\<rparr>) w)"

definition write_friend_info :: "messenger_app \<Rightarrow> str \<Rightarrow> message_writer \<Rightarrow> message_writer" where
  "write_friend_info a username =
     (let acc = find_account (ms_accounts a) username;
          other = online a username
      in writes
        ([write_u16 (case other of None \<Rightarrow> 0 | Some (_, o') \<Rightarrow> mu_room o'),
          write_u32 0,
          write_u32 (case acc of None \<Rightarrow> 0 | Some x \<Rightarrow> acc_index x),
          write_text username,
          write_u32 0, write_u16 0, write_u16 0] @ replicate 8 (write_u8 0) @
         [write_u8 (case other of None \<Rightarrow> 0 | Some (_, o') \<Rightarrow> position_a o'),
          write_u8 (case other of None \<Rightarrow> 0 | Some (_, o') \<Rightarrow> position_b o'),
          write_u8 (case other of None \<Rightarrow> 0 | Some _ \<Rightarrow> 1),
          write_u8 0, write_u32 0, write_text [], write_text []]))"

section \<open>Friends and whispers\<close>

definition notify_friends_state :: "messenger_user \<Rightarrow> u16 \<Rightarrow> messenger_world \<Rightarrow> messenger_world" where
  "notify_friends_state u state w =
     (let name = acc_username (mu_account u);
          w1 = with_app (touch_friends name) w
      in fold (\<lambda>f w.
           case online (m_app w) f of
             None \<Rightarrow> w
           | Some (_, other) \<Rightarrow>
               net_send (mu_host other)
                 (writes [write_u32 (mu_host u), write_u32 (acc_index (mu_account u)), write_u16 state]
                   (rmi_begin Change_State)) w)
         (friends_of (m_app w1) name) w1)"

definition insert_friend_message :: "messenger_app \<Rightarrow> host_id \<Rightarrow> u32 \<Rightarrow> str \<Rightarrow> u16 \<Rightarrow> message_writer" where
  "insert_friend_message a host i name result = writes
     [write_u32 host, write_u32 i, write_friend_info a name, write_u16 result] (rmi_begin Insert_Friend)"

definition add_friend :: "messenger_user \<Rightarrow> str \<Rightarrow> messenger_world \<Rightarrow> messenger_world" where
  "add_friend u target w =
     (let name = acc_username (mu_account u) in
      case online (m_app w) target of
        None \<Rightarrow> net_send (mu_host u) (insert_friend_message (m_app w) (mu_host u) 0 target 1) w
      | Some (key, other) \<Rightarrow>
          if target = name then net_send (mu_host u) (insert_friend_message (m_app w) (mu_host u) 0 target 1) w
          else
            (let w1 = with_app (touch_friends name) w in
             if target \<in> set (friends_of (m_app w1) name)
             then net_send (mu_host u)
                    (insert_friend_message (m_app w1) (mu_host u) (acc_index (mu_account other)) target 9) w1
             else
               (let w2 = with_app (\<lambda>a. a\<lparr>m_users := omap_put key
                      (other\<lparr>pending_requests := oset_add name (pending_requests other)\<rparr>) (m_users a)\<rparr>) w1
                in net_send (mu_host other)
                     (writes [write_u32 (mu_host u), write_text name] (rmi_begin Agree_Friend)) w2)))"

text \<open>\<open>key\<close> is the map key of the user \<open>u\<close> whose message is handled.\<close>

definition answer_friend :: "host_id \<Rightarrow> messenger_user \<Rightarrow> str \<Rightarrow> bool \<Rightarrow> messenger_world \<Rightarrow> messenger_world" where
  "answer_friend key u requester accept w =
     (if requester \<notin> set (pending_requests u) then w
      else
        (let name = acc_username (mu_account u);
             u' = u\<lparr>pending_requests := oset_del requester (pending_requests u)\<rparr>;
             w1 = with_app (\<lambda>a. a\<lparr>m_users := omap_put key u' (m_users a)\<rparr>) w;
             w2 = (if accept
                   then with_app (\<lambda>a.
                      let a1 = put_friends name (oset_add requester (friends_of a name)) a
                      in put_friends requester (oset_add name (friends_of a1 requester)) a1) w1
                   else w1);
             w3 = net_send (mu_host u')
                    (writes [write_friend_info (m_app w2) requester, write_u8 (if accept then 1 else 0), write_u16 ms_ok]
                      (rmi_begin Agree_Friend_AnswerResult)) w2
         in case online (m_app w3) requester of
              None \<Rightarrow> w3
            | Some (_, other) \<Rightarrow>
                if accept
                then net_send (mu_host other)
                       (insert_friend_message (m_app w3) (mu_host u') (acc_index (mu_account u')) name ms_ok) w3
                else w3))"

definition delete_friend :: "messenger_user \<Rightarrow> str \<Rightarrow> messenger_world \<Rightarrow> messenger_world" where
  "delete_friend u target w =
     (let name = acc_username (mu_account u);
          w1 = with_app (\<lambda>a.
             let a1 = put_friends name (oset_del target (friends_of a name)) a
             in put_friends target (oset_del name (friends_of a1 target)) a1) w
      in net_send (mu_host u) (writes [write_text target, write_u16 ms_ok] (rmi_begin Delete_Friend_UserID)) w1)"

definition whisper :: "messenger_user \<Rightarrow> str \<Rightarrow> str \<Rightarrow> u8 \<Rightarrow> messenger_world \<Rightarrow> messenger_world" where
  "whisper u target body flag w =
     (case online (m_app w) target of
        None \<Rightarrow> net_send (mu_host u)
          (writes [write_text target, write_u16 whisper_target_offline] (rmi_begin Whisper_Answer)) w
      | Some (_, other) \<Rightarrow> net_send (mu_host other)
          (writes [write_text (acc_username (mu_account u)), write_text body, write_u8 flag]
            (rmi_begin Whisper_UserIndex_MSCL)) w)"

section \<open>Events\<close>

definition messenger_on_client_leave :: "host_id \<Rightarrow> messenger_world \<Rightarrow> messenger_world" where
  "messenger_on_client_leave client w =
     (case map_of (m_users (m_app w)) client of
        None \<Rightarrow> w
      | Some user \<Rightarrow>
          notify_friends_state user state_offline
            (with_app (\<lambda>a. a\<lparr>m_users := omap_del client (m_users a)\<rparr>) w))"

text \<open>The part of the messenger that a closing connection sees\<close>

definition messenger_leave_sink :: "(unit, messenger_app) event_sink" where
  "messenger_leave_sink =
     \<lparr>on_client_join = \<lambda>_ w. w, on_client_leave = messenger_on_client_leave, on_rmi = \<lambda>_ _ _ w. (Inr False, w)\<rparr>"

definition logon_reply :: "u32 \<Rightarrow> u16 \<Rightarrow> message_writer" where
  "logon_reply i result = writes
     [write_u8 0, write_u32 i, write_u8 0, write_u16 0, write_u32 0, write_u16 result] (rmi_begin Logon_MSCL)"

definition friend_list_message :: "messenger_app \<Rightarrow> str oset \<Rightarrow> message_writer" where
  "friend_list_message a friends = writes
     ([write_i32 (of_nat (length friends))] @ map (write_friend_info a) friends @ [write_u16 ms_ok])
     (rmi_begin Add_Friend_Info)"

definition messenger_logon :: "host_id \<Rightarrow> str \<Rightarrow> str \<Rightarrow> messenger_world \<Rightarrow> messenger_world" where
  "messenger_logon client user password w =
     (let acc = find_account (ms_accounts (m_app w)) user;
          (result, accounts) = login user password (ms_accounts (m_app w));
          w1 = with_app (\<lambda>a. a\<lparr>ms_accounts := accounts\<rparr>) w
      in case acc of
           None \<Rightarrow> client_send client (logon_reply 0 1) w1
         | Some acc' \<Rightarrow>
             if result \<noteq> login_ok then client_send client (logon_reply 0 1) w1
             else
               (let w2 = (case online (m_app w1) user of
                            None \<Rightarrow> w1
                          | Some (_, old) \<Rightarrow> peer_close messenger_leave_sink (mu_host old) w1);
                    u = \<lparr>mu_host = client, mu_account = acc', mu_room = 0, position_a = 0, position_b = 0,
                         pending_requests = []\<rparr>;
                    w3 = with_app (\<lambda>a. a\<lparr>m_users := omap_put client u (m_users a)\<rparr>) w2;
                    w4 = client_send client (logon_reply (acc_index acc') ms_ok) w3;
                    w5 = with_app (touch_friends user) w4;
                    w6 = client_send client (friend_list_message (m_app w5) (friends_of (m_app w5) user)) w5
                in notify_friends_state u state_online w6))"

text \<open>Each field is stored as soon as it is read, so an early end of the message keeps the first ones.\<close>

definition change_position :: "host_id \<Rightarrow> messenger_user \<Rightarrow> message_reader \<Rightarrow> messenger_world \<Rightarrow> (exn + bool) \<times> messenger_world" where
  "change_position key u r w =
     (let put = (\<lambda>u. with_app (\<lambda>a. a\<lparr>m_users := omap_put key u (m_users a)\<rparr>)) in
      case read_u16 r of
        Inl e \<Rightarrow> (Inl e, w)
      | Inr (room, r1) \<Rightarrow>
          (let u1 = u\<lparr>mu_room := room\<rparr> in
           case read_u8 r1 of
             Inl e \<Rightarrow> (Inl e, put u1 w)
           | Inr (a, r2) \<Rightarrow>
               (let u2 = u1\<lparr>position_a := a\<rparr> in
                case read_u8 r2 of
                  Inl e \<Rightarrow> (Inl e, put u2 w)
                | Inr (b, _) \<Rightarrow> (Inr True, put (u2\<lparr>position_b := b\<rparr>) w))))"

definition invitation :: "messenger_user \<Rightarrow> str \<times> u32 \<times> str \<Rightarrow> messenger_world \<Rightarrow> messenger_world" where
  "invitation u = (\<lambda>(target, room, body) w.
     case online (m_app w) target of
       Some (_, other) \<Rightarrow> net_send (mu_host other)
         (writes [write_text (acc_username (mu_account u)), write_u32 room, write_text body] (rmi_begin Invitation_MSCL)) w
     | None \<Rightarrow> net_send (mu_host u)
         (writes [write_text target, write_u8 invitation_not_connected] (rmi_begin Invitation_Answer_MSCL)) w)"

definition invitation_answer :: "messenger_user \<Rightarrow> str \<times> u8 \<Rightarrow> messenger_world \<Rightarrow> messenger_world" where
  "invitation_answer u = (\<lambda>(inviter, answer) w.
     case online (m_app w) inviter of
       Some (_, other) \<Rightarrow> net_send (mu_host other)
         (writes [write_text (acc_username (mu_account u)), write_u8 answer] (rmi_begin Invitation_Answer_MSCL)) w
     | None \<Rightarrow> w)"

definition send_mail :: "messenger_user \<Rightarrow> (host_id \<times> messenger_user) option \<Rightarrow> str \<Rightarrow> messenger_world \<Rightarrow> messenger_world" where
  "send_mail u target body w =
     (let name = acc_username (mu_account u);
          receiver_index = (case target of None \<Rightarrow> 0 | Some (_, t) \<Rightarrow> acc_index (mu_account t));
          w1 = (case target of
                  None \<Rightarrow> w
                | Some (_, t) \<Rightarrow>
                    (let (date, w') = next_date w
                     in net_send (mu_host t)
                          (writes [write_message_info date 1 receiver_index name body, write_u16 ms_ok]
                            (rmi_begin Send_Message_MSCL)) w'));
          (date, w2) = next_date w1
      in net_send (mu_host u)
           (writes [write_message_info date 1 receiver_index name body,
                    write_u16 (case target of None \<Rightarrow> 15 | Some _ \<Rightarrow> ms_ok)]
             (rmi_begin Send_Message_MSCL)) w2)"

definition create_clan_answer :: message_writer where
  "create_clan_answer = writes
     [write_empty_clan_info, write_empty_clan_member_info, write_u32 0, write_empty_clan_board_info,
      write_u16 clan_create_failed] (rmi_begin Create_Clan_MSCL)"

definition join_clan_answer :: "str \<Rightarrow> message_writer" where
  "join_clan_answer date = writes
     [write_text [], write_u8 0, write_u8 0, write_message_info date 0 0 [] [], write_u32 0,
      write_u16 clan_join_not_found] (rmi_begin Join_Clan_MSCL)"

text \<open>The cases about clans, which the server does not have, and the default\<close>

definition clan_on_rmi ::
  "messenger_user \<Rightarrow> u16 \<Rightarrow> message_reader \<Rightarrow> messenger_world \<Rightarrow> (exn + bool) \<times> messenger_world" where
  "clan_on_rmi u rmi_id r w =
     (if rmi_id = Clan_List then
        (Inr True, net_send (mu_host u) (writes [write_i32 0, write_u16 ms_ok] (rmi_begin Clan_List_Request)) w)
      else if rmi_id = Check_Clan_Name_CLMS then
        reading read_string r w (\<lambda>name.
          net_send (mu_host u) (writes [write_text name, write_u16 1] (rmi_begin Check_Clan_Name_MSCL)))
      else if rmi_id = Create_Clan_CLMS then (Inr True, net_send (mu_host u) create_clan_answer w)
      else if rmi_id = Join_Clan_CLMS \<or> rmi_id = Join_Clan_Name then
        (let (date, w') = next_date w in (Inr True, net_send (mu_host u) (join_clan_answer date) w'))
      else if rmi_id = Secede_Clan_CLMS \<or> rmi_id = Dissolve_Clan_CLMS then
        (Inr True, net_send (mu_host u) (write_u16 clan_not_member
           (rmi_begin (if rmi_id = Secede_Clan_CLMS then Secede_Clan_MSCL else Dissolve_Clan_MSCL))) w)
      else if rmi_id = RankInfo_Request then
        (Inr True, net_send (mu_host u)
           (writes [write_i32 0, write_i32 0, write_u32 0, write_u32 0] (rmi_begin RankInfo_Answer)) w)
      else if rmi_id = Find_User_Clan then
        (Inr True, net_send (mu_host u) (write_i32 0 (rmi_begin Find_User_Clan_Answer)) w)
      else (Inr (2601 \<le> rmi_id \<and> rmi_id \<le> 2650), w))"

definition user_on_rmi ::
  "host_id \<Rightarrow> messenger_user \<Rightarrow> u16 \<Rightarrow> message_reader \<Rightarrow> messenger_world \<Rightarrow> (exn + bool) \<times> messenger_world" where
  "user_on_rmi key u rmi_id r w =
     (if rmi_id = Change_Position then change_position key u r w
      else if rmi_id = Add_Friend_Nick \<or> rmi_id = Add_Friend_UserID then
        reading (read_pair read_u32 read_string) r w (\<lambda>(_, target). add_friend u target)
      else if rmi_id = Agree_Friend_Answer then
        reading (read_pair read_string read_u8) r w (\<lambda>(requester, accept). answer_friend key u requester (accept \<noteq> 0))
      else if rmi_id = Del_Friend then
        reading (read_pair read_u32 read_u32) r w (\<lambda>(_, i) w.
          case by_index (m_app w) i of
            None \<Rightarrow> w
          | Some (_, target) \<Rightarrow> delete_friend u (acc_username (mu_account target)) w)
      else if rmi_id = Del_Friend_UserID then reading read_string r w (delete_friend u)
      else if rmi_id = Whisper_UserIndex_CLMS then
        reading (read_pair read_u32 (read_pair read_string read_u8)) r w (\<lambda>(i, body, flag) w.
          whisper u (case by_index (m_app w) i of None \<Rightarrow> [] | Some (_, t) \<Rightarrow> acc_username (mu_account t)) body flag w)
      else if rmi_id = Whisper_UserID then
        reading (read_pair read_string (read_pair read_string read_u8)) r w (\<lambda>(target, body, flag). whisper u target body flag)
      else if rmi_id = Invitation_CLMS then
        reading (read_pair read_string (read_pair read_u32 read_string)) r w (invitation u)
      else if rmi_id = Invitation_Answer_CLMS then
        reading (read_pair read_string read_u8) r w (invitation_answer u)
      else if rmi_id = Send_Message_CLMS then
        reading (read_pair read_u32 read_string) r w (\<lambda>(i, body) w. send_mail u (by_index (m_app w) i) body w)
      else if rmi_id = Send_Message_Id then
        reading (read_pair read_string read_string) r w (\<lambda>(name, body) w. send_mail u (online (m_app w) name) body w)
      else if rmi_id = Get_Message then
        reading read_u16 r w (\<lambda>_. net_send (mu_host u) (writes [write_i32 0, write_u16 ms_ok] (rmi_begin Message_Info)))
      else clan_on_rmi u rmi_id r w)"

lemmas user_on_rmi_defs = user_on_rmi_def clan_on_rmi_def

definition messenger_on_rmi ::
  "host_id \<Rightarrow> u16 \<Rightarrow> message_reader \<Rightarrow> messenger_world \<Rightarrow> (exn + bool) \<times> messenger_world" where
  "messenger_on_rmi client rmi_id r w =
     (if rmi_id = Logon_CLMS then
        reading (read_pair read_string read_string) r w (\<lambda>(user, password). messenger_logon client user password)
      else if rmi_id = CL2MS_Test then (Inr True, w)
      else
        (case map_of (m_users (m_app w)) client of
           None \<Rightarrow> (Inr (2601 \<le> rmi_id \<and> rmi_id \<le> 2650), w)
         | Some u \<Rightarrow> user_on_rmi client u rmi_id r w))"

definition messenger_sink :: "(unit, messenger_app) event_sink" where
  "messenger_sink =
     \<lparr>on_client_join = \<lambda>_ w. w, on_client_leave = messenger_on_client_leave, on_rmi = messenger_on_rmi\<rparr>"

section \<open>Use of the network\<close>

lemma next_date_simps [simp]: "m_net (snd (next_date w)) = m_net w"
  by (simp add: next_date_def)

lemma notify_friends_talks: "talk\<^sup>*\<^sup>* s (m_net w) \<Longrightarrow> talk\<^sup>*\<^sup>* s (m_net (notify_friends_state u state w))"
  unfolding notify_friends_state_def Let_def
  by (rule fold_world_inv [of "\<lambda>w. talk\<^sup>*\<^sup>* s (m_net w)"]) (auto intro: talks_net_send split: option.split prod.split
      simp del: net_send_simps)

lemma messenger_leave_talks: "talk\<^sup>*\<^sup>* (m_net w) (m_net (messenger_on_client_leave h w))"
  by (auto simp: messenger_on_client_leave_def intro!: notify_friends_talks split: option.split)

lemma add_friend_talks: "talk\<^sup>*\<^sup>* (m_net w) (m_net (add_friend u target w))"
  by (auto simp: add_friend_def Let_def talks_server_send split: option.split prod.split)

lemma answer_friend_talks: "talk\<^sup>*\<^sup>* (m_net w) (m_net (answer_friend key u requester accept w))"
  by (auto simp: answer_friend_def Let_def simp del: net_send_simps intro!: talks_net_send split: option.split prod.split)

lemma small_handlers_talk:
  "talk\<^sup>*\<^sup>* (m_net w) (m_net (delete_friend u target w))"
  "talk\<^sup>*\<^sup>* (m_net w) (m_net (whisper u target body flag w))"
  "talk\<^sup>*\<^sup>* (m_net w) (m_net (invitation u x w))"
  "talk\<^sup>*\<^sup>* (m_net w) (m_net (invitation_answer u y w))"
  "talk\<^sup>*\<^sup>* (m_net w) (m_net (snd (change_position key u r w)))"
  by (auto simp: delete_friend_def whisper_def invitation_def invitation_answer_def change_position_def Let_def
      talks_server_send split: option.split prod.split sum.split)

lemma send_mail_talks: "talk\<^sup>*\<^sup>* (m_net w) (m_net (send_mail u target body w))"
  by (auto simp: send_mail_def Let_def next_date_def simp del: net_send_simps intro!: talks_net_send
      split: option.split prod.split)

lemma user_on_rmi_talks: "talk\<^sup>*\<^sup>* (m_net w) (m_net (snd (user_on_rmi key u i r w)))"
  unfolding user_on_rmi_defs
  by (intro snd_if_intro [of _ "\<lambda>w'. talk\<^sup>*\<^sup>* (m_net w) (m_net w')"];
      (rule reading_talks)?;
      simp add: talks_server_send small_handlers_talk add_friend_talks answer_friend_talks send_mail_talks
        next_date_def split_def split: option.split)

lemma messenger_logon_steps: "api_steps (m_net w) (m_net (messenger_logon client user password w))"
proof -
  have close: "api_steps (m_net w) (m_net (peer_close messenger_leave_sink h w))" for h and w :: messenger_world
    by (rule close_api_steps) (simp add: messenger_leave_sink_def messenger_leave_talks)
  have notify: "api_steps s (m_net (notify_friends_state u state w))" if "api_steps s (m_net w)" for s u state w
    using that talks_api_steps [OF notify_friends_talks [OF rtranclp.rtrancl_refl]] by (rule api_steps_trans [rotated])
  show ?thesis
    unfolding messenger_logon_def Let_def
    by (auto simp: api_refl intro!: notify api_steps_send close [of "with_app f w" for f, simplified]
        split: prod.split option.split)
qed

lemma messenger_on_rmi_steps: "api_steps (m_net w) (m_net (snd (messenger_on_rmi client i r w)))"
  using talks_api_steps [OF user_on_rmi_talks] messenger_logon_steps
  by (auto simp: messenger_on_rmi_def reading_def api_refl split: option.split sum.split)

interpretation mess_join: silent_join messenger_sink
  by unfold_locales (simp add: messenger_sink_def)

interpretation mess: event_handler messenger_sink "\<lambda>_. True"
  by unfold_locales (simp_all add: messenger_sink_def messenger_on_rmi_steps messenger_leave_talks)

end
