(* ===== verification/Messenger_Inv.thy ===== *)
theory Messenger_Inv
  imports Messenger Shared_Store
begin

text \<open>
  Invariants of the messenger: users are filed under their own HostID and friendship is mutual, in
  every reachable state. Friendships start with the consent of both sides only, and whispers carry
  the true name of their sender.
\<close>

section \<open>Mutual friendship\<close>

definition friends_sym :: "messenger_app \<Rightarrow> bool" where
  "friends_sym a \<longleftrightarrow> (\<forall>x y. y \<in> set (friends_of a x) \<longrightarrow> x \<in> set (friends_of a y))"

definition users_ok :: "messenger_app \<Rightarrow> bool" where
  "users_ok a \<longleftrightarrow> omap_ok (m_users a) \<and> (\<forall>h u. map_of (m_users a) h = Some u \<longrightarrow> mu_host u = h)"

definition messenger_inv :: "messenger_app \<Rightarrow> bool" where
  "messenger_inv a \<longleftrightarrow> users_ok a \<and> friends_sym a"

lemma friends_of_updates [simp]:
  "friends_of (a\<lparr>m_users := m\<rparr>) x = friends_of a x" "friends_of (a\<lparr>ms_accounts := s\<rparr>) x = friends_of a x"
  "friends_of (a\<lparr>ms_date_position := d\<rparr>) x = friends_of a x"
  "friends_of (touch_friends n a) x = friends_of a x"
  by (simp_all add: friends_of_def touch_friends_def map_of_omap_emplace)

lemma friends_of_put: "friends_of (put_friends n s a) x = (if x = n then s else friends_of a x)"
  by (simp add: friends_of_def put_friends_def map_of_omap_put)

lemma m_users_updates [simp]:
  "m_users (touch_friends n a) = m_users a" "m_users (put_friends n s a) = m_users a"
  by (simp_all add: touch_friends_def put_friends_def)

lemma messenger_inv_updates [simp]:
  "messenger_inv (a\<lparr>ms_accounts := s\<rparr>) = messenger_inv a"
  "messenger_inv (a\<lparr>ms_date_position := d\<rparr>) = messenger_inv a"
  "messenger_inv (touch_friends n a) = messenger_inv a"
  by (simp_all add: messenger_inv_def users_ok_def friends_sym_def)

lemma messenger_inv_put_user:
  "messenger_inv a \<Longrightarrow> mu_host u = h \<Longrightarrow> messenger_inv (a\<lparr>m_users := omap_put h u (m_users a)\<rparr>)"
  by (auto simp: messenger_inv_def users_ok_def friends_sym_def omap_ok_put map_of_omap_put)

lemma messenger_inv_del_user: "messenger_inv a \<Longrightarrow> messenger_inv (a\<lparr>m_users := omap_del h (m_users a)\<rparr>)"
  by (auto simp: messenger_inv_def users_ok_def friends_sym_def omap_ok_del map_of_omap_del split: if_splits)

lemma messenger_inv_befriend:
  "messenger_inv a \<Longrightarrow>
   messenger_inv (let a1 = put_friends n (oset_add r (friends_of a n)) a
                  in put_friends r (oset_add n (friends_of a1 r)) a1)"
  by (auto simp: messenger_inv_def users_ok_def friends_sym_def friends_of_put Let_def)

lemma messenger_inv_unfriend:
  "messenger_inv a \<Longrightarrow>
   messenger_inv (let a1 = put_friends n (oset_del r (friends_of a n)) a
                  in put_friends r (oset_del n (friends_of a1 r)) a1)"
  by (auto simp: messenger_inv_def users_ok_def friends_sym_def friends_of_put Let_def)

lemma online_in:
  assumes "users_ok a" "online a name = Some (key, u)"
  shows "map_of (m_users a) key = Some u" "mu_host u = key" "acc_username (mu_account u) = name"
proof -
  have "(key, u) \<in> set (m_users a)" "acc_username (mu_account u) = name"
    using assms(2) by (auto simp: online_def find_Some_iff) (metis nth_mem)
  moreover have "distinct (map fst (m_users a))" using assms(1) by (simp add: users_ok_def omap_ok_distinct)
  ultimately show "map_of (m_users a) key = Some u" "acc_username (mu_account u) = name" by simp_all
  with assms(1) show "mu_host u = key" by (simp add: users_ok_def)
qed

section \<open>Every handler keeps it\<close>

lemma notify_friends_app: "m_app (notify_friends_state u state w) = touch_friends (acc_username (mu_account u)) (m_app w)"
  unfolding notify_friends_state_def Let_def
  by (rule fold_world_inv [of "\<lambda>w'. m_app w' = touch_friends (acc_username (mu_account u)) (m_app w)"])
    (auto split: option.split)

lemma leave_keeps_inv: "messenger_inv (m_app w) \<Longrightarrow> messenger_inv (m_app (messenger_on_client_leave h w))"
  by (auto simp: messenger_on_client_leave_def notify_friends_app messenger_inv_del_user split: option.split)

lemma add_friend_keeps_inv:
  assumes "messenger_inv (m_app w)"
  shows "messenger_inv (m_app (add_friend u target w))"
proof (cases "online (m_app w) target")
  case (Some ko)
  obtain key other where k: "ko = (key, other)" by force
  have "mu_host other = key"
    using assms Some k online_in(2) by (auto simp: messenger_inv_def)
  then have "messenger_inv ((touch_friends n (m_app w))\<lparr>m_users := omap_put key
      (other\<lparr>pending_requests := p\<rparr>) (m_users (touch_friends n (m_app w)))\<rparr>)" for n p
    using assms by (intro messenger_inv_put_user) simp_all
  with assms Some k show ?thesis by (simp add: add_friend_def Let_def)
qed (simp add: add_friend_def assms Let_def)

lemma answer_friend_keeps_inv:
  assumes "messenger_inv (m_app w)" "mu_host u = key"
  shows "messenger_inv (m_app (answer_friend key u requester accept w))"
  using messenger_inv_befriend [OF messenger_inv_put_user [OF assms(1), of "u\<lparr>pending_requests := p\<rparr>" key for p]]
    messenger_inv_put_user [OF assms(1), of "u\<lparr>pending_requests := p\<rparr>" key for p] assms
  by (auto simp: answer_friend_def Let_def split: option.split)

lemma small_handlers_keep_inv:
  assumes "messenger_inv (m_app w)"
  shows "messenger_inv (m_app (delete_friend u target w))"
    "messenger_inv (m_app (whisper u target body flag w))"
    "messenger_inv (m_app (invitation u x w))"
    "messenger_inv (m_app (invitation_answer u y w))"
    "messenger_inv (m_app (send_mail u t body w))"
  using assms messenger_inv_unfriend [OF assms, of "acc_username (mu_account u)" target]
  by (auto simp: delete_friend_def whisper_def invitation_def invitation_answer_def send_mail_def next_date_def Let_def
      split: option.split prod.split)

lemma change_position_keeps_inv:
  "messenger_inv (m_app w) \<Longrightarrow> mu_host u = key \<Longrightarrow> messenger_inv (m_app (snd (change_position key u r w)))"
  by (auto simp: change_position_def Let_def messenger_inv_put_user split: sum.split)

lemma user_on_rmi_keeps_inv:
  assumes "messenger_inv (m_app w)" "mu_host u = key"
  shows "messenger_inv (m_app (snd (user_on_rmi key u i r w)))"
  unfolding user_on_rmi_defs
  by (intro snd_if_intro [of _ "\<lambda>w'. messenger_inv (m_app w')"];
      (rule reading_keeps [of messenger_inv])?;
      simp add: assms small_handlers_keep_inv add_friend_keeps_inv answer_friend_keeps_inv change_position_keeps_inv
        next_date_def split_def split: option.split)

lemma close_keeps_inv: "messenger_inv (m_app w) \<Longrightarrow> messenger_inv (m_app (peer_close messenger_leave_sink h w))"
  using leave_keeps_inv [of "with_net (mark_closed h) w" h]
  by (auto simp: peer_close_def Let_def messenger_leave_sink_def split: option.split)

lemma messenger_inv_login_user:
  "messenger_inv a \<Longrightarrow> mu_host u = h \<Longrightarrow>
   messenger_inv (a\<lparr>ms_accounts := s, m_users := omap_put h u (m_users a)\<rparr>)"
  using messenger_inv_put_user [of "a\<lparr>ms_accounts := s\<rparr>" u h] by simp

lemma logon_keeps_inv:
  assumes "messenger_inv (m_app w)"
  shows "messenger_inv (m_app (messenger_logon client user password w))"
proof -
  have "messenger_inv (m_app (peer_close messenger_leave_sink h (with_app (\<lambda>a. a\<lparr>ms_accounts := s\<rparr>) w)))" for h s
    using assms by (intro close_keeps_inv) simp
  then show ?thesis
    using assms
    by (auto simp: messenger_logon_def Let_def notify_friends_app
        intro: messenger_inv_put_user messenger_inv_login_user split: prod.split option.split)
qed

lemma on_rmi_keeps_inv:
  assumes "messenger_inv (m_app w)"
  shows "messenger_inv (m_app (snd (messenger_on_rmi client i r w)))"
proof -
  have "mu_host u = client" if "map_of (m_users (m_app w)) client = Some u" for u
    using assms that by (simp add: messenger_inv_def users_ok_def)
  moreover have "messenger_inv (m_app (snd (reading (read_pair read_string read_string) r w
      (\<lambda>(user, password). messenger_logon client user password))))"
    using assms by (rule reading_keeps) (auto simp: logon_keeps_inv)
  ultimately show ?thesis
    using assms user_on_rmi_keeps_inv [OF assms] by (auto simp: messenger_on_rmi_def split: option.split)
qed

interpretation mapp: app_invariant messenger_sink "\<lambda>_. messenger_inv"
  by unfold_locales (simp_all add: messenger_sink_def leave_keeps_inv on_rmi_keeps_inv)

lemma messenger_inv_new: "messenger_inv (m_app (messenger_new c accounts dates g clk seconds))"
  by (simp add: messenger_new_def messenger_inv_def users_ok_def friends_sym_def friends_of_def)

section \<open>The accounts\<close>

text \<open>The messenger changes the accounts through logins only.\<close>

lemma ms_accounts_updates [simp]:
  "ms_accounts (touch_friends n a) = ms_accounts a" "ms_accounts (put_friends n s a) = ms_accounts a"
  by (simp_all add: touch_friends_def put_friends_def)

lemma messenger_leave_accounts: "ms_accounts (m_app (messenger_on_client_leave h w)) = ms_accounts (m_app w)"
  by (simp add: messenger_on_client_leave_def notify_friends_app split: option.split)

lemma user_on_rmi_accounts: "ms_accounts (m_app (snd (user_on_rmi key u i r w))) = ms_accounts (m_app w)"
  unfolding user_on_rmi_defs
  by (intro snd_if_intro [of _ "\<lambda>w'. ms_accounts (m_app w') = ms_accounts (m_app w)"];
      (rule reading_keeps [of "\<lambda>a. ms_accounts a = ms_accounts (m_app w)"])?;
      simp add: delete_friend_def whisper_def invitation_def invitation_answer_def send_mail_def add_friend_def answer_friend_def
        change_position_def next_date_def Let_def split_def split: option.split sum.split)

lemma messenger_logon_accounts:
  "ms_accounts (m_app (messenger_logon client user password w)) = snd (login user password (ms_accounts (m_app w)))"
proof -
  have "ms_accounts (m_app (peer_close messenger_leave_sink h v)) = ms_accounts (m_app v)" for h v
    by (simp add: peer_close_def Let_def messenger_leave_sink_def messenger_leave_accounts split: option.split)
  then show ?thesis
    by (simp add: messenger_logon_def Let_def notify_friends_app split: prod.split option.split)
qed

lemma messenger_on_rmi_accounts: "grown (ms_accounts (m_app w)) (ms_accounts (m_app (snd (messenger_on_rmi client i r w))))"
  by (auto simp: messenger_on_rmi_def reading_def messenger_logon_accounts user_on_rmi_accounts grown_login
      split: option.split sum.split)

interpretation mess_store: store_client messenger_sink ms_accounts
  by unfold_locales
    (simp_all add: lawful_def messenger_sink_def messenger_leave_accounts messenger_on_rmi_accounts
      api_steps_frame [OF messenger_on_rmi_steps] api_steps_frame [OF talks_api_steps [OF messenger_leave_talks]])

text \<open>Whoever is logged in has an account, and it is the one in the store.\<close>

definition user_accounts :: "messenger_app \<Rightarrow> account set" where
  "user_accounts a = mu_account ` snd ` set (m_users a)"

definition messenger_known :: "messenger_app \<Rightarrow> bool" where
  "messenger_known a \<longleftrightarrow> store_ok (m_accounts (ms_accounts a)) \<and>
     (\<forall>x \<in> user_accounts a. find_account (ms_accounts a) (acc_username x) = Some x)"

lemma user_accounts_updates [simp]:
  "user_accounts (touch_friends n a) = user_accounts a" "user_accounts (put_friends n s a) = user_accounts a"
  "user_accounts (a\<lparr>ms_date_position := d\<rparr>) = user_accounts a" "user_accounts (a\<lparr>ms_accounts := t\<rparr>) = user_accounts a"
  by (simp_all add: user_accounts_def)

lemma user_accounts_put: "user_accounts (a\<lparr>m_users := omap_put h u (m_users a)\<rparr>) \<subseteq> insert (mu_account u) (user_accounts a)"
  using set_omap_put [of h u "m_users a"] by (force simp: user_accounts_def)

lemma user_accounts_del: "user_accounts (a\<lparr>m_users := omap_del h (m_users a)\<rparr>) \<subseteq> user_accounts a"
  by (auto simp: user_accounts_def omap_del_def)

lemma online_accounts: "online a n = Some (key, u) \<Longrightarrow> mu_account u \<in> user_accounts a"
  by (auto simp: online_def user_accounts_def find_Some_iff) (metis image_eqI nth_mem snd_conv)

definition fewer :: "messenger_app \<Rightarrow> messenger_app \<Rightarrow> bool" where
  "fewer a a' \<longleftrightarrow> user_accounts a' \<subseteq> user_accounts a \<and> ms_accounts a' = ms_accounts a"

lemma fewer_known: "fewer a a' \<Longrightarrow> messenger_known a \<Longrightarrow> messenger_known a'"
  by (auto simp: fewer_def messenger_known_def)

lemma fewer_put: "fewer a b \<Longrightarrow> mu_account u \<in> user_accounts a \<Longrightarrow> fewer a (b\<lparr>m_users := omap_put h u (m_users b)\<rparr>)"
  using user_accounts_put [of h u b] by (auto simp: fewer_def)

lemma fewer_updates [simp]:
  "fewer a a" "fewer a (touch_friends n b) = fewer a b" "fewer a (put_friends n s b) = fewer a b"
  "fewer a (b\<lparr>ms_date_position := d\<rparr>) = fewer a b"
  by (simp_all add: fewer_def)

lemma messenger_leave_fewer: "fewer (m_app w) (m_app (messenger_on_client_leave h w))"
  using user_accounts_del [of h "m_app w"]
  by (simp add: messenger_on_client_leave_def notify_friends_app split: option.split) (simp add: fewer_def)

lemma add_friend_fewer:
  assumes "fewer a (m_app w)"
  shows "fewer a (m_app (add_friend u target w))"
proof -
  have "fewer a ((touch_friends n (m_app w))\<lparr>m_users := omap_put key (other\<lparr>pending_requests := p\<rparr>) (m_users (touch_friends n (m_app w)))\<rparr>)"
    if "online (m_app w) target = Some (key, other)" for n key other p
    using assms online_accounts [OF that] by (intro fewer_put) (auto simp: fewer_def)
  with assms show ?thesis by (auto simp: add_friend_def Let_def split: option.split)
qed

lemma answer_friend_fewer:
  assumes "fewer a (m_app w)" "mu_account u \<in> user_accounts a"
  shows "fewer a (m_app (answer_friend key u requester accept w))"
proof -
  have "fewer a ((m_app w)\<lparr>m_users := omap_put key (u\<lparr>pending_requests := p\<rparr>) (m_users (m_app w))\<rparr>)" for p
    using assms by (intro fewer_put) auto
  with assms(1) show ?thesis by (auto simp: answer_friend_def Let_def split: option.split)
qed

lemma user_on_rmi_fewer:
  assumes "mu_account u \<in> user_accounts (m_app w)"
  shows "fewer (m_app w) (m_app (snd (user_on_rmi key u i r w)))"
  unfolding user_on_rmi_defs
  by (intro snd_if_intro [of _ "\<lambda>w'. fewer (m_app w) (m_app w')"];
      (rule reading_keeps [of "fewer (m_app w)"])?;
      simp add: delete_friend_def whisper_def invitation_def invitation_answer_def send_mail_def add_friend_fewer answer_friend_fewer
        change_position_def next_date_def fewer_put assms Let_def split_def split: option.split sum.split)

lemma messenger_known_grown: "messenger_known a \<Longrightarrow> grown (ms_accounts a) s \<Longrightarrow> messenger_known (a\<lparr>ms_accounts := s\<rparr>)"
  by (auto simp: messenger_known_def grown_find grown_store_ok)

lemma messenger_logon_known:
  assumes k: "messenger_known (m_app w)"
  shows "messenger_known (m_app (messenger_logon client user password w))"
proof -
  obtain result accounts where l: "login user password (ms_accounts (m_app w)) = (result, accounts)" by force
  define w1 where "w1 = with_app (\<lambda>a. a\<lparr>ms_accounts := accounts\<rparr>) w"
  have g: "grown (ms_accounts (m_app w)) accounts" using grown_login [OF grown_refl, of "ms_accounts (m_app w)" user password] l by simp
  have w1: "messenger_known (m_app w1)" using messenger_known_grown [OF k g] by (simp add: w1_def)
  have close: "messenger_known (m_app (peer_close messenger_leave_sink h w1))" for h
    using w1 messenger_leave_fewer [of "with_net (mark_closed h) w1" h] fewer_known
    by (fastforce simp: peer_close_def Let_def messenger_leave_sink_def split: option.split)
  have acc: "ms_accounts (m_app (peer_close messenger_leave_sink h w1)) = accounts" for h
    by (simp add: peer_close_def Let_def messenger_leave_sink_def messenger_leave_accounts w1_def split: option.split)
  have put: "messenger_known (v\<lparr>m_users := omap_put client u (m_users v)\<rparr>)"
    if "messenger_known v" "ms_accounts v = accounts" "find_account (ms_accounts (m_app w)) user = Some x" "mu_account u = x" for v u x
  proof -
    have "acc_username x = user" using k that(3) by (simp add: messenger_known_def store_ok_def find_account_def)
    then have "find_account accounts (acc_username x) = Some x" using grown_find [OF g that(3)] by simp
    with that user_accounts_put [of client u v] show ?thesis by (auto simp: messenger_known_def)
  qed
  have touch: "messenger_known (touch_friends n v) = messenger_known v" for n v by (simp add: messenger_known_def)
  have "ms_accounts (m_app w1) = accounts" by (simp add: w1_def)
  with w1 close acc put show ?thesis
    by (simp add: messenger_logon_def l Let_def w1_def [symmetric] notify_friends_app touch split: option.split)
qed

interpretation mess_known: app_invariant messenger_sink "\<lambda>_. messenger_known"
proof unfold_locales
  fix w :: messenger_world and h i r
  assume k: "messenger_known (m_app w)"
  then show "messenger_known (m_app (on_client_join messenger_sink h w))" by (simp add: messenger_sink_def)
  from k show "messenger_known (m_app (on_client_leave messenger_sink h w))"
    using fewer_known [OF messenger_leave_fewer] by (simp add: messenger_sink_def)
  have "mu_account u \<in> user_accounts (m_app w)" if "map_of (m_users (m_app w)) h = Some u" for u
    using map_of_SomeD [OF that] by (force simp: user_accounts_def)
  then have "messenger_known (m_app (snd (user_on_rmi h u i r w)))" if "map_of (m_users (m_app w)) h = Some u" for u
    using that fewer_known [OF user_on_rmi_fewer k] by blast
  then show "messenger_known (m_app (snd (on_rmi messenger_sink h i r w)))"
    using k messenger_logon_known [OF k]
    by (auto simp: messenger_sink_def messenger_on_rmi_def reading_def split: option.split sum.split)
qed

section \<open>Consent\<close>

text \<open>
  The friendships \<open>a\<close> allows beside the given ones: between the user \<open>u\<close> and those whose requests are
  pending at \<open>u\<close>.
\<close>

definition consented :: "(str \<Rightarrow> str set) \<Rightarrow> messenger_user \<Rightarrow> messenger_app \<Rightarrow> bool" where
  "consented F u a \<longleftrightarrow>
     (\<forall>x y. y \<in> set (friends_of a x) \<longrightarrow>
        y \<in> F x \<or> (\<exists>r \<in> set (pending_requests u). {x, y} = {acc_username (mu_account u), r}))"

lemma consented_updates [simp]:
  "consented F u (a\<lparr>m_users := m\<rparr>) = consented F u a" "consented F u (a\<lparr>ms_accounts := s\<rparr>) = consented F u a"
  "consented F u (a\<lparr>ms_date_position := d\<rparr>) = consented F u a"
  "consented F u (touch_friends n a) = consented F u a"
  by (simp_all add: consented_def)

lemma consented_befriend:
  "consented F u a \<Longrightarrow> r \<in> set (pending_requests u) \<Longrightarrow> n = acc_username (mu_account u) \<Longrightarrow>
   consented F u (let a1 = put_friends n (oset_add r (friends_of a n)) a
                  in put_friends r (oset_add n (friends_of a1 r)) a1)"
  by (auto simp: consented_def friends_of_put Let_def)

lemma consented_unfriend:
  "consented F u a \<Longrightarrow>
   consented F u (let a1 = put_friends n (oset_del r (friends_of a n)) a
                  in put_friends r (oset_del n (friends_of a1 r)) a1)"
  by (auto simp: consented_def friends_of_put Let_def)

lemma consented_handlers:
  assumes "consented F u (m_app w)"
  shows "consented F u (m_app (add_friend u target w))"
    "consented F u (m_app (delete_friend u target w))"
    "consented F u (m_app (whisper u target body flag w))"
    "consented F u (m_app (invitation u x w))"
    "consented F u (m_app (invitation_answer u y w))"
    "consented F u (m_app (send_mail u t body w))"
    "consented F u (m_app (snd (change_position key u r w)))"
  using assms consented_unfriend [OF assms, of "acc_username (mu_account u)" target]
  by (auto simp: add_friend_def delete_friend_def whisper_def invitation_def invitation_answer_def send_mail_def
      next_date_def change_position_def Let_def split: option.split prod.split sum.split)

lemma consented_answer:
  assumes "consented F u (m_app w)"
  shows "consented F u (m_app (answer_friend key u requester accept w))"
  using assms consented_befriend [of F u "(m_app w)\<lparr>m_users := m\<rparr>" requester for m]
  by (auto simp: answer_friend_def Let_def split: option.split)

lemma consented_user_on_rmi:
  assumes "consented F u (m_app w)"
  shows "consented F u (m_app (snd (user_on_rmi key u i r w)))"
  unfolding user_on_rmi_defs
  by (intro snd_if_intro [of _ "\<lambda>w'. consented F u (m_app w')"];
      (rule reading_keeps [of "consented F u"])?;
      simp add: assms consented_handlers consented_answer next_date_def split_def split: option.split)

lemma friends_of_logon: "friends_of (m_app (messenger_logon client user password w)) x = friends_of (m_app w) x"
proof -
  have "friends_of (m_app (peer_close messenger_leave_sink h w')) x = friends_of (m_app w') x" for h w'
    by (auto simp: peer_close_def Let_def messenger_leave_sink_def messenger_on_client_leave_def notify_friends_app
        split: option.split)
  then show ?thesis
    by (auto simp: messenger_logon_def Let_def notify_friends_app split: prod.split option.split)
qed

section \<open>Whispers\<close>

definition whisper_payload :: "str \<Rightarrow> str \<Rightarrow> u8 \<Rightarrow> bytes" where
  "whisper_payload sender body flag =
     rmi # le_bytes 2 Whisper_UserIndex_MSCL @ text_bytes sender @ text_bytes body @ [flag]"

lemma whisper_sends:
  "sent_to (m_net (whisper u target body flag w)) h = sent_to (m_net w) h @
     (case online (m_app w) target of
        Some (_, other) \<Rightarrow> if h = mu_host other \<and> is_connected (m_net w) h
          then [make_frame (whisper_payload (acc_username (mu_account u)) body flag)] else []
      | None \<Rightarrow> if h = mu_host u \<and> is_connected (m_net w) h
          then [make_frame (rmi # le_bytes 2 Whisper_Answer @ text_bytes target @ le_bytes 2 whisper_target_offline)] else [])"
  by (auto simp: whisper_def sent_to_server_send wire_simps whisper_payload_def split: option.split)

section \<open>A second login on one connection\<close>

lemma notify_friends_find_None:
  "find_peer (m_net (notify_friends_state u state w)) h = None \<longleftrightarrow> find_peer (m_net w) h = None"
  using same_net_find(1) [OF same_net_talks [OF notify_friends_talks [OF rtranclp.rtrancl_refl]]] by blast

lemma notify_friends_free_ids: "m_free_ids (m_net (notify_friends_state u state w)) = m_free_ids (m_net w)"
  unfolding notify_friends_state_def Let_def
  by (rule fold_world_inv [of "\<lambda>w'. m_free_ids (m_net w') = m_free_ids (m_net w)"]) (auto split: option.split)

lemma second_logon_closes_itself:
  assumes w: "messenger_inv (m_app w)" "map_of (m_users (m_app w)) client = Some u" "online (m_app w) user = Some (client, u)"
    and p: "find_peer (m_net w) client = Some p" "m_state p = connected"
    and a: "find_account (ms_accounts (m_app w)) user = Some a" "acc_password a = password"
  defines "w' \<equiv> messenger_logon client user password w"
  shows "find_peer (m_net w') client = None" "client \<in> set (m_free_ids (m_net w'))"
    "\<exists>u'. map_of (m_users (m_app w')) client = Some u' \<and> mu_account u' = a"
proof -
  have l: "login user password (ms_accounts (m_app w)) = (login_ok, ms_accounts (m_app w))"
    using a acc.found_ok by simp
  have h: "mu_host u = client" using online_in [of "m_app w" user client u] w by (simp add: messenger_inv_def)
  define w2 where "w2 = peer_close messenger_leave_sink client w"
  have app: "with_app (\<lambda>x. x\<lparr>ms_accounts := ms_accounts (m_app w)\<rparr>) w = w" by (simp add: with_app_def)
  have gone: "find_peer (m_net w2) client = None" "client \<in> set (m_free_ids (m_net w2))"
    using p by (simp_all add: w2_def peer_close_def Let_def on_peer_closed_effect)
  have stay: "on_peer client f s = s" if "find_peer s client = None" for f and s :: "unit server"
    using that by (simp add: on_peer_def)
  show "find_peer (m_net w') client = None" "client \<in> set (m_free_ids (m_net w'))"
    "\<exists>u'. map_of (m_users (m_app w')) client = Some u' \<and> mu_account u' = a"
    using gone
    by (simp_all add: w'_def messenger_logon_def a(1) l app w(3) h w2_def [symmetric] Let_def notify_friends_find_None
        notify_friends_free_ids notify_friends_app stay touch_friends_def map_of_omap_put)
qed

end
