(* ===== verification/Gscl_Types.thy ===== *)
theory Gscl_Types
  imports Handlers Utf_Text
begin

text \<open>
  The structures of the game server's messages, \<^verbatim>\<open>src/src/game/gscl_types.hpp\<close>: one record per struct,
  with its default values, its writer and, where the client sends it, its reader. Two wire codecs
  say that \<open>room_info\<close> and \<open>avatar_info\<close> arrive as they were written.
\<close>

text \<open>An array is a raw 32-bit count and its elements.\<close>

definition write_array :: "('t \<Rightarrow> message_writer \<Rightarrow> message_writer) \<Rightarrow> 't list \<Rightarrow> message_writer \<Rightarrow> message_writer" where
  "write_array write_one items = writes (write_i32 (of_nat (length items)) # map write_one items)"

record logon_info =
  li_user_index :: u32
  li_nickname :: str
  li_unk_0c :: u16
  li_exp :: u32
  li_money :: u32
  li_unk_18 :: u32
  li_host :: u32
  li_unk_50 :: u8
  li_unk_1c :: u32
  li_unk_20 :: u32
  li_unk_24 :: u32
  li_unk_28 :: u32
  li_unk_2c :: u32
  li_unk_30 :: u32
  li_unk_34 :: u32
  li_unk_38 :: u32
  li_unk_3c :: u16
  li_str_40 :: str
  li_str_44 :: str
  li_need_select_character :: u8

definition logon_info_default :: logon_info where
  "logon_info_default =
    \<lparr>li_user_index = 0, li_nickname = [], li_unk_0c = 0, li_exp = 0, li_money = 0, li_unk_18 = 0, li_host = 0,
     li_unk_50 = 0, li_unk_1c = 0, li_unk_20 = 0, li_unk_24 = 0, li_unk_28 = 0, li_unk_2c = 0, li_unk_30 = 0,
     li_unk_34 = 0, li_unk_38 = 0, li_unk_3c = 0, li_str_40 = [], li_str_44 = [], li_need_select_character = 0\<rparr>"

definition logon_info_write :: "logon_info \<Rightarrow> message_writer \<Rightarrow> message_writer" where
  "logon_info_write i = writes
     [write_u32 (li_user_index i), write_text (li_nickname i), write_u16 (li_unk_0c i), write_u32 (li_exp i),
      write_u32 (li_money i), write_u32 (li_unk_18 i), write_u32 (li_host i), write_u8 (li_unk_50 i),
      write_u32 (li_unk_1c i), write_u32 (li_unk_20 i), write_u32 (li_unk_24 i), write_u32 (li_unk_28 i),
      write_u32 (li_unk_2c i), write_u32 (li_unk_30 i), write_u32 (li_unk_34 i), write_u32 (li_unk_38 i),
      write_u16 (li_unk_3c i), write_text (li_str_40 i), write_text (li_str_44 i),
      write_u8 (li_need_select_character i)]"

record item_info =
  ii_str_48 :: str
  ii_item_id :: u32
  ii_item_code :: u32
  ii_str_10 :: str
  ii_u16_14 :: u16
  ii_u16_16 :: u16
  ii_u16_18 :: u16
  ii_u32_1c :: u32
  ii_u32_20 :: u32
  ii_f64_28 :: f64
  ii_u32_30 :: u32
  ii_u32_34 :: u32
  ii_u16_1a :: u16
  ii_u8_38 :: u8
  ii_u8_39 :: u8
  ii_str_3c :: str
  ii_str_40 :: str
  ii_u32_44 :: u32

definition item_info_default :: item_info where
  "item_info_default =
    \<lparr>ii_str_48 = [], ii_item_id = 0, ii_item_code = 0, ii_str_10 = [], ii_u16_14 = 0, ii_u16_16 = 0,
     ii_u16_18 = 0, ii_u32_1c = 0, ii_u32_20 = 0, ii_f64_28 = 0, ii_u32_30 = 0, ii_u32_34 = 0, ii_u16_1a = 0,
     ii_u8_38 = 0, ii_u8_39 = 0, ii_str_3c = [], ii_str_40 = [], ii_u32_44 = 0\<rparr>"

definition item_info_write :: "item_info \<Rightarrow> message_writer \<Rightarrow> message_writer" where
  "item_info_write i = writes
     [write_text (ii_str_48 i), write_u32 (ii_item_id i), write_u32 (ii_item_code i), write_text (ii_str_10 i),
      write_u16 (ii_u16_14 i), write_u16 (ii_u16_16 i), write_u16 (ii_u16_18 i), write_u32 (ii_u32_1c i),
      write_u32 (ii_u32_20 i), write_f64 (ii_f64_28 i), write_u32 (ii_u32_30 i), write_u32 (ii_u32_34 i),
      write_u16 (ii_u16_1a i), write_u8 (ii_u8_38 i), write_u8 (ii_u8_39 i), write_text (ii_str_3c i),
      write_text (ii_str_40 i), write_u32 (ii_u32_44 i)]"

record gift_info =
  gi_u32_04 :: u32
  gi_u32_08 :: u32
  gi_u32_0c :: u32
  gi_u32_10 :: u32
  gi_u16_14 :: u16
  gi_u32_18 :: u32
  gi_u32_1c :: u32
  gi_str_20 :: str
  gi_str_24 :: str
  gi_str_28 :: str
  gi_str_2c :: str
  gi_str_30 :: str

definition gift_info_default :: gift_info where
  "gift_info_default =
    \<lparr>gi_u32_04 = 0, gi_u32_08 = 0, gi_u32_0c = 0, gi_u32_10 = 0, gi_u16_14 = 0, gi_u32_18 = 0, gi_u32_1c = 0,
     gi_str_20 = [], gi_str_24 = [], gi_str_28 = [], gi_str_2c = [], gi_str_30 = []\<rparr>"

definition gift_info_write :: "gift_info \<Rightarrow> message_writer \<Rightarrow> message_writer" where
  "gift_info_write i = writes
     [write_u32 (gi_u32_04 i), write_u32 (gi_u32_08 i), write_u32 (gi_u32_0c i), write_u32 (gi_u32_10 i),
      write_u16 (gi_u16_14 i), write_u32 (gi_u32_18 i), write_u32 (gi_u32_1c i), write_text (gi_str_20 i),
      write_text (gi_str_24 i), write_text (gi_str_28 i), write_text (gi_str_2c i), write_text (gi_str_30 i)]"

record channel_user =
  cu_nickname :: str
  cu_u32_08 :: u32
  cu_u8_1a :: u8
  cu_u32_0c :: u32
  cu_u32_10 :: u32
  cu_host :: u32
  cu_u16_18 :: u16
  cu_str_1c :: str

definition channel_user_default :: channel_user where
  "channel_user_default =
    \<lparr>cu_nickname = [], cu_u32_08 = 0, cu_u8_1a = 0, cu_u32_0c = 0, cu_u32_10 = 0, cu_host = 0, cu_u16_18 = 0,
     cu_str_1c = []\<rparr>"

definition channel_user_write :: "channel_user \<Rightarrow> message_writer \<Rightarrow> message_writer" where
  "channel_user_write i = writes
     [write_text (cu_nickname i), write_u32 (cu_u32_08 i), write_u8 (cu_u8_1a i), write_u32 (cu_u32_0c i),
      write_u32 (cu_u32_10 i), write_u32 (cu_host i), write_u16 (cu_u16_18 i), write_text (cu_str_1c i)]"

record channel_info =
  ci_users :: u32
  ci_capacity :: u32
  ci_u32_0c :: u32
  ci_u32_10 :: u32
  ci_u32_14 :: u32
  ci_u8_18 :: u8
  ci_u8_19 :: u8
  ci_index :: u8
  ci_u8_1b :: u8

definition channel_info_default :: channel_info where
  "channel_info_default =
    \<lparr>ci_users = 0, ci_capacity = 0, ci_u32_0c = 0, ci_u32_10 = 0, ci_u32_14 = 0, ci_u8_18 = 0, ci_u8_19 = 0,
     ci_index = 0, ci_u8_1b = 0\<rparr>"

definition channel_info_write :: "channel_info \<Rightarrow> message_writer \<Rightarrow> message_writer" where
  "channel_info_write i = writes
     [write_u32 (ci_users i), write_u32 (ci_capacity i), write_u32 (ci_u32_0c i), write_u32 (ci_u32_10 i),
      write_u32 (ci_u32_14 i), write_u8 (ci_u8_18 i), write_u8 (ci_u8_19 i), write_u8 (ci_index i),
      write_u8 (ci_u8_1b i)]"

record room_info =
  ri_number :: u16
  ri_u16_06 :: u16
  ri_u16_08 :: u16
  ri_players :: u8
  ri_max_players :: u8
  ri_map :: u8
  ri_mode :: u8
  ri_max_lap :: u8
  ri_u8_0e :: u8
  ri_title :: str
  ri_password :: str
  ri_str_18 :: str
  ri_state :: u8
  ri_u8_26 :: u8
  ri_u8_27 :: u8
  ri_slots :: "u8 list"
  ri_has_password :: u8

definition room_info_default :: room_info where
  "room_info_default =
    \<lparr>ri_number = 0, ri_u16_06 = 0, ri_u16_08 = 0, ri_players = 0, ri_max_players = 0, ri_map = 0, ri_mode = 0,
     ri_max_lap = 0, ri_u8_0e = 0, ri_title = [], ri_password = [], ri_str_18 = [], ri_state = 0, ri_u8_26 = 0,
     ri_u8_27 = 0, ri_slots = replicate 8 0, ri_has_password = 0\<rparr>"

definition room_info_write :: "room_info \<Rightarrow> message_writer \<Rightarrow> message_writer" where
  "room_info_write i = writes
     ([write_u16 (ri_number i), write_u16 (ri_u16_06 i), write_u16 (ri_u16_08 i), write_u8 (ri_players i),
      write_u8 (ri_max_players i), write_u8 (ri_map i), write_u8 (ri_mode i), write_u8 (ri_max_lap i),
      write_u8 (ri_u8_0e i), write_text (ri_title i), write_text (ri_password i), write_text (ri_str_18 i),
      write_u8 (ri_state i), write_u8 (ri_u8_26 i), write_u8 (ri_u8_27 i)] @
     map write_u8 (ri_slots i) @
     [write_u8 (ri_has_password i)])"

definition room_info_read :: "room_info read" where
  "room_info_read =
     rbind read_u16 (\<lambda>v_number.
     rbind read_u16 (\<lambda>v_u16_06.
     rbind read_u16 (\<lambda>v_u16_08.
     rbind read_u8 (\<lambda>v_players.
     rbind read_u8 (\<lambda>v_max_players.
     rbind read_u8 (\<lambda>v_map.
     rbind read_u8 (\<lambda>v_mode.
     rbind read_u8 (\<lambda>v_max_lap.
     rbind read_u8 (\<lambda>v_u8_0e.
     rbind read_string (\<lambda>v_title.
     rbind read_string (\<lambda>v_password.
     rbind read_string (\<lambda>v_str_18.
     rbind read_u8 (\<lambda>v_state.
     rbind read_u8 (\<lambda>v_u8_26.
     rbind read_u8 (\<lambda>v_u8_27.
     rbind (read_many 8 read_u8) (\<lambda>v_slots.
     rbind read_u8 (\<lambda>v_has_password.
     rreturn \<lparr>ri_number = v_number, ri_u16_06 = v_u16_06, ri_u16_08 = v_u16_08, ri_players = v_players,
       ri_max_players = v_max_players, ri_map = v_map, ri_mode = v_mode, ri_max_lap = v_max_lap,
       ri_u8_0e = v_u8_0e, ri_title = v_title, ri_password = v_password, ri_str_18 = v_str_18,
       ri_state = v_state, ri_u8_26 = v_u8_26, ri_u8_27 = v_u8_27, ri_slots = v_slots,
       ri_has_password = v_has_password\<rparr>)))))))))))))))))"

record room_member =
  rm_host :: u32
  rm_nickname :: str
  rm_str_24 :: str
  rm_user_index :: u32
  rm_u32_2c :: u32
  rm_exp :: u32
  rm_u32_04 :: u32
  rm_slot :: u32
  rm_ready :: u8
  rm_u32_0c :: u32
  rm_u32_10 :: u32
  rm_u8_35 :: u8
  rm_character :: u8
  rm_u32_14 :: u32
  rm_order :: u32

definition room_member_default :: room_member where
  "room_member_default =
    \<lparr>rm_host = 0, rm_nickname = [], rm_str_24 = [], rm_user_index = 0, rm_u32_2c = 0, rm_exp = 0,
     rm_u32_04 = 0, rm_slot = 0, rm_ready = 0, rm_u32_0c = 0, rm_u32_10 = 0, rm_u8_35 = 0, rm_character = 0,
     rm_u32_14 = 0, rm_order = 0\<rparr>"

definition room_member_write :: "room_member \<Rightarrow> message_writer \<Rightarrow> message_writer" where
  "room_member_write i = writes
     [write_u32 (rm_host i), write_text (rm_nickname i), write_text (rm_str_24 i), write_u32 (rm_user_index i),
      write_u32 (rm_u32_2c i), write_u32 (rm_exp i), write_u32 (rm_u32_04 i), write_u32 (rm_slot i),
      write_u8 (rm_ready i), write_u32 (rm_u32_0c i), write_u32 (rm_u32_10 i), write_u8 (rm_u8_35 i),
      write_u8 (rm_character i), write_u32 (rm_u32_14 i), write_u32 (rm_order i)]"

record avatar_info =
  av_u32_04 :: u32
  av_host :: u32
  av_u32_0c :: u32
  av_u32_10 :: u32
  av_u32_14 :: u32
  av_u32_18 :: u32
  av_u8_1c :: u8
  av_parts :: "u32 list"

definition avatar_info_default :: avatar_info where
  "avatar_info_default =
    \<lparr>av_u32_04 = 0, av_host = 0, av_u32_0c = 0, av_u32_10 = 0, av_u32_14 = 0, av_u32_18 = 0, av_u8_1c = 0,
     av_parts = replicate 14 0\<rparr>"

definition avatar_info_write :: "avatar_info \<Rightarrow> message_writer \<Rightarrow> message_writer" where
  "avatar_info_write i = writes
     ([write_u32 (av_u32_04 i), write_u32 (av_host i), write_u32 (av_u32_0c i), write_u32 (av_u32_10 i),
      write_u32 (av_u32_14 i), write_u32 (av_u32_18 i), write_u8 (av_u8_1c i)] @
     map write_u32 (av_parts i))"

definition avatar_info_read :: "avatar_info read" where
  "avatar_info_read =
     rbind read_u32 (\<lambda>v_u32_04.
     rbind read_u32 (\<lambda>v_host.
     rbind read_u32 (\<lambda>v_u32_0c.
     rbind read_u32 (\<lambda>v_u32_10.
     rbind read_u32 (\<lambda>v_u32_14.
     rbind read_u32 (\<lambda>v_u32_18.
     rbind read_u8 (\<lambda>v_u8_1c.
     rbind (read_many 14 read_u32) (\<lambda>v_parts.
     rreturn \<lparr>av_u32_04 = v_u32_04, av_host = v_host, av_u32_0c = v_u32_0c, av_u32_10 = v_u32_10,
       av_u32_14 = v_u32_14, av_u32_18 = v_u32_18, av_u8_1c = v_u8_1c, av_parts = v_parts\<rparr>))))))))"

record start_game_info =
  sg_u32_04 :: u32
  sg_str_08 :: str
  sg_u32_0c :: u32
  sg_u32_10 :: u32
  sg_u32_14 :: u32
  sg_u32_18 :: u32
  sg_str_1c :: str

definition start_game_info_default :: start_game_info where
  "start_game_info_default =
    \<lparr>sg_u32_04 = 0, sg_str_08 = [], sg_u32_0c = 0, sg_u32_10 = 0, sg_u32_14 = 0, sg_u32_18 = 0, sg_str_1c = []\<rparr>"

definition start_game_info_write :: "start_game_info \<Rightarrow> message_writer \<Rightarrow> message_writer" where
  "start_game_info_write i = writes
     [write_u32 (sg_u32_04 i), write_text (sg_str_08 i), write_u32 (sg_u32_0c i), write_u32 (sg_u32_10 i),
      write_u32 (sg_u32_14 i), write_u32 (sg_u32_18 i), write_text (sg_str_1c i)]"

record room_slot_user =
  rs_str_04 :: str
  rs_str_08 :: str
  rs_u32_0c :: u32
  rs_u32_10 :: u32
  rs_u16_14 :: u16
  rs_u16_16 :: u16
  rs_u8_18 :: u8

definition room_slot_user_default :: room_slot_user where
  "room_slot_user_default =
    \<lparr>rs_str_04 = [], rs_str_08 = [], rs_u32_0c = 0, rs_u32_10 = 0, rs_u16_14 = 0, rs_u16_16 = 0, rs_u8_18 = 0\<rparr>"

definition room_slot_user_write :: "room_slot_user \<Rightarrow> message_writer \<Rightarrow> message_writer" where
  "room_slot_user_write i = writes
     [write_text (rs_str_04 i), write_text (rs_str_08 i), write_u32 (rs_u32_0c i), write_u32 (rs_u32_10 i),
      write_u16 (rs_u16_14 i), write_u16 (rs_u16_16 i), write_u8 (rs_u8_18 i)]"

record rank_entry =
  re_u32_04 :: u32
  re_u32_08 :: u32
  re_u32_0c :: u32
  re_str_10 :: str
  re_u32_14 :: u32
  re_u32_18 :: u32
  re_u32_1c :: u32
  re_u32_20 :: u32
  re_str_24 :: str
  re_str_28 :: str

definition rank_entry_default :: rank_entry where
  "rank_entry_default =
    \<lparr>re_u32_04 = 0, re_u32_08 = 0, re_u32_0c = 0, re_str_10 = [], re_u32_14 = 0, re_u32_18 = 0, re_u32_1c = 0,
     re_u32_20 = 0, re_str_24 = [], re_str_28 = []\<rparr>"

definition rank_entry_write :: "rank_entry \<Rightarrow> message_writer \<Rightarrow> message_writer" where
  "rank_entry_write i = writes
     [write_u32 (re_u32_04 i), write_u32 (re_u32_08 i), write_u32 (re_u32_0c i), write_text (re_str_10 i),
      write_u32 (re_u32_14 i), write_u32 (re_u32_18 i), write_u32 (re_u32_1c i), write_u32 (re_u32_20 i),
      write_text (re_str_24 i), write_text (re_str_28 i)]"

record rank_info =
  rk_u16_04 :: u16
  rk_u16_06 :: u16
  rk_u16_08 :: u16
  rk_u32_0c :: u32
  rk_u32_10 :: u32
  rk_str_14 :: str
  rk_str_18 :: str

definition rank_info_default :: rank_info where
  "rank_info_default =
    \<lparr>rk_u16_04 = 0, rk_u16_06 = 0, rk_u16_08 = 0, rk_u32_0c = 0, rk_u32_10 = 0, rk_str_14 = [], rk_str_18 = []\<rparr>"

definition rank_info_write :: "rank_info \<Rightarrow> message_writer \<Rightarrow> message_writer" where
  "rank_info_write i = writes
     [write_u16 (rk_u16_04 i), write_u16 (rk_u16_06 i), write_u16 (rk_u16_08 i), write_u32 (rk_u32_0c i),
      write_u32 (rk_u32_10 i), write_text (rk_str_14 i), write_text (rk_str_18 i)]"

section \<open>Codecs\<close>

definition room_info_bytes :: "room_info \<Rightarrow> bytes" where
  "room_info_bytes i = m_data (room_info_write i message_writer_new)"

definition avatar_info_bytes :: "avatar_info \<Rightarrow> bytes" where
  "avatar_info_bytes a = m_data (avatar_info_write a message_writer_new)"

definition wire_room_info :: "room_info \<Rightarrow> bool" where
  "wire_room_info i \<longleftrightarrow>
     wire_text (ri_title i) \<and> wire_text (ri_password i) \<and> wire_text (ri_str_18 i) \<and> length (ri_slots i) = 8"

lemma writes_u8s: "m_data (writes (map write_u8 bs) w) = m_data w @ bs"
  by (induction bs arbitrary: w) (simp_all add: wire_simps)

lemma writes_u32s: "m_data (writes (map write_u32 vs) w) = m_data w @ concat (map (le_bytes 4) vs)"
  by (induction vs arbitrary: w) (simp_all add: wire_simps)

lemma writes_append: "writes (a @ b) w = writes b (writes a w)"
  by (induction a arbitrary: w) (simp_all add: writes_simps)

lemma read_u8s: "length bs = n \<Longrightarrow> rbind (read_many n read_u8) f (reader_at pre (bs @ post)) = f bs (reader_at (pre @ bs) post)"
  using u8c.read_many_dec [of bs pre post] by (simp add: rbind_def)

lemma read_u32s:
  "length vs = n \<Longrightarrow> rbind (read_many n read_u32) f (reader_at pre (concat (map (le_bytes 4) vs) @ post)) =
     f vs (reader_at (pre @ concat (map (le_bytes 4) vs)) post)"
  using u32c.read_many_dec [of vs pre post] by (auto simp: rbind_def)

lemma m_data_room_info [wire_simps]: "m_data (room_info_write i w) = m_data w @ room_info_bytes i"
  by (simp add: room_info_bytes_def room_info_write_def writes_append writes_u8s wire_simps)

lemma m_data_avatar_info [wire_simps]: "m_data (avatar_info_write a w) = m_data w @ avatar_info_bytes a"
  by (simp add: avatar_info_bytes_def avatar_info_write_def writes_append writes_u32s wire_simps)

interpretation roomc: wire_codec room_info_bytes room_info_read wire_room_info
proof unfold_locales
  fix i pre post
  assume v: "wire_room_info i"
  then show "room_info_read (reader_at pre (room_info_bytes i @ post)) = Inr (i, reader_at (pre @ room_info_bytes i) post)"
    by (simp add: wire_room_info_def room_info_read_def room_info_bytes_def room_info_write_def writes_append writes_u8s
        wire_simps textc.rbind_dec read_u8s rreturn_def)
qed

interpretation avatarc: wire_codec avatar_info_bytes avatar_info_read "\<lambda>a. length (av_parts a) = 14"
proof unfold_locales
  fix a :: avatar_info and pre post
  assume v: "length (av_parts a) = 14"
  then show "avatar_info_read (reader_at pre (avatar_info_bytes a @ post)) = Inr (a, reader_at (pre @ avatar_info_bytes a) post)"
    by (simp add: avatar_info_read_def avatar_info_bytes_def avatar_info_write_def writes_append writes_u32s
        wire_simps read_u32s rreturn_def)
qed

lemma length_avatar_info_bytes: "length (av_parts a) = 14 \<Longrightarrow> length (avatar_info_bytes a) = 81"
  by (simp add: avatar_info_bytes_def avatar_info_write_def writes_append writes_u32s wire_simps length_concat
      comp_def sum_list_triv)

end
