(* ===== verification/Gscl_Proxy.thy ===== *)
theory Gscl_Proxy
  imports Gscl_Types
begin

text \<open>
  The builders of the game server's messages, \<^verbatim>\<open>src/src/game/gscl_proxy.hpp\<close>: the numbers of the RMIs
  and one function per RMI that returns its whole payload.
\<close>

section \<open>RMI numbers\<close>

definition id_Logon_GSCL :: u16 where "id_Logon_GSCL = 0x579"
definition id_LogOut_OK :: u16 where "id_LogOut_OK = 0x57a"
definition id_Add_Items :: u16 where "id_Add_Items = 0x57b"
definition id_Add_Gifts :: u16 where "id_Add_Gifts = 0x57c"
definition id_Channel_UserList_Notify :: u16 where "id_Channel_UserList_Notify = 0x57d"
definition id_Create_Avatar :: u16 where "id_Create_Avatar = 0x57e"
definition id_Room_Del_User :: u16 where "id_Room_Del_User = 0x57f"
definition id_Channel_List :: u16 where "id_Channel_List = 0x580"
definition id_Channel_UserList_Answer :: u16 where "id_Channel_UserList_Answer = 0x581"
definition id_Enter_Lobby :: u16 where "id_Enter_Lobby = 0x582"
definition id_Enter_Channel :: u16 where "id_Enter_Channel = 0x583"
definition id_Leave_Channel :: u16 where "id_Leave_Channel = 0x584"
definition id_Change_Channel :: u16 where "id_Change_Channel = 0x585"
definition id_Create_Room :: u16 where "id_Create_Room = 0x586"
definition id_Enter_Room :: u16 where "id_Enter_Room = 0x587"
definition id_Room_Add_User_Avatar :: u16 where "id_Room_Add_User_Avatar = 0x588"
definition id_Leave_Room :: u16 where "id_Leave_Room = 0x589"
definition id_Change_Map :: u16 where "id_Change_Map = 0x58a"
definition id_Change_Type :: u16 where "id_Change_Type = 0x58b"
definition id_Kicked_Room :: u16 where "id_Kicked_Room = 0x58c"
definition id_Change_Team :: u16 where "id_Change_Team = 0x58d"
definition id_CloseSlot_Room :: u16 where "id_CloseSlot_Room = 0x58e"
definition id_OpenSlot_Room :: u16 where "id_OpenSlot_Room = 0x58f"
definition id_Change_Lap :: u16 where "id_Change_Lap = 0x590"
definition id_Change_Attribute :: u16 where "id_Change_Attribute = 0x591"
definition id_Change_RandomMap :: u16 where "id_Change_RandomMap = 0x592"
definition id_Mission_Answer :: u16 where "id_Mission_Answer = 0x593"
definition id_Start_Game_Answer :: u16 where "id_Start_Game_Answer = 0x594"
definition id_Start_Game :: u16 where "id_Start_Game = 0x595"
definition id_Start_Game_Notify :: u16 where "id_Start_Game_Notify = 0x596"
definition id_Ready_Game :: u16 where "id_Ready_Game = 0x597"
definition id_Ready_Game_Notify :: u16 where "id_Ready_Game_Notify = 0x598"
definition id_New_RoomMaster :: u16 where "id_New_RoomMaster = 0x599"
definition id_Select_Character :: u16 where "id_Select_Character = 0x59a"
definition id_Insert_Item :: u16 where "id_Insert_Item = 0x59b"
definition id_Delete_Item_Answer :: u16 where "id_Delete_Item_Answer = 0x59c"
definition id_Gift_Item :: u16 where "id_Gift_Item = 0x59d"
definition id_Answer_Gift :: u16 where "id_Answer_Gift = 0x59e"
definition id_Room_UpDataAvatar :: u16 where "id_Room_UpDataAvatar = 0x59f"
definition id_Room_Change_Comment :: u16 where "id_Room_Change_Comment = 0x5a0"
definition id_EnableRoom :: u16 where "id_EnableRoom = 0x5a1"
definition id_Room_Member_Answer :: u16 where "id_Room_Member_Answer = 0x5a2"
definition id_Channel_RoomNumber_Answer :: u16 where "id_Channel_RoomNumber_Answer = 0x5a3"
definition id_Lobby_Add_Rooms :: u16 where "id_Lobby_Add_Rooms = 0x5a4"
definition id_Lobby_Chat :: u16 where "id_Lobby_Chat = 0x5a5"
definition id_Room_Chat :: u16 where "id_Room_Chat = 0x5a6"
definition id_Cry :: u16 where "id_Cry = 0x5a7"
definition id_RankingAnswer :: u16 where "id_RankingAnswer = 0x5a8"
definition id_RankInfo_Answer :: u16 where "id_RankInfo_Answer = 0x5a9"
definition id_HS_Period_Check :: u16 where "id_HS_Period_Check = 0x5aa"
definition id_HS_Client_Out :: u16 where "id_HS_Client_Out = 0x5ab"
definition id_Forced_Close :: u16 where "id_Forced_Close = 0x5ac"
definition id_Add_Avatars :: u16 where "id_Add_Avatars = 0x5ad"
definition id_Enter_Nation :: u16 where "id_Enter_Nation = 0x5ae"
definition id_Change_Nation :: u16 where "id_Change_Nation = 0x5af"
definition id_Updata_Ranking :: u16 where "id_Updata_Ranking = 0x5b0"
definition id_Check_HS_Request :: u16 where "id_Check_HS_Request = 0x5b1"
definition id_Room_Index_Request :: u16 where "id_Room_Index_Request = 0x5b2"
definition id_RankingAnswer_Notice :: u16 where "id_RankingAnswer_Notice = 0x5b3"
definition id_User_New_Infor_Answer :: u16 where "id_User_New_Infor_Answer = 0x5b4"
definition id_GS2CL_Test :: u16 where "id_GS2CL_Test = 0x5b5"

definition gscl_ok :: u16 where "gscl_ok = 0"

section \<open>Builders\<close>

definition Logon_GSCL :: "u32 \<Rightarrow> logon_info \<Rightarrow> u16 \<Rightarrow> u32 \<Rightarrow> u16 \<Rightarrow> u32 \<Rightarrow> u32 \<Rightarrow> str \<Rightarrow> message_writer" where
  "Logon_GSCL my_host i result a b gender age location = writes
     [write_u32 my_host, logon_info_write i, write_u16 result, write_u32 a, write_u16 b, write_u32 gender,
      write_u32 age, write_text location] (rmi_begin id_Logon_GSCL)"

definition LogOut_OK_GSCL :: message_writer where
  "LogOut_OK_GSCL = rmi_begin id_LogOut_OK"

definition Add_Items_GSCL :: "item_info list \<Rightarrow> message_writer" where
  "Add_Items_GSCL items = writes
     [write_array item_info_write items] (rmi_begin id_Add_Items)"

definition Add_Gifts_GSCL :: "gift_info list \<Rightarrow> message_writer" where
  "Add_Gifts_GSCL gifts = writes
     [write_array gift_info_write gifts] (rmi_begin id_Add_Gifts)"

definition Channel_UserList_Notify_GSCL :: "channel_user list \<Rightarrow> message_writer" where
  "Channel_UserList_Notify_GSCL users = writes
     [write_array channel_user_write users] (rmi_begin id_Channel_UserList_Notify)"

definition Room_Del_User_GSCL :: "u32 \<Rightarrow> u32 \<Rightarrow> u32 \<Rightarrow> message_writer" where
  "Room_Del_User_GSCL host slot unk = writes
     [write_u32 host, write_u32 slot, write_u32 unk] (rmi_begin id_Room_Del_User)"

definition Channel_List_GSCL :: "channel_info list \<Rightarrow> message_writer" where
  "Channel_List_GSCL channels = writes
     [write_array channel_info_write channels] (rmi_begin id_Channel_List)"

definition Channel_UserList_Answer_GSCL :: "u32 \<Rightarrow> channel_user list \<Rightarrow> u16 \<Rightarrow> u8 \<Rightarrow> message_writer" where
  "Channel_UserList_Answer_GSCL host users u16v flag = writes
     [write_u32 host, write_array channel_user_write users, write_u16 u16v, write_u8 flag] (rmi_begin id_Channel_UserList_Answer)"

definition Enter_Lobby_GSCL :: "u16 \<Rightarrow> message_writer" where
  "Enter_Lobby_GSCL result = writes
     [write_u16 result] (rmi_begin id_Enter_Lobby)"

definition Enter_Channel_GSCL :: "u8 \<Rightarrow> u16 \<Rightarrow> message_writer" where
  "Enter_Channel_GSCL channel result = writes
     [write_u8 channel, write_u16 result] (rmi_begin id_Enter_Channel)"

definition Leave_Channel_GSCL :: "u16 \<Rightarrow> message_writer" where
  "Leave_Channel_GSCL result = writes
     [write_u16 result] (rmi_begin id_Leave_Channel)"

definition Change_Channel_GSCL :: "u8 \<Rightarrow> u16 \<Rightarrow> message_writer" where
  "Change_Channel_GSCL channel result = writes
     [write_u8 channel, write_u16 result] (rmi_begin id_Change_Channel)"

definition Create_Room_GSCL :: "room_info \<Rightarrow> u16 \<Rightarrow> u16 \<Rightarrow> message_writer" where
  "Create_Room_GSCL room unk result = writes
     [room_info_write room, write_u16 unk, write_u16 result] (rmi_begin id_Create_Room)"

definition Enter_Room_GSCL :: "room_member list \<Rightarrow> avatar_info list \<Rightarrow> u32 \<Rightarrow> room_info \<Rightarrow> u16 \<Rightarrow> message_writer" where
  "Enter_Room_GSCL members avatars master_slot room result = writes
     [write_array room_member_write members, write_array avatar_info_write avatars, write_u32 master_slot,
      room_info_write room, write_u16 result] (rmi_begin id_Enter_Room)"

definition Room_Add_User_Avatar_GSCL :: "avatar_info \<Rightarrow> room_member \<Rightarrow> message_writer" where
  "Room_Add_User_Avatar_GSCL avatar member = writes
     [avatar_info_write avatar, room_member_write member] (rmi_begin id_Room_Add_User_Avatar)"

definition Leave_Room_GSCL :: "u16 \<Rightarrow> message_writer" where
  "Leave_Room_GSCL result = writes
     [write_u16 result] (rmi_begin id_Leave_Room)"

definition Change_Map_GSCL :: "u8 \<Rightarrow> message_writer" where
  "Change_Map_GSCL map_code = writes
     [write_u8 map_code] (rmi_begin id_Change_Map)"

definition Change_Type_GSCL :: "u8 \<Rightarrow> room_member list \<Rightarrow> message_writer" where
  "Change_Type_GSCL type members = writes
     [write_u8 type, write_array room_member_write members] (rmi_begin id_Change_Type)"

definition Kicked_Room_GSCL :: "u16 \<Rightarrow> message_writer" where
  "Kicked_Room_GSCL reason = writes
     [write_u16 reason] (rmi_begin id_Kicked_Room)"

definition Change_Team_GSCL :: "u32 \<Rightarrow> u8 \<Rightarrow> message_writer" where
  "Change_Team_GSCL slot team = writes
     [write_u32 slot, write_u8 team] (rmi_begin id_Change_Team)"

definition CloseSlot_Room_GSCL :: "u32 \<Rightarrow> message_writer" where
  "CloseSlot_Room_GSCL slot = writes
     [write_u32 slot] (rmi_begin id_CloseSlot_Room)"

definition OpenSlot_Room_GSCL :: "u32 \<Rightarrow> message_writer" where
  "OpenSlot_Room_GSCL slot = writes
     [write_u32 slot] (rmi_begin id_OpenSlot_Room)"

definition Change_Lap_GSCL :: "u8 \<Rightarrow> message_writer" where
  "Change_Lap_GSCL laps = writes
     [write_u8 laps] (rmi_begin id_Change_Lap)"

definition Change_Attribute_GSCL :: "u8 \<Rightarrow> message_writer" where
  "Change_Attribute_GSCL attribute = writes
     [write_u8 attribute] (rmi_begin id_Change_Attribute)"

definition Change_RandomMap_GSCL :: "bool \<Rightarrow> message_writer" where
  "Change_RandomMap_GSCL random = writes
     [write_bool random] (rmi_begin id_Change_RandomMap)"

definition Mission_Answer_GSCL :: "u8 \<Rightarrow> message_writer" where
  "Mission_Answer_GSCL v = writes
     [write_u8 v] (rmi_begin id_Mission_Answer)"

definition Start_Game_GSCL :: "start_game_info \<Rightarrow> u16 \<Rightarrow> u16 \<Rightarrow> u16 \<Rightarrow> message_writer" where
  "Start_Game_GSCL i mode laps result = writes
     [start_game_info_write i, write_u16 mode, write_u16 laps, write_u16 result] (rmi_begin id_Start_Game)"

definition Ready_Game_GSCL :: "u32 \<Rightarrow> u32 \<Rightarrow> bool \<Rightarrow> message_writer" where
  "Ready_Game_GSCL host slot ready = writes
     [write_u32 host, write_u32 slot, write_bool ready] (rmi_begin id_Ready_Game)"

definition New_RoomMaster_GSCL :: "u32 \<Rightarrow> message_writer" where
  "New_RoomMaster_GSCL slot = writes
     [write_u32 slot] (rmi_begin id_New_RoomMaster)"

definition Select_Character_GSCL :: "u32 \<Rightarrow> str \<Rightarrow> str \<Rightarrow> u16 \<Rightarrow> message_writer" where
  "Select_Character_GSCL character a b result = writes
     [write_u32 character, write_text a, write_text b, write_u16 result] (rmi_begin id_Select_Character)"

definition Insert_Item_GSCL :: "item_info \<Rightarrow> u16 \<Rightarrow> message_writer" where
  "Insert_Item_GSCL item result = writes
     [item_info_write item, write_u16 result] (rmi_begin id_Insert_Item)"

definition Delete_Item_Answer_GSCL :: "u32 \<Rightarrow> u16 \<Rightarrow> message_writer" where
  "Delete_Item_Answer_GSCL item_id result = writes
     [write_u32 item_id, write_u16 result] (rmi_begin id_Delete_Item_Answer)"

definition Gift_Item_GSCL :: "gift_info \<Rightarrow> str \<Rightarrow> u32 \<Rightarrow> u16 \<Rightarrow> message_writer" where
  "Gift_Item_GSCL gift s v result = writes
     [gift_info_write gift, write_text s, write_u32 v, write_u16 result] (rmi_begin id_Gift_Item)"

definition Answer_Gift_GSCL :: "item_info \<Rightarrow> u32 \<Rightarrow> u16 \<Rightarrow> u16 \<Rightarrow> message_writer" where
  "Answer_Gift_GSCL item v a result = writes
     [item_info_write item, write_u32 v, write_u16 a, write_u16 result] (rmi_begin id_Answer_Gift)"

definition Room_UpDataAvatar_GSCL :: "avatar_info \<Rightarrow> u32 \<Rightarrow> message_writer" where
  "Room_UpDataAvatar_GSCL avatar v = writes
     [avatar_info_write avatar, write_u32 v] (rmi_begin id_Room_UpDataAvatar)"

definition Room_Change_Comment_GSCL :: "str \<Rightarrow> u32 \<Rightarrow> message_writer" where
  "Room_Change_Comment_GSCL comment v = writes
     [write_text comment, write_u32 v] (rmi_begin id_Room_Change_Comment)"

definition Room_Member_Answer_GSCL :: "u16 \<Rightarrow> u16 \<Rightarrow> u32 \<Rightarrow> room_member list \<Rightarrow> room_slot_user list \<Rightarrow> message_writer" where
  "Room_Member_Answer_GSCL a b host members slots = writes
     [write_u16 a, write_u16 b, write_u32 host, write_array room_member_write members,
      write_array room_slot_user_write slots] (rmi_begin id_Room_Member_Answer)"

definition Channel_RoomNumber_Answer_GSCL :: "u32 \<Rightarrow> u16 \<Rightarrow> message_writer" where
  "Channel_RoomNumber_Answer_GSCL number result = writes
     [write_u32 number, write_u16 result] (rmi_begin id_Channel_RoomNumber_Answer)"

definition Lobby_Add_Rooms_GSCL :: "room_info list \<Rightarrow> u32 \<Rightarrow> message_writer" where
  "Lobby_Add_Rooms_GSCL rooms unk = writes
     [write_array room_info_write rooms, write_u32 unk] (rmi_begin id_Lobby_Add_Rooms)"

definition Lobby_Chat_GSCL :: "u32 \<Rightarrow> str \<Rightarrow> message_writer" where
  "Lobby_Chat_GSCL sender body = writes
     [write_u32 sender, write_text body] (rmi_begin id_Lobby_Chat)"

definition Room_Chat_GSCL :: "u32 \<Rightarrow> str \<Rightarrow> message_writer" where
  "Room_Chat_GSCL sender body = writes
     [write_u32 sender, write_text body] (rmi_begin id_Room_Chat)"

definition Cry_GSCL :: "str \<Rightarrow> message_writer" where
  "Cry_GSCL body = writes
     [write_text body] (rmi_begin id_Cry)"

definition RankingAnswer_GSCL :: "rank_entry list \<Rightarrow> message_writer" where
  "RankingAnswer_GSCL entries = writes
     [write_array rank_entry_write entries] (rmi_begin id_RankingAnswer)"

definition RankInfo_Answer_GSCL :: "rank_info list \<Rightarrow> rank_info list \<Rightarrow> u32 \<Rightarrow> u32 \<Rightarrow> u32 \<Rightarrow> message_writer" where
  "RankInfo_Answer_GSCL a b x y z = writes
     [write_array rank_info_write a, write_array rank_info_write b, write_u32 x, write_u32 y, write_u32 z] (rmi_begin id_RankInfo_Answer)"

definition HS_Client_Out_GSCL :: "bool \<Rightarrow> message_writer" where
  "HS_Client_Out_GSCL v = writes
     [write_bool v] (rmi_begin id_HS_Client_Out)"

definition Forced_Close_GSCL :: "u16 \<Rightarrow> message_writer" where
  "Forced_Close_GSCL reason = writes
     [write_u16 reason] (rmi_begin id_Forced_Close)"

definition Add_Avatars_GSCL :: "avatar_info list \<Rightarrow> message_writer" where
  "Add_Avatars_GSCL avatars = writes
     [write_array avatar_info_write avatars] (rmi_begin id_Add_Avatars)"

definition Enter_Nation_GSCL :: "u8 \<Rightarrow> u16 \<Rightarrow> message_writer" where
  "Enter_Nation_GSCL nation result = writes
     [write_u8 nation, write_u16 result] (rmi_begin id_Enter_Nation)"

definition Updata_Ranking_GSCL :: "rank_entry list \<Rightarrow> message_writer" where
  "Updata_Ranking_GSCL entries = writes
     [write_array rank_entry_write entries] (rmi_begin id_Updata_Ranking)"

definition Room_Index_Request_GSCL :: "u16 \<Rightarrow> message_writer" where
  "Room_Index_Request_GSCL v = writes
     [write_u16 v] (rmi_begin id_Room_Index_Request)"

definition RankingAnswer_Notice_GSCL :: "rank_entry list \<Rightarrow> message_writer" where
  "RankingAnswer_Notice_GSCL entries = writes
     [write_array rank_entry_write entries] (rmi_begin id_RankingAnswer_Notice)"

definition User_New_Infor_Answer_GSCL :: "u32 \<Rightarrow> message_writer" where
  "User_New_Infor_Answer_GSCL v = writes
     [write_u32 v] (rmi_begin id_User_New_Infor_Answer)"

end
