(* ===== verification/Clgs.thy ===== *)
theory Clgs
  imports Prelude
begin

text \<open>
  The numbers of the messages the client sends to the game server and their names for the log,
  \<^verbatim>\<open>src/src/game/clgs.hpp\<close>.
\<close>

definition Logon_CLGS :: u16 where "Logon_CLGS = 1001"
definition Create_Avatar_CLGS :: u16 where "Create_Avatar_CLGS = 1002"
definition Select_Avatar_CLGS :: u16 where "Select_Avatar_CLGS = 1003"
definition Logout_Notify_CLGS :: u16 where "Logout_Notify_CLGS = 1004"
definition Room_List_CLGS :: u16 where "Room_List_CLGS = 1005"
definition Room_Request_Room_Member_CLGS :: u16 where "Room_Request_Room_Member_CLGS = 1006"
definition Create_Room_CLGS :: u16 where "Create_Room_CLGS = 1007"
definition Enter_Room_CLGS :: u16 where "Enter_Room_CLGS = 1008"
definition Room_Chat_CLGS :: u16 where "Room_Chat_CLGS = 1009"
definition Team_Chat_CLGS :: u16 where "Team_Chat_CLGS = 1010"
definition Wisper_Chat_CLGS :: u16 where "Wisper_Chat_CLGS = 1011"
definition Leave_Room_CLGS :: u16 where "Leave_Room_CLGS = 1012"
definition Change_Map_CLGS :: u16 where "Change_Map_CLGS = 1013"
definition Change_Type_CLGS :: u16 where "Change_Type_CLGS = 1014"
definition Kicked_Room_CLGS :: u16 where "Kicked_Room_CLGS = 1015"
definition CloseSlot_Room_CLGS :: u16 where "CloseSlot_Room_CLGS = 1016"
definition OpenSlot_Room_CLGS :: u16 where "OpenSlot_Room_CLGS = 1017"
definition Change_Team_CLGS :: u16 where "Change_Team_CLGS = 1018"
definition Change_Lap_CLGS :: u16 where "Change_Lap_CLGS = 1019"
definition Change_Attribute_CLGS :: u16 where "Change_Attribute_CLGS = 1020"
definition Change_RandomMap_CLGS :: u16 where "Change_RandomMap_CLGS = 1021"
definition Mission_Request_CLGS :: u16 where "Mission_Request_CLGS = 1022"
definition Start_Game_CLGS :: u16 where "Start_Game_CLGS = 1023"
definition Ready_Game_CLGS :: u16 where "Ready_Game_CLGS = 1024"
definition Room_Save_Score_CLGS :: u16 where "Room_Save_Score_CLGS = 1025"
definition GotoWaitRoom_Notify_CLGS :: u16 where "GotoWaitRoom_Notify_CLGS = 1026"
definition Room_QuickJoin_CLGS :: u16 where "Room_QuickJoin_CLGS = 1027"
definition Room_ConnectOk_CLGS :: u16 where "Room_ConnectOk_CLGS = 1028"
definition GameReady_Notify_CLGS :: u16 where "GameReady_Notify_CLGS = 1029"
definition Select_Character_Request_CLGS :: u16 where "Select_Character_Request_CLGS = 1030"
definition Insert_Item_Request_CLGS :: u16 where "Insert_Item_Request_CLGS = 1031"
definition Delete_Item_Request_CLGS :: u16 where "Delete_Item_Request_CLGS = 1032"
definition Gift_Item_Request_CLGS :: u16 where "Gift_Item_Request_CLGS = 1033"
definition Answer_Gift_CLGS :: u16 where "Answer_Gift_CLGS = 1034"
definition DuraCheck_Item_Request_CLGS :: u16 where "DuraCheck_Item_Request_CLGS = 1035"
definition Update_Avatar_CLGS :: u16 where "Update_Avatar_CLGS = 1036"
definition Update_ASDKEY_CLGS :: u16 where "Update_ASDKEY_CLGS = 1037"
definition BuyItem_Request_CLGS :: u16 where "BuyItem_Request_CLGS = 1038"
definition Channel_List_CLGS :: u16 where "Channel_List_CLGS = 1039"
definition Channel_UserList_Request_CLGS :: u16 where "Channel_UserList_Request_CLGS = 1040"
definition Enter_Channel_CLGS :: u16 where "Enter_Channel_CLGS = 1041"
definition Leave_Channel_CLGS :: u16 where "Leave_Channel_CLGS = 1042"
definition Change_Channel_CLGS :: u16 where "Change_Channel_CLGS = 1043"
definition Channel_Total_RoomNumber_CLGS :: u16 where "Channel_Total_RoomNumber_CLGS = 1044"
definition Guid_Request_CLGS :: u16 where "Guid_Request_CLGS = 1045"
definition Check_Period_Answer_CLGS :: u16 where "Check_Period_Answer_CLGS = 1046"
definition Check_Error_Notify_CLGS :: u16 where "Check_Error_Notify_CLGS = 1047"
definition Enter_Lobby_CLGS :: u16 where "Enter_Lobby_CLGS = 1048"
definition Lobby_Chat_CLGS :: u16 where "Lobby_Chat_CLGS = 1049"
definition Change_Comment_CLGS :: u16 where "Change_Comment_CLGS = 1050"
definition Cry_CLGS :: u16 where "Cry_CLGS = 1051"
definition Ranking_Request_CLGS :: u16 where "Ranking_Request_CLGS = 1052"
definition Enter_Nation_CLGS :: u16 where "Enter_Nation_CLGS = 1053"
definition Change_Nation_CLGS :: u16 where "Change_Nation_CLGS = 1054"
definition RankInfo_Request_CLGS :: u16 where "RankInfo_Request_CLGS = 1055"
definition Update_Gs_UserClanInfo_CLGS :: u16 where "Update_Gs_UserClanInfo_CLGS = 1056"
definition Room_Index_Answer_CLGS :: u16 where "Room_Index_Answer_CLGS = 1057"
definition GetUserNewCash_CLGS :: u16 where "GetUserNewCash_CLGS = 1058"
definition BlastingRoom_GM_CLGS :: u16 where "BlastingRoom_GM_CLGS = 1059"
definition UserKickRoom_GM_CLGS :: u16 where "UserKickRoom_GM_CLGS = 1060"
definition CL2GS_Test_CLGS :: u16 where "CL2GS_Test_CLGS = 1061"

definition client_version :: u32 where "client_version = 20070204"

definition clgs_names :: "string list" where
  "clgs_names =
    [''Logon_CLGS'', ''Create_Avatar'', ''Select_Avatar'', ''Logout_Notify'', ''Room_List'',
     ''Room_Request_Room_Member'', ''Create_Room'', ''Enter_Room'', ''Room_Chat'', ''Team_Chat'',
     ''Wisper_Chat'', ''Leave_Room'', ''Change_Map'', ''Change_Type'', ''Kicked_Room'', ''CloseSlot_Room'',
     ''OpenSlot_Room'', ''Change_Team'', ''Change_Lap'', ''Change_Attribute'', ''Change_RandomMap'',
     ''Mission_Request'', ''Start_Game'', ''Ready_Game'', ''Room_Save_Score'', ''GotoWaitRoom_Notify'',
     ''Room_QuickJoin'', ''Room_ConnectOk'', ''GameReady_Notify'', ''Select_Character_Request'',
     ''Insert_Item_Request'', ''Delete_Item_Request'', ''Gift_Item_Request'', ''Answer_Gift'',
     ''DuraCheck_Item_Request'', ''Update_Avatar'', ''Update_ASDKEY'', ''BuyItem_Request'', ''Channel_List'',
     ''Channel_UserList_Request'', ''Enter_Channel'', ''Leave_Channel'', ''Change_Channel'',
     ''Channel_Total_RoomNumber'', ''Guid_Request'', ''Check_Period_Answer'', ''Check_Error_Notify'',
     ''Enter_Lobby'', ''Lobby_Chat'', ''Change_Comment'', ''Cry'', ''Ranking_Request'', ''Enter_Nation'',
     ''Change_Nation'', ''RankInfo_Request'', ''Update_Gs_UserClanInfo'', ''Room_Index_Answer'',
     ''GetUserNewCash'', ''BlastingRoom_GM'', ''UserKickRoom_GM'', ''CL2GS_Test'']"

text \<open>The subtraction is on \<open>size_t\<close> and wraps around below the first number.\<close>

definition clgs_name :: "u16 \<Rightarrow> string" where
  "clgs_name v =
     (let i = (ucast v :: u64) - 1001
      in if unat i < length clgs_names then clgs_names ! unat i else ''unknown'')"

lemmas clgs_defs =
  Logon_CLGS_def Create_Avatar_CLGS_def Select_Avatar_CLGS_def Logout_Notify_CLGS_def Room_List_CLGS_def
  Room_Request_Room_Member_CLGS_def Create_Room_CLGS_def Enter_Room_CLGS_def Room_Chat_CLGS_def
  Team_Chat_CLGS_def Wisper_Chat_CLGS_def Leave_Room_CLGS_def Change_Map_CLGS_def Change_Type_CLGS_def
  Kicked_Room_CLGS_def CloseSlot_Room_CLGS_def OpenSlot_Room_CLGS_def Change_Team_CLGS_def
  Change_Lap_CLGS_def Change_Attribute_CLGS_def Change_RandomMap_CLGS_def Mission_Request_CLGS_def
  Start_Game_CLGS_def Ready_Game_CLGS_def Room_Save_Score_CLGS_def GotoWaitRoom_Notify_CLGS_def
  Room_QuickJoin_CLGS_def Room_ConnectOk_CLGS_def GameReady_Notify_CLGS_def Select_Character_Request_CLGS_def
  Insert_Item_Request_CLGS_def Delete_Item_Request_CLGS_def Gift_Item_Request_CLGS_def Answer_Gift_CLGS_def
  DuraCheck_Item_Request_CLGS_def Update_Avatar_CLGS_def Update_ASDKEY_CLGS_def BuyItem_Request_CLGS_def
  Channel_List_CLGS_def Channel_UserList_Request_CLGS_def Enter_Channel_CLGS_def Leave_Channel_CLGS_def
  Change_Channel_CLGS_def Channel_Total_RoomNumber_CLGS_def Guid_Request_CLGS_def
  Check_Period_Answer_CLGS_def Check_Error_Notify_CLGS_def Enter_Lobby_CLGS_def Lobby_Chat_CLGS_def
  Change_Comment_CLGS_def Cry_CLGS_def Ranking_Request_CLGS_def Enter_Nation_CLGS_def Change_Nation_CLGS_def
  RankInfo_Request_CLGS_def Update_Gs_UserClanInfo_CLGS_def Room_Index_Answer_CLGS_def
  GetUserNewCash_CLGS_def BlastingRoom_GM_CLGS_def UserKickRoom_GM_CLGS_def CL2GS_Test_CLGS_def

end
