(* ===== verification/Game.thy ===== *)
theory Game
  imports Gscl_Proxy Clgs Config
begin

text \<open>
  The game server, \<^verbatim>\<open>src/src/game/game_server.hpp\<close> and \<^verbatim>\<open>.cpp\<close>: players, channels and rooms, and the
  handlers of all messages. A player refers to its room by a \<open>shared_ptr\<close> that may outlive the entry of
  the room in \<open>m_rooms\<close>, so rooms live in a store of their own and a reference is an index into it.
\<close>

section \<open>State\<close>

definition channel_count :: nat where "channel_count = 6"
definition room_slots :: nat where "room_slots = 8"
definition rooms_per_page :: nat where "rooms_per_page = 8"
definition no_channel :: u8 where "no_channel = 0xff"

definition enter_ok :: u16 where "enter_ok = 0"
definition enter_failed :: u16 where "enter_failed = 1"
definition enter_wrong_password :: u16 where "enter_wrong_password = 11"
definition enter_full :: u16 where "enter_full = 12"
definition enter_playing :: u16 where "enter_playing = 13"

definition room_state_waiting :: u8 where "room_state_waiting = 0"
definition room_state_playing :: u8 where "room_state_playing = 1"
definition channel_capacity :: u32 where "channel_capacity = 200"

type_synonym room_ref = nat

record player =
  pl_host :: host_id
  pl_account :: account
  nickname :: str
  pl_exp :: u32
  money :: u32
  character :: u32
  comment :: str
  pl_nation :: u8
  pl_channel :: u8
  current_room :: "room_ref option"
  pl_slot :: u32
  ready :: bool
  team :: u8
  avatar :: avatar_info

record room =
  r_info :: room_info
  r_channel :: u8
  r_slots :: "host_id list"
  r_closed :: "bool list"
  master_slot :: u32
  p2p_group :: host_id
  playing :: bool

text \<open>
  Where the C++ code has no defined behaviour, does not return or runs out of memory, the model
  records the first such event; what happens afterwards is not meant to say anything.
\<close>

datatype game_fault = use_after_free | empty_optional | no_room_number | out_of_memory

record game_app =
  gs_accounts :: account_store
  m_players :: "(host_id, player) omap"
  m_rooms :: "(u16, room_ref) omap"
  room_store :: "room list"
  m_next_room_number :: u16
  gs_fault :: "game_fault option"

type_synonym game_world = "(unit, game_app) world"

definition game_server_config :: "config \<Rightarrow> server_config" where
  "game_server_config c = \<lparr>sc_name = ''game'', sc_port = game_port c,
     protocol_version = game_protocol_version, settings = net_settings_default, timeout = 90\<rparr>"

definition game_new :: "config \<Rightarrow> account_store \<Rightarrow> rng \<Rightarrow> clock \<Rightarrow> (nat \<Rightarrow> f64) \<Rightarrow> game_world" where
  "game_new c accounts g clk seconds =
     \<lparr>m_net = server_new (game_server_config c) g clk seconds,
      m_app = \<lparr>gs_accounts = accounts, m_players = [], m_rooms = [], room_store = [], m_next_room_number = 1,
               gs_fault = None\<rparr>\<rparr>"

definition fault :: "game_fault \<Rightarrow> game_world \<Rightarrow> game_world" where
  "fault f = with_app (\<lambda>a. a\<lparr>gs_fault := (case gs_fault a of None \<Rightarrow> Some f | Some x \<Rightarrow> Some x)\<rparr>)"

section \<open>Players and rooms\<close>

definition player_by_host :: "game_app \<Rightarrow> host_id \<Rightarrow> player option" where
  "player_by_host a host = map_of (m_players a) host"

text \<open>The player object behind a HostID and the room object behind a reference are changed in place.\<close>

definition on_player :: "host_id \<Rightarrow> (player \<Rightarrow> player) \<Rightarrow> game_world \<Rightarrow> game_world" where
  "on_player host f = with_app (\<lambda>a.
     case map_of (m_players a) host of None \<Rightarrow> a | Some p \<Rightarrow> a\<lparr>m_players := omap_put host (f p) (m_players a)\<rparr>)"

definition room_at :: "game_app \<Rightarrow> room_ref \<Rightarrow> room" where
  "room_at a ref = room_store a ! ref"

definition on_room :: "room_ref \<Rightarrow> (room \<Rightarrow> room) \<Rightarrow> game_world \<Rightarrow> game_world" where
  "on_room ref f = with_app (\<lambda>a. a\<lparr>room_store := (room_store a)[ref := f (room_at a ref)]\<rparr>)"

text \<open>Whether some \<open>shared_ptr\<close> of the server still refers to a room\<close>

definition room_live :: "room_ref \<Rightarrow> game_app \<Rightarrow> bool" where
  "room_live ref a \<longleftrightarrow> ref \<in> snd ` set (m_rooms a) \<or> (\<exists>(h, p) \<in> set (m_players a). current_room p = Some ref)"

definition player_count :: "room \<Rightarrow> nat" where
  "player_count r = length (filter (\<lambda>h. h \<noteq> 0) (r_slots r))"

definition capacity :: "room \<Rightarrow> nat" where
  "capacity r = min (if ri_max_players (r_info r) \<noteq> 0 then unat (ri_max_players (r_info r)) else room_slots) room_slots"

definition free_slot :: "room \<Rightarrow> nat option" where
  "free_slot r = List.find (\<lambda>i. r_slots r ! i = 0 \<and> \<not> r_closed r ! i) [0..<capacity r]"

definition send_player :: "player \<Rightarrow> message_writer \<Rightarrow> game_world \<Rightarrow> game_world" where
  "send_player p m = net_send (pl_host p) m"

definition send_room :: "room \<Rightarrow> message_writer \<Rightarrow> host_id \<Rightarrow> game_world \<Rightarrow> game_world" where
  "send_room r m except w =
     fold (\<lambda>host w. if host \<noteq> 0 \<and> host \<noteq> except then net_send host m w else w) (r_slots r) w"

definition send_channel_lobby :: "u8 \<Rightarrow> message_writer \<Rightarrow> game_world \<Rightarrow> game_world" where
  "send_channel_lobby channel m w =
     fold (\<lambda>(host, p) w. if pl_channel p = channel \<and> current_room p = None then net_send host m w else w)
       (m_players (m_app w)) w"

definition member_of :: "player \<Rightarrow> room_member" where
  "member_of p = room_member_default
     \<lparr>rm_host := pl_host p, rm_nickname := nickname p, rm_str_24 := comment p, rm_user_index := acc_index (pl_account p),
      rm_exp := pl_exp p, rm_slot := pl_slot p, rm_ready := (if ready p then 1 else 0),
      rm_character := ucast (character p), rm_order := pl_slot p\<rparr>"

definition avatar_of :: "player \<Rightarrow> avatar_info" where
  "avatar_of p = (avatar p)\<lparr>av_host := pl_host p\<rparr>"

definition listed_info :: "room \<Rightarrow> room_info" where
  "listed_info r = (r_info r)
     \<lparr>ri_players := of_nat (player_count r),
      ri_state := (if playing r then room_state_playing else room_state_waiting),
      ri_has_password := (if ri_password (r_info r) = [] then 0 else 1),
      ri_slots := map (\<lambda>c. if c then 1 else 0) (r_closed r)\<rparr>"

definition rooms_in :: "game_app \<Rightarrow> u8 \<Rightarrow> room_ref list" where
  "rooms_in a channel = filter (\<lambda>ref. r_channel (room_at a ref) = channel) (map snd (m_rooms a))"

definition find_room :: "game_app \<Rightarrow> u8 \<Rightarrow> u16 \<Rightarrow> room_ref option" where
  "find_room a channel number =
     (case map_of (m_rooms a) number of
        None \<Rightarrow> None
      | Some ref \<Rightarrow> if r_channel (room_at a ref) = channel then Some ref else None)"

definition is_master :: "game_app \<Rightarrow> player \<Rightarrow> bool" where
  "is_master a p \<longleftrightarrow>
     (case current_room p of None \<Rightarrow> False | Some ref \<Rightarrow> master_slot (room_at a ref) = pl_slot p)"

text \<open>The players in the slots of a room, in slot order\<close>

definition players_in :: "game_app \<Rightarrow> room \<Rightarrow> player list" where
  "players_in a r = List.map_filter (player_by_host a) (r_slots r)"

section \<open>Entering and leaving rooms\<close>

definition remove_from_room :: "host_id \<Rightarrow> bool \<Rightarrow> game_world \<Rightarrow> game_world" where
  "remove_from_room host kicked w =
     (case player_by_host (m_app w) host of
        None \<Rightarrow> w
      | Some p \<Rightarrow>
          (case current_room p of
             None \<Rightarrow> w
           | Some ref \<Rightarrow>
               (let slot = pl_slot p;
                    w1 = on_room ref (\<lambda>r. r\<lparr>r_slots := (r_slots r)[unat slot := 0]\<rparr>) w;
                    w2 = on_player host (\<lambda>p. p\<lparr>current_room := None, ready := False\<rparr>) w1;
                    grp = p2p_group (room_at (m_app w2) ref);
                    w3 = with_net (leave_p2p_group grp (pl_host p)) w2;
                    w4 = (if kicked then send_player p (Kicked_Room_GSCL gscl_ok) w3 else w3);
                    r = room_at (m_app w4) ref
                in if player_count r = 0
                   then with_app (\<lambda>a. a\<lparr>m_rooms := omap_del (ri_number (r_info r)) (m_rooms a)\<rparr>)
                          (with_net (destroy_p2p_group grp) w4)
                   else
                     (let w5 = send_room r (Room_Del_User_GSCL (pl_host p) slot 0) 0 w4 in
                      if master_slot r = slot
                      then (let next = of_nat (length (takeWhile (\<lambda>h. h = 0) (r_slots r)));
                                w6 = on_room ref (\<lambda>r. r\<lparr>master_slot := next\<rparr>) w5
                            in send_room r (New_RoomMaster_GSCL next) 0 w6)
                      else w5))))"

definition join_room :: "host_id \<Rightarrow> room_ref \<Rightarrow> game_world \<Rightarrow> game_world" where
  "join_room host ref w =
     (let w1 = remove_from_room host False w in
      case player_by_host (m_app w1) host of
        None \<Rightarrow> w1
      | Some p \<Rightarrow>
          (case free_slot (room_at (m_app w1) ref) of
             None \<Rightarrow> fault empty_optional w1
           | Some slot \<Rightarrow>
               (let p' = p\<lparr>current_room := Some ref, pl_slot := of_nat slot, ready := False\<rparr>;
                    w2 = on_room ref (\<lambda>r. r\<lparr>r_slots := (r_slots r)[slot := pl_host p]\<rparr>) w1;
                    w3 = on_player host (\<lambda>_. p') w2;
                    r = room_at (m_app w3) ref;
                    others = players_in (m_app w3) r;
                    w4 = send_player p' (Enter_Room_GSCL (map member_of others) (map avatar_of others)
                           (master_slot r) (listed_info r) enter_ok) w3;
                    w5 = send_room r (Room_Add_User_Avatar_GSCL (avatar_of p') (member_of p')) (pl_host p') w4
                in with_net (join_p2p_group (p2p_group r) (pl_host p')) w5)))"

text \<open>
  The search for a free room number, which wraps around. After \<open>2 ^ 16\<close> rounds every number has been
  tried and the loop of the source would never end.
\<close>

fun room_number_loop :: "nat \<Rightarrow> u16 \<Rightarrow> (u16, room_ref) omap \<Rightarrow> u16 option" where
  "room_number_loop 0 n rooms = None"
| "room_number_loop (Suc fuel) n rooms =
     (if map_of rooms n \<noteq> None \<or> n = 0 then room_number_loop fuel (n + 1) rooms else Some n)"

definition new_room_info :: "u16 \<Rightarrow> room_info \<Rightarrow> room_info" where
  "new_room_info number i = i
     \<lparr>ri_number := number, ri_has_password := (if ri_password i = [] then 0 else 1),
      ri_max_players := (if ri_max_players i = 0 \<or> unat (ri_max_players i) > room_slots
                         then of_nat room_slots else ri_max_players i)\<rparr>"

text \<open>More than \<open>2 ^ 30\<close> groups do not fit into memory.\<close>

definition open_room :: "player \<Rightarrow> room_info \<Rightarrow> game_world \<Rightarrow> game_world" where
  "open_room p i w =
     (case room_number_loop (2 ^ 16) (m_next_room_number (m_app w)) (m_rooms (m_app w)) of
        None \<Rightarrow> fault no_room_number w
      | Some number \<Rightarrow>
          if length (m_groups (m_net w)) \<ge> 2 ^ 30 then fault out_of_memory w
          else
            (let (grp, s) = create_p2p_group [] (m_net w);
                 r = \<lparr>r_info = new_room_info number i, r_channel = pl_channel p,
                      r_slots = (replicate room_slots 0)[0 := pl_host p], r_closed = replicate room_slots False,
                      master_slot = 0, p2p_group = grp, playing = False\<rparr>;
                 ref = length (room_store (m_app w));
                 w1 = with_app (\<lambda>a. a\<lparr>m_next_room_number := number + 1, m_rooms := omap_put number ref (m_rooms a),
                        room_store := room_store a @ [r]\<rparr>) (w\<lparr>m_net := s\<rparr>);
                 w2 = on_player (pl_host p) (\<lambda>p. p\<lparr>current_room := Some ref, pl_slot := 0, ready := False\<rparr>) w1;
                 w3 = with_net (join_p2p_group grp (pl_host p)) w2
             in send_player p (Create_Room_GSCL (listed_info r) 0 gscl_ok) w3))"

end
