(* ===== verification/Game_Handlers.thy ===== *)
theory Game_Handlers
  imports Game
begin

text \<open>
  The message handlers of \<^verbatim>\<open>src/src/game/game_server.cpp\<close> and their dispatch. A handler gets the player
  whose message it is, as it was when the message arrived, and the parameters; it throws when they
  are too short, and otherwise the message counts as handled.
\<close>

type_synonym handler = "player \<Rightarrow> message_reader \<Rightarrow> game_world \<Rightarrow> (exn + bool) \<times> game_world"

definition handled :: "game_world \<Rightarrow> (exn + bool) \<times> game_world" where
  "handled w = (Inr True, w)"

section \<open>Login\<close>

definition game_on_client_leave :: "host_id \<Rightarrow> game_world \<Rightarrow> game_world" where
  "game_on_client_leave client w =
     (case player_by_host (m_app w) client of
        None \<Rightarrow> w
      | Some p \<Rightarrow>
          with_app (\<lambda>a. a\<lparr>m_players := omap_del client (m_players a)\<rparr>) (remove_from_room client False w))"

text \<open>The part of the game server that a closing connection sees\<close>

definition game_leave_sink :: "(unit, game_app) event_sink" where
  "game_leave_sink =
     \<lparr>on_client_join = \<lambda>_ w. w, on_client_leave = game_on_client_leave, on_rmi = \<lambda>_ _ _ w. (Inr False, w)\<rparr>"

definition player_new :: "host_id \<Rightarrow> account \<Rightarrow> str \<Rightarrow> player" where
  "player_new host acc user =
     \<lparr>pl_host = host, pl_account = acc, nickname = user, pl_exp = 0, money = 100000, character = 0, comment = [],
      pl_nation = 1, pl_channel = no_channel, current_room = None, pl_slot = 0, ready = False, team = 0,
      avatar = avatar_info_default\<lparr>av_host := host\<rparr>\<rparr>"

definition player_logon_info :: "player \<Rightarrow> logon_info" where
  "player_logon_info p = logon_info_default
     \<lparr>li_user_index := acc_index (pl_account p), li_nickname := nickname p, li_exp := pl_exp p, li_money := money p,
      li_host := pl_host p, li_need_select_character := 0\<rparr>"

text \<open>The older connection of an account: the first one in the map whose client is still there\<close>

definition other_login :: "str \<Rightarrow> host_id \<Rightarrow> game_world \<Rightarrow> host_id option" where
  "other_login user client w = map_option fst
     (List.find (\<lambda>(host, p). acc_username (pl_account p) = user \<and> host \<noteq> client \<and> find_peer (m_net w) host \<noteq> None)
       (m_players (m_app w)))"

definition game_logon :: "host_id \<Rightarrow> str \<Rightarrow> str \<Rightarrow> game_world \<Rightarrow> game_world" where
  "game_logon client user password w =
     (let (result, accounts) = login user password (gs_accounts (m_app w));
          w1 = with_app (\<lambda>a. a\<lparr>gs_accounts := accounts\<rparr>) w
      in case find_account accounts user of
           None \<Rightarrow> client_send client (Logon_GSCL client logon_info_default 1 0 0 0 0 []) w1
         | Some acc \<Rightarrow>
             if result \<noteq> login_ok then client_send client (Logon_GSCL client logon_info_default 1 0 0 0 0 []) w1
             else
               (let w2 = (case other_login user client w1 of
                            None \<Rightarrow> w1
                          | Some host \<Rightarrow>
                              peer_close game_leave_sink host (client_send host (Forced_Close_GSCL 2) w1));
                    p = player_new client acc user;
                    w3 = with_app (\<lambda>a. a\<lparr>m_players := omap_put client p (m_players a)\<rparr>) w2;
                    w4 = client_send client (Logon_GSCL client (player_logon_info p) gscl_ok 0 0 0 0 []) w3;
                    w5 = client_send client (Add_Items_GSCL []) w4;
                    w6 = client_send client (Add_Avatars_GSCL [avatar_of p]) w5
                in client_send client (Add_Gifts_GSCL []) w6))"

definition logout :: handler where
  "logout p r w = handled (send_player p LogOut_OK_GSCL (remove_from_room (pl_host p) False w))"

section \<open>Lobby and channels\<close>

definition set_channel :: "player \<Rightarrow> u8 \<Rightarrow> game_world \<Rightarrow> game_world" where
  "set_channel p channel = on_player (pl_host p) (\<lambda>p. p\<lparr>pl_channel := channel\<rparr>)"

definition enter_lobby :: handler where
  "enter_lobby p r w = handled (send_player p (Enter_Lobby_GSCL gscl_ok)
     (set_channel p no_channel (remove_from_room (pl_host p) False w)))"

definition channel_entry :: "game_app \<Rightarrow> nat \<Rightarrow> channel_info" where
  "channel_entry a i = channel_info_default
     \<lparr>ci_index := of_nat i,
      ci_users := of_nat (length (filter (\<lambda>p. pl_channel p = of_nat i) (map snd (m_players a)))),
      ci_capacity := channel_capacity\<rparr>"

definition channel_list :: handler where
  "channel_list p r w = handled (send_player p
     (Channel_List_GSCL (map (channel_entry (m_app w)) [0..<channel_count])) w)"

definition room_page :: "game_app \<Rightarrow> u8 \<Rightarrow> nat \<Rightarrow> room_info list" where
  "room_page a channel page =
     map (\<lambda>ref. listed_info (room_at a ref)) (take rooms_per_page (drop (page * rooms_per_page) (rooms_in a channel)))"

definition enter_channel :: handler where
  "enter_channel p r w = reading read_u8 r w (\<lambda>channel w.
     if unat channel \<ge> channel_count then send_player p (Enter_Channel_GSCL channel 1) w
     else
       (let w1 = send_player p (Enter_Channel_GSCL channel gscl_ok) (set_channel p channel w)
        in send_player p (Lobby_Add_Rooms_GSCL (room_page (m_app w1) channel 0) 0) w1))"

definition leave_channel :: handler where
  "leave_channel p r w = handled (send_player p (Leave_Channel_GSCL gscl_ok)
     (set_channel p no_channel (remove_from_room (pl_host p) False w)))"

definition change_channel :: handler where
  "change_channel p r w = reading read_u8 r w (\<lambda>channel w.
     if unat channel \<ge> channel_count then send_player p (Change_Channel_GSCL channel 1) w
     else
       (let w1 = send_player p (Change_Channel_GSCL channel gscl_ok)
                   (set_channel p channel (remove_from_room (pl_host p) False w))
        in send_player p (Lobby_Add_Rooms_GSCL (room_page (m_app w1) channel 0) 0) w1))"

definition channel_total_room_number :: handler where
  "channel_total_room_number p r w =
     (let count = (if pl_channel p = no_channel then 0 else length (rooms_in (m_app w) (pl_channel p)))
      in handled (send_player p (Channel_RoomNumber_Answer_GSCL (of_nat count) gscl_ok) w))"

definition channel_user_of :: "player \<Rightarrow> channel_user" where
  "channel_user_of p = channel_user_default\<lparr>cu_nickname := nickname p, cu_host := pl_host p, cu_str_1c := comment p\<rparr>"

definition channel_user_list :: handler where
  "channel_user_list p r w =
     (let users = filter (\<lambda>other. pl_channel other = pl_channel p) (map snd (m_players (m_app w)))
      in handled (send_player p (Channel_UserList_Answer_GSCL (pl_host p) (map channel_user_of users) gscl_ok 0) w))"

definition room_list :: handler where
  "room_list p r w = reading (read_pair read_u16 read_u16) r w (\<lambda>(page, _) w.
     if pl_channel p = no_channel then w
     else send_player p (Lobby_Add_Rooms_GSCL (room_page (m_app w) (pl_channel p) (unat page)) 0) w)"

definition slot_user_of :: "player \<Rightarrow> room_slot_user" where
  "slot_user_of p = room_slot_user_default
     \<lparr>rs_str_04 := nickname p, rs_str_08 := comment p, rs_u32_0c := acc_index (pl_account p), rs_u32_10 := pl_exp p,
      rs_u8_18 := ucast (pl_slot p)\<rparr>"

definition room_request_member :: handler where
  "room_request_member p r w = reading (read_pair read_u16 read_u16) r w (\<lambda>(number, extra) w.
     case find_room (m_app w) (pl_channel p) number of
       None \<Rightarrow> send_player p (Room_Member_Answer_GSCL number 1 0 [] []) w
     | Some ref \<Rightarrow>
         (let rm = room_at (m_app w) ref; others = players_in (m_app w) rm
          in send_player p (Room_Member_Answer_GSCL number extra (r_slots rm ! unat (master_slot rm))
               (map member_of others) (map slot_user_of others)) w))"

definition lobby_chat :: handler where
  "lobby_chat p r w = reading read_string r w (\<lambda>body.
     send_channel_lobby (pl_channel p) (Lobby_Chat_GSCL (pl_host p) body))"

definition cry :: handler where
  "cry p r w = reading read_string r w (\<lambda>body w.
     fold (\<lambda>(_, other). send_player other (Cry_GSCL (nickname p @ ascii '' : '' @ body))) (m_players (m_app w)) w)"

section \<open>Rooms\<close>

definition create_room :: handler where
  "create_room p r w = reading room_info_read r w (\<lambda>i w.
     if pl_channel p = no_channel then send_player p (Create_Room_GSCL i 0 1) w
     else open_room p i (remove_from_room (pl_host p) False w))"

definition enter_refused :: "player \<Rightarrow> u16 \<Rightarrow> game_world \<Rightarrow> game_world" where
  "enter_refused p code = send_player p (Enter_Room_GSCL [] [] 0 room_info_default code)"

definition enter_room :: handler where
  "enter_room p r w = reading (read_pair read_u16 read_string) r w (\<lambda>(number, password) w.
     case find_room (m_app w) (pl_channel p) number of
       None \<Rightarrow> enter_refused p enter_failed w
     | Some ref \<Rightarrow>
         (let rm = room_at (m_app w) ref in
          if playing rm then enter_refused p enter_playing w
          else if ri_password (r_info rm) \<noteq> [] \<and> ri_password (r_info rm) \<noteq> password
          then enter_refused p enter_wrong_password w
          else if free_slot rm = None then enter_refused p enter_full w
          else join_room (pl_host p) ref w))"

definition quick_join :: handler where
  "quick_join p r w = reading read_u16 r w (\<lambda>_ w.
     case List.find (\<lambda>ref. let rm = room_at (m_app w) ref in
            \<not> playing rm \<and> ri_password (r_info rm) = [] \<and> free_slot rm \<noteq> None) (rooms_in (m_app w) (pl_channel p)) of
       None \<Rightarrow> enter_refused p enter_failed w
     | Some ref \<Rightarrow> join_room (pl_host p) ref w)"

definition leave_room :: handler where
  "leave_room p r w = handled
     (if current_room p = None then send_player p (Leave_Room_GSCL 1) w
      else send_player p (Leave_Room_GSCL gscl_ok) (remove_from_room (pl_host p) False w))"

text \<open>What a player in a room does with it\<close>

definition in_room :: "player \<Rightarrow> (room_ref \<Rightarrow> game_world \<Rightarrow> game_world) \<Rightarrow> game_world \<Rightarrow> game_world" where
  "in_room p act w = (case current_room p of None \<Rightarrow> w | Some ref \<Rightarrow> act ref w)"

definition as_master :: "player \<Rightarrow> (room_ref \<Rightarrow> game_world \<Rightarrow> game_world) \<Rightarrow> game_world \<Rightarrow> game_world" where
  "as_master p act w = (if is_master (m_app w) p then in_room p act w else w)"

definition send_ref :: "room_ref \<Rightarrow> message_writer \<Rightarrow> game_world \<Rightarrow> game_world" where
  "send_ref ref m w = send_room (room_at (m_app w) ref) m 0 w"

definition room_chat :: handler where
  "room_chat p r w = reading read_string r w (\<lambda>body. in_room p (\<lambda>ref. send_ref ref (Room_Chat_GSCL (pl_host p) body)))"

definition team_chat :: handler where
  "team_chat p r w = reading read_string r w (\<lambda>body. in_room p (\<lambda>ref w.
     fold (\<lambda>other w. if team other = team p then send_player other (Room_Chat_GSCL (pl_host p) body) w else w)
       (players_in (m_app w) (room_at (m_app w) ref)) w))"

definition whisper_chat :: handler where
  "whisper_chat p r w = reading (read_pair read_string read_string) r w (\<lambda>(target, body) w.
     fold (\<lambda>(_, other) w. if nickname other = target
              then send_player other (Room_Chat_GSCL (pl_host p) (ascii ''['' @ nickname p @ ascii ''] '' @ body)) w
              else w)
       (m_players (m_app w)) w)"

definition change_info :: "(room_info \<Rightarrow> room_info) \<Rightarrow> room_ref \<Rightarrow> game_world \<Rightarrow> game_world" where
  "change_info f ref = on_room ref (\<lambda>r. r\<lparr>r_info := f (r_info r)\<rparr>)"

definition change_map :: handler where
  "change_map p r w = reading read_u8 r w (\<lambda>map_code. as_master p (\<lambda>ref w.
     send_ref ref (Change_Map_GSCL map_code) (change_info (\<lambda>i. i\<lparr>ri_map := map_code\<rparr>) ref w)))"

definition change_type :: handler where
  "change_type p r w = reading read_u8 r w (\<lambda>type. as_master p (\<lambda>ref w.
     (let w1 = change_info (\<lambda>i. i\<lparr>ri_mode := type\<rparr>) ref w
      in send_ref ref (Change_Type_GSCL type
           (map member_of (players_in (m_app w1) (room_at (m_app w1) ref)))) w1)))"

definition change_lap :: handler where
  "change_lap p r w = reading read_u8 r w (\<lambda>laps. as_master p (\<lambda>ref w.
     send_ref ref (Change_Lap_GSCL laps) (change_info (\<lambda>i. i\<lparr>ri_max_lap := laps\<rparr>) ref w)))"

definition change_attribute :: handler where
  "change_attribute p r w = reading read_u8 r w (\<lambda>attribute. as_master p (\<lambda>ref w.
     send_ref ref (Change_Attribute_GSCL attribute) (change_info (\<lambda>i. i\<lparr>ri_u8_0e := attribute\<rparr>) ref w)))"

definition change_random_map :: handler where
  "change_random_map p r w = reading read_u8 r w (\<lambda>v. as_master p (\<lambda>ref. send_ref ref (Change_RandomMap_GSCL (v \<noteq> 0))))"

definition change_team :: handler where
  "change_team p r w = reading read_u8 r w (\<lambda>t. in_room p (\<lambda>ref w.
     send_ref ref (Change_Team_GSCL (pl_slot p) t) (on_player (pl_host p) (\<lambda>p. p\<lparr>team := t\<rparr>) w)))"

definition kick :: handler where
  "kick p r w = reading read_u32 r w (\<lambda>slot. as_master p (\<lambda>ref w.
     if unat slot \<ge> room_slots \<or> slot = pl_slot p then w
     else
       (let host = r_slots (room_at (m_app w) ref) ! unat slot in
        case player_by_host (m_app w) host of None \<Rightarrow> w | Some _ \<Rightarrow> remove_from_room host True w)))"

definition close_slot :: handler where
  "close_slot p r w = reading read_u32 r w (\<lambda>slot. as_master p (\<lambda>ref w.
     if unat slot \<ge> room_slots \<or> r_slots (room_at (m_app w) ref) ! unat slot \<noteq> 0 then w
     else send_ref ref (CloseSlot_Room_GSCL slot)
            (on_room ref (\<lambda>r. r\<lparr>r_closed := (r_closed r)[unat slot := True]\<rparr>) w)))"

definition open_slot :: handler where
  "open_slot p r w = reading read_u32 r w (\<lambda>slot. as_master p (\<lambda>ref w.
     if unat slot \<ge> room_slots then w
     else send_ref ref (OpenSlot_Room_GSCL slot)
            (on_room ref (\<lambda>r. r\<lparr>r_closed := (r_closed r)[unat slot := False]\<rparr>) w)))"

definition mission :: handler where
  "mission p r w = reading read_u8 r w (\<lambda>v. send_player p (Mission_Answer_GSCL v))"

definition ready_game :: handler where
  "ready_game p r w = reading read_u8 r w (\<lambda>v. in_room p (\<lambda>ref w.
     send_ref ref (Ready_Game_GSCL (pl_host p) (pl_slot p) (v \<noteq> 0))
       (on_player (pl_host p) (\<lambda>p. p\<lparr>ready := (v \<noteq> 0)\<rparr>) w)))"

definition start_game :: handler where
  "start_game p r w = reading read_u16 r w (\<lambda>_. as_master p (\<lambda>ref w.
     (let w1 = on_room ref (\<lambda>r. r\<lparr>playing := True, r_info := (r_info r)\<lparr>ri_state := room_state_playing\<rparr>\<rparr>) w;
          i = r_info (room_at (m_app w1) ref)
      in send_ref ref (Start_Game_GSCL start_game_info_default (ucast (ri_mode i)) (ucast (ri_max_lap i)) gscl_ok) w1)))"

definition game_ready :: handler where
  "game_ready p r w = handled w"

definition room_connect_ok :: handler where
  "room_connect_ok p r w = reading read_u8 r w (\<lambda>_ w. w)"

definition save_score :: handler where
  "save_score p r w = reading (read_many 8 read_u32) r w (\<lambda>_ w. w)"

definition goto_wait_room :: handler where
  "goto_wait_room p r w = reading read_u8 r w (\<lambda>_ w.
     in_room p (\<lambda>ref. on_room ref (\<lambda>r. r\<lparr>playing := False, r_info := (r_info r)\<lparr>ri_state := room_state_waiting\<rparr>\<rparr>))
       (on_player (pl_host p) (\<lambda>p. p\<lparr>ready := False\<rparr>) w))"

definition change_comment :: handler where
  "change_comment p r w = reading read_string r w (\<lambda>body w.
     in_room p (\<lambda>ref. send_ref ref (Room_Change_Comment_GSCL body (pl_slot p)))
       (on_player (pl_host p) (\<lambda>p. p\<lparr>comment := body\<rparr>) w))"

text \<open>The loops over the slots read the array again in every round; removing a player changes it.\<close>

definition gm_close_step :: "player \<Rightarrow> room_ref \<Rightarrow> nat \<Rightarrow> game_world \<Rightarrow> game_world" where
  "gm_close_step p ref i w =
     (let host = r_slots (room_at (m_app w) ref) ! i in
      case player_by_host (m_app w) host of
        None \<Rightarrow> w
      | Some _ \<Rightarrow> if host \<noteq> pl_host p then remove_from_room host True w else w)"

definition gm_close_room :: handler where
  "gm_close_room p r w = handled (in_room p (\<lambda>ref. fold (gm_close_step p ref) [0..<room_slots]) w)"

text \<open>
  \<open>gm_kick\<close> holds no reference to the room of its own. When the player kicks itself and is the last one,
  the room is destroyed under the loop.
\<close>

fun gm_kick_loop :: "room_ref \<Rightarrow> str \<Rightarrow> nat list \<Rightarrow> game_world \<Rightarrow> game_world" where
  "gm_kick_loop ref nick [] w = w"
| "gm_kick_loop ref nick (i # slots) w =
     (let host = r_slots (room_at (m_app w) ref) ! i in
      case player_by_host (m_app w) host of
        None \<Rightarrow> gm_kick_loop ref nick slots w
      | Some other \<Rightarrow>
          if nickname other = nick
          then (let w1 = remove_from_room host True w in
                if slots \<noteq> [] \<and> \<not> room_live ref (m_app w1) then fault use_after_free w1
                else gm_kick_loop ref nick slots w1)
          else gm_kick_loop ref nick slots w)"

definition gm_kick :: handler where
  "gm_kick p r w = reading read_string r w (\<lambda>nick. in_room p (\<lambda>ref. gm_kick_loop ref nick [0..<room_slots]))"

section \<open>Character, items and the rest\<close>

definition select_character :: handler where
  "select_character p r w = reading read_u32 r w (\<lambda>v w.
     send_player p (Select_Character_GSCL v (nickname p) [] gscl_ok) (on_player (pl_host p) (\<lambda>p. p\<lparr>character := v\<rparr>) w))"

definition update_avatar :: handler where
  "update_avatar p r w = reading avatar_info_read r w (\<lambda>a w.
     (let a' = a\<lparr>av_host := pl_host p\<rparr>
      in in_room p (\<lambda>ref. send_ref ref (Room_UpDataAvatar_GSCL a' (pl_slot p)))
           (on_player (pl_host p) (\<lambda>p. p\<lparr>avatar := a'\<rparr>) w)))"

definition select_avatar :: handler where
  "select_avatar p r w = (case read_u8 r of Inl e \<Rightarrow> (Inl e, w) | Inr (_, r') \<Rightarrow> update_avatar p r' w)"

definition delete_item :: handler where
  "delete_item p r w = reading read_u32 r w (\<lambda>item. send_player p (Delete_Item_Answer_GSCL item gscl_ok))"

definition buy_item :: handler where
  "buy_item p r w = reading (read_many 4 read_u32) r w (\<lambda>_ w. w)"

definition ranking :: handler where
  "ranking p r w = reading read_u32 r w (\<lambda>_. send_player p (RankingAnswer_GSCL []))"

definition rank_info_request :: handler where
  "rank_info_request p r w = handled (send_player p (RankInfo_Answer_GSCL [] [] 0 0 0) w)"

definition enter_nation :: handler where
  "enter_nation p r w = reading read_u8 r w (\<lambda>v w.
     send_player p (Enter_Nation_GSCL v gscl_ok) (on_player (pl_host p) (\<lambda>p. p\<lparr>pl_nation := v\<rparr>) w))"

definition new_cash :: handler where
  "new_cash p r w = handled (send_player p (User_New_Infor_Answer_GSCL (money p)) w)"

definition check_error :: handler where
  "check_error p r w = reading read_string r w (\<lambda>_ w. w)"

definition ignore :: handler where
  "ignore p r w = handled w"

section \<open>Dispatch\<close>

definition m_handlers :: "(u16 \<times> handler) list" where
  "m_handlers =
    [(Logout_Notify_CLGS, logout), (Room_List_CLGS, room_list), (Room_Request_Room_Member_CLGS, room_request_member),
     (Create_Room_CLGS, create_room), (Enter_Room_CLGS, enter_room), (Room_Chat_CLGS, room_chat),
     (Team_Chat_CLGS, team_chat), (Wisper_Chat_CLGS, whisper_chat), (Leave_Room_CLGS, leave_room),
     (Change_Map_CLGS, change_map), (Change_Type_CLGS, change_type), (Kicked_Room_CLGS, kick),
     (CloseSlot_Room_CLGS, close_slot), (OpenSlot_Room_CLGS, open_slot), (Change_Team_CLGS, change_team),
     (Change_Lap_CLGS, change_lap), (Change_Attribute_CLGS, change_attribute), (Change_RandomMap_CLGS, change_random_map),
     (Mission_Request_CLGS, mission), (Start_Game_CLGS, start_game), (Ready_Game_CLGS, ready_game),
     (Room_Save_Score_CLGS, save_score), (GotoWaitRoom_Notify_CLGS, goto_wait_room), (Room_QuickJoin_CLGS, quick_join),
     (Room_ConnectOk_CLGS, room_connect_ok), (GameReady_Notify_CLGS, game_ready),
     (Select_Character_Request_CLGS, select_character), (Select_Avatar_CLGS, select_avatar),
     (Update_Avatar_CLGS, update_avatar), (Delete_Item_Request_CLGS, delete_item), (BuyItem_Request_CLGS, buy_item),
     (Channel_List_CLGS, channel_list), (Channel_UserList_Request_CLGS, channel_user_list),
     (Enter_Channel_CLGS, enter_channel), (Leave_Channel_CLGS, leave_channel), (Change_Channel_CLGS, change_channel),
     (Channel_Total_RoomNumber_CLGS, channel_total_room_number), (Check_Error_Notify_CLGS, check_error),
     (Enter_Lobby_CLGS, enter_lobby), (Lobby_Chat_CLGS, lobby_chat), (Change_Comment_CLGS, change_comment),
     (Cry_CLGS, cry), (Ranking_Request_CLGS, ranking), (Enter_Nation_CLGS, enter_nation),
     (RankInfo_Request_CLGS, rank_info_request), (GetUserNewCash_CLGS, new_cash), (BlastingRoom_GM_CLGS, gm_close_room),
     (UserKickRoom_GM_CLGS, gm_kick), (CL2GS_Test_CLGS, ignore), (Guid_Request_CLGS, ignore),
     (Check_Period_Answer_CLGS, ignore), (Update_Gs_UserClanInfo_CLGS, ignore), (Room_Index_Answer_CLGS, ignore),
     (DuraCheck_Item_Request_CLGS, ignore), (Update_ASDKEY_CLGS, ignore), (Insert_Item_Request_CLGS, ignore),
     (Gift_Item_Request_CLGS, ignore), (Answer_Gift_CLGS, ignore), (Create_Avatar_CLGS, ignore),
     (Change_Nation_CLGS, ignore)]"

definition read_logon :: "(str \<times> str) read" where
  "read_logon = rbind read_string (\<lambda>user. rbind read_string (\<lambda>password. rbind read_u32 (\<lambda>_. rreturn (user, password))))"

definition game_on_rmi :: "host_id \<Rightarrow> u16 \<Rightarrow> message_reader \<Rightarrow> game_world \<Rightarrow> (exn + bool) \<times> game_world" where
  "game_on_rmi client rmi_id r w =
     (if rmi_id = Logon_CLGS then reading read_logon r w (\<lambda>(user, password). game_logon client user password)
      else if rmi_id = CL2GS_Test_CLGS then handled w
      else
        (case map_of m_handlers rmi_id of
           None \<Rightarrow> (Inr False, w)
         | Some f \<Rightarrow>
             (case player_by_host (m_app w) client of
                None \<Rightarrow> handled w
              | Some p \<Rightarrow> f p r w)))"

definition game_sink :: "(unit, game_app) event_sink" where
  "game_sink =
     \<lparr>on_client_join = \<lambda>_ w. w, on_client_leave = game_on_client_leave, on_rmi = game_on_rmi\<rparr>"

end
