(* ===== verification/Game_Net.thy ===== *)
theory Game_Net
  imports Game_Handlers Proudnet_App Proudnet_Handshake
begin

text \<open>
  Every handler of the game server uses the network through its operations only, which is what the
  ProudNet layer relies on.
\<close>

section \<open>What the pieces leave alone\<close>

lemma send_player_simps [simp]:
  "m_net (send_player p m w) = server_send (pl_host p) m False (m_net w)" "m_app (send_player p m w) = m_app w"
  by (simp_all add: send_player_def)

lemma m_app_send_room [simp]: "m_app (send_room r m x w) = m_app w"
  unfolding send_room_def by (rule fold_world_inv [of "\<lambda>w'. m_app w' = m_app w"]) auto

lemma m_app_send_ref [simp]: "m_app (send_ref ref m w) = m_app w"
  by (simp add: send_ref_def)

lemma m_app_send_channel_lobby [simp]: "m_app (send_channel_lobby c m w) = m_app w"
  unfolding send_channel_lobby_def by (rule fold_world_inv [of "\<lambda>w'. m_app w' = m_app w"]) auto

lemma fault_simps [simp]:
  "m_net (fault f w) = m_net w" "m_players (m_app (fault f w)) = m_players (m_app w)"
  "m_rooms (m_app (fault f w)) = m_rooms (m_app w)" "room_store (m_app (fault f w)) = room_store (m_app w)"
  by (simp_all add: fault_def)

lemma on_player_room_net [simp]: "m_net (on_player h f w) = m_net w" "m_net (on_room ref g w) = m_net w"
  by (simp_all add: on_player_def on_room_def)

lemma m_app_on_player:
  "m_app (on_player h f w) = (case map_of (m_players (m_app w)) h of
     None \<Rightarrow> m_app w | Some p \<Rightarrow> (m_app w)\<lparr>m_players := omap_put h (f p) (m_players (m_app w))\<rparr>)"
  by (simp add: on_player_def split: option.split)

lemma m_app_on_room:
  "m_app (on_room ref f w) = (m_app w)\<lparr>room_store := (room_store (m_app w))[ref := f (room_at (m_app w) ref)]\<rparr>"
  by (simp add: on_room_def)

section \<open>Network use\<close>

text \<open>\<open>talking f\<close>: the state change \<open>f\<close> reaches the network through its operations only.\<close>

definition talking :: "(game_world \<Rightarrow> game_world) \<Rightarrow> bool" where
  "talking f \<longleftrightarrow> (\<forall>w. talk\<^sup>*\<^sup>* (m_net w) (m_net (f w)))"

lemma talkingD: "talking f \<Longrightarrow> talk\<^sup>*\<^sup>* (m_net w) (m_net (f w))"
  by (simp add: talking_def)

lemma talking_comp: "talking f \<Longrightarrow> talking g \<Longrightarrow> talking (\<lambda>w. f (g w))"
  unfolding talking_def by (meson rtranclp_trans)

lemma talks_then: "talk\<^sup>*\<^sup>* s (m_net w) \<Longrightarrow> talking f \<Longrightarrow> talk\<^sup>*\<^sup>* s (m_net (f w))"
  unfolding talking_def by (meson rtranclp_trans)

lemma talking_fold: "(\<And>x. talking (f x)) \<Longrightarrow> talking (fold f xs)"
  by (induction xs) (auto simp: talking_def intro: rtranclp_trans)

lemma talking_basic [intro]:
  "talking (\<lambda>w. w)" "talking (send_player p m)" "talking (net_send h m)"
  "talking (on_player h f)" "talking (on_room ref g)" "talking (fault x)" "talking (set_channel p c)"
  "talking (with_net (leave_p2p_group grp h))" "talking (with_net (join_p2p_group grp h))"
  "talking (with_net (destroy_p2p_group grp))" "talking (with_app k)" "talking (change_info i ref)"
  by (auto simp: talking_def talks_server_send set_channel_def change_info_def intro: talk.intros)

lemma talking_send_room [intro]: "talking (send_room r m x)" "talking (send_ref ref m)" "talking (send_channel_lobby c m)"
proof -
  show s: "talking (send_room r m x)" for r m x
    unfolding send_room_def [abs_def] by (rule talking_fold) (auto simp: talking_def talks_server_send)
  show "talking (send_ref ref m)"
    using s unfolding talking_def send_ref_def by blast
  have "talking (fold (\<lambda>(host, p) w. if pl_channel p = c \<and> current_room p = None then net_send host m w else w) ps)" for ps
    by (rule talking_fold) (auto simp: talking_def talks_server_send)
  then show "talking (send_channel_lobby c m)"
    unfolding talking_def send_channel_lobby_def by blast
qed

lemmas talk_intros = talking_basic(2-) [THEN talks_then [rotated]] talking_send_room [THEN talks_then [rotated]]

lemma talking_remove [intro]: "talking (remove_from_room h k)"
  unfolding talking_def remove_from_room_def Let_def
  by (intro allI)
    (auto split: option.split intro!: talk_intros simp del: with_net_simps with_app_simps send_player_simps on_player_room_net)

lemmas talk_remove = talking_remove [THEN talks_then [rotated]]

lemma talking_join [intro]: "talking (join_room h ref)"
  unfolding talking_def join_room_def Let_def
  by (intro allI)
    (auto split: option.split intro!: talk_intros talk_remove
      simp del: with_net_simps with_app_simps send_player_simps on_player_room_net fault_simps)

lemma talking_open_room [intro]: "talking (open_room p i)"
  unfolding talking_def
proof
  fix w :: game_world
  obtain grp s where c: "create_p2p_group [] (m_net w) = (grp, s)" by force
  then have "talk\<^sup>*\<^sup>* (m_net w) s" if "length (m_groups (m_net w)) < 2 ^ 30" using that by (blast intro: talk_create)
  then show "talk\<^sup>*\<^sup>* (m_net w) (m_net (open_room p i w))"
    unfolding open_room_def Let_def c prod.case
    by (auto split: option.split intro!: talk_intros
      simp del: with_net_simps with_app_simps send_player_simps on_player_room_net fault_simps)
qed

lemma talking_gm_kick [intro]: "talking (gm_kick_loop ref nick slots)"
proof -
  have "talk\<^sup>*\<^sup>* s (m_net w) \<Longrightarrow> talk\<^sup>*\<^sup>* s (m_net (gm_kick_loop ref nick slots w))" for s w
    by (induction ref nick slots w rule: gm_kick_loop.induct)
      (auto simp: Let_def split: option.split intro!: talk_remove)
  then show ?thesis by (simp add: talking_def)
qed

lemma talking_gm_close [intro]: "talking (fold (gm_close_step p ref) slots)"
  by (rule talking_fold)
    (auto simp: talking_def gm_close_step_def Let_def split: option.split intro!: talk_remove)

lemma talking_in_room: "(\<And>ref. talking (act ref)) \<Longrightarrow> talking (in_room p act)" "(\<And>ref. talking (act ref)) \<Longrightarrow> talking (as_master p act)"
  by (auto simp: talking_def in_room_def as_master_def split: option.split)

text \<open>\<open>h\<close> is a handler that uses the network through its operations.\<close>

definition talking_handler :: "handler \<Rightarrow> bool" where
  "talking_handler f \<longleftrightarrow> (\<forall>p r w. talk\<^sup>*\<^sup>* (m_net w) (m_net (snd (f p r w))))"

lemma talking_handled: "(\<And>p. talking (f p)) \<Longrightarrow> talking_handler (\<lambda>p r w. handled (f p w))"
  by (simp add: talking_handler_def talking_def handled_def)

lemma talking_reading: "(\<And>p v. talking (f p v)) \<Longrightarrow> talking_handler (\<lambda>p r w. reading dec r w (f p))"
  by (simp add: talking_handler_def talking_def reading_talks)

lemma talking_page: "talking (\<lambda>w. send_player p (f (m_app w)) w)"
  by (simp add: talking_def talks_server_send)

lemma talking_if [intro]: "talking (\<lambda>w. if b then send_player p m w else w)"
  by (simp add: talking_def talks_server_send)

lemma talking_players: "(\<And>x. talking (f x)) \<Longrightarrow> talking (\<lambda>w. fold f (g w) w)"
  using talking_fold [of f] by (simp add: talking_def)

lemmas talk_all = talk_intros talk_remove talks_then [OF _ talking_open_room] talks_then [OF _ talking_join]
  talks_then [OF _ talking_gm_kick] talks_then [OF _ talking_gm_close] talks_then [OF _ talking_players]

lemmas handler_simps = talking_handler_def handled_def reading_def in_room_def as_master_def enter_refused_def Let_def split_def

lemma handlers_talk_1:
  "talking_handler logout"
  "talking_handler room_list"
  "talking_handler room_request_member"
  "talking_handler create_room"
  "talking_handler enter_room"
  "talking_handler room_chat"
  "talking_handler quick_join"
  "talking_handler leave_room"
  by (auto simp: handler_simps
      logout_def room_list_def room_request_member_def create_room_def enter_room_def room_chat_def
      quick_join_def leave_room_def
      split: sum.split option.split intro!: talk_all
      simp del: with_net_simps with_app_simps send_player_simps on_player_room_net fault_simps)

lemma handlers_talk_2:
  "talking_handler enter_lobby"
  "talking_handler channel_list"
  "talking_handler enter_channel"
  "talking_handler leave_channel"
  "talking_handler change_channel"
  "talking_handler channel_total_room_number"
  "talking_handler channel_user_list"
  "talking_handler lobby_chat"
  by (auto simp: handler_simps
      enter_lobby_def channel_list_def enter_channel_def leave_channel_def change_channel_def
      channel_total_room_number_def channel_user_list_def lobby_chat_def
      split: sum.split option.split intro!: talk_all
      simp del: with_net_simps with_app_simps send_player_simps on_player_room_net fault_simps)

lemma handlers_talk_3:
  "talking_handler team_chat"
  "talking_handler whisper_chat"
  "talking_handler cry"
  "talking_handler change_map"
  "talking_handler change_type"
  "talking_handler change_lap"
  "talking_handler change_attribute"
  "talking_handler change_random_map"
  by (auto simp: handler_simps
      team_chat_def whisper_chat_def cry_def change_map_def change_type_def change_lap_def
      change_attribute_def change_random_map_def
      split: sum.split option.split intro!: talk_all
      simp del: with_net_simps with_app_simps send_player_simps on_player_room_net fault_simps)

lemma handlers_talk_4:
  "talking_handler change_team"
  "talking_handler kick"
  "talking_handler close_slot"
  "talking_handler open_slot"
  "talking_handler mission"
  "talking_handler ready_game"
  "talking_handler start_game"
  "talking_handler game_ready"
  by (auto simp: handler_simps
      change_team_def kick_def close_slot_def open_slot_def mission_def ready_game_def
      start_game_def game_ready_def
      split: sum.split option.split intro!: talk_all
      simp del: with_net_simps with_app_simps send_player_simps on_player_room_net fault_simps)

lemma handlers_talk_5:
  "talking_handler room_connect_ok"
  "talking_handler save_score"
  "talking_handler goto_wait_room"
  "talking_handler change_comment"
  "talking_handler gm_close_room"
  "talking_handler gm_kick"
  "talking_handler select_character"
  "talking_handler update_avatar"
  "talking_handler select_avatar"
  by (auto simp: handler_simps
      room_connect_ok_def save_score_def goto_wait_room_def change_comment_def gm_close_room_def
      gm_kick_def select_character_def update_avatar_def select_avatar_def
      split: sum.split option.split intro!: talk_all
      simp del: with_net_simps with_app_simps send_player_simps on_player_room_net fault_simps)

lemma handlers_talk_6:
  "talking_handler delete_item"
  "talking_handler buy_item"
  "talking_handler ranking"
  "talking_handler rank_info_request"
  "talking_handler enter_nation"
  "talking_handler new_cash"
  "talking_handler check_error"
  "talking_handler ignore"
  by (auto simp: handler_simps
      delete_item_def buy_item_def ranking_def rank_info_request_def enter_nation_def new_cash_def
      check_error_def ignore_def
      split: sum.split option.split intro!: talk_all
      simp del: with_net_simps with_app_simps send_player_simps on_player_room_net fault_simps)

lemmas handlers_talk_all = handlers_talk_1 handlers_talk_2 handlers_talk_3 handlers_talk_4 handlers_talk_5 handlers_talk_6

lemma handlers_talk: "map_of m_handlers i = Some f \<Longrightarrow> talking_handler f"
  by (drule map_of_SomeD) (auto simp: m_handlers_def handlers_talk_all)

lemma game_leave_talks: "talk\<^sup>*\<^sup>* (m_net w) (m_net (game_on_client_leave h w))"
  by (auto simp: game_on_client_leave_def split: option.split intro!: talk_remove)

lemma game_logon_steps: "api_steps (m_net w) (m_net (game_logon client user password w))"
proof -
  have close: "api_steps s (m_net (peer_close game_leave_sink h w))" if "api_steps s (m_net w)" for s h and w :: game_world
    using that
    by (rule api_steps_trans [rotated]) (rule close_api_steps, simp add: game_leave_sink_def game_leave_talks)
  have "api_steps (m_net w) (m_net (peer_close game_leave_sink h (client_send h m (with_app f w))))" for h m f
    by (rule close) (simp add: api_steps_send api_refl)
  then show ?thesis
    by (auto simp: game_logon_def Let_def api_refl intro!: api_steps_send split: prod.split option.split)
qed

lemma game_on_rmi_steps: "api_steps (m_net w) (m_net (snd (game_on_rmi client i r w)))"
proof -
  have "api_steps (m_net w) (m_net (snd (f p r w)))" if "map_of m_handlers i = Some f" for f p
    using handlers_talk [OF that] by (simp add: talking_handler_def talks_api_steps)
  then show ?thesis
    using game_logon_steps
    by (auto simp: game_on_rmi_def reading_def handled_def api_refl split: option.split sum.split prod.split)
qed

interpretation game_join: silent_join game_sink
  by unfold_locales (simp add: game_sink_def)

end
