(* ===== verification/Game_Inv.thy ===== *)
theory Game_Inv
  imports Game_Net
begin

text \<open>
  The invariant of the game server: every player sits in the slot of the room it refers to, rooms have
  eight slots, and every room in the list is inhabited and has a master. Every handler keeps it.
\<close>

section \<open>The invariant\<close>

definition room_ok :: "room \<Rightarrow> bool" where
  "room_ok r \<longleftrightarrow> length (r_slots r) = 8 \<and> length (r_closed r) = 8 \<and> unat (master_slot r) < 8"

definition player_ok :: "room list \<Rightarrow> host_id \<Rightarrow> player \<Rightarrow> bool" where
  "player_ok rooms h p \<longleftrightarrow> pl_host p = h \<and> h \<noteq> 0 \<and> unat (pl_slot p) < 8 \<and>
     (\<forall>ref. current_room p = Some ref \<longrightarrow> ref < length rooms \<and> r_slots (rooms ! ref) ! unat (pl_slot p) = h)"

definition listed_ok :: "room list \<Rightarrow> u16 \<Rightarrow> room_ref \<Rightarrow> bool" where
  "listed_ok rooms n ref \<longleftrightarrow> ref < length rooms \<and> ri_number (r_info (rooms ! ref)) = n \<and>
     r_slots (rooms ! ref) ! unat (master_slot (rooms ! ref)) \<noteq> 0"

definition game_inv :: "game_app \<Rightarrow> bool" where
  "game_inv a \<longleftrightarrow>
     omap_ok (m_players a) \<and> omap_ok (m_rooms a) \<and> (\<forall>r \<in> set (room_store a). room_ok r) \<and>
     (\<forall>h p. map_of (m_players a) h = Some p \<longrightarrow> player_ok (room_store a) h p) \<and>
     (\<forall>n ref. map_of (m_rooms a) n = Some ref \<longrightarrow> listed_ok (room_store a) n ref)"

lemma game_inv_player: "game_inv a \<Longrightarrow> map_of (m_players a) h = Some p \<Longrightarrow> player_ok (room_store a) h p"
  by (simp add: game_inv_def)

lemma game_inv_room: "game_inv a \<Longrightarrow> ref < length (room_store a) \<Longrightarrow> room_ok (room_store a ! ref)"
  by (simp add: game_inv_def)

lemma game_inv_listed: "game_inv a \<Longrightarrow> map_of (m_rooms a) n = Some ref \<Longrightarrow> listed_ok (room_store a) n ref"
  by (simp add: game_inv_def)

lemma game_inv_updates [simp]:
  "game_inv (a\<lparr>gs_accounts := s\<rparr>) = game_inv a" "game_inv (a\<lparr>gs_fault := f\<rparr>) = game_inv a"
  "game_inv (a\<lparr>m_next_room_number := n\<rparr>) = game_inv a"
  by (simp_all add: game_inv_def)

lemma game_inv_fault [simp]: "game_inv (m_app (fault f w)) = game_inv (m_app w)"
  by (simp add: fault_def)

text \<open>Changing a player beside its place, or a room beside its slots, master and number\<close>

lemma game_inv_put_player:
  assumes "game_inv a" "player_ok (room_store a) h p"
  shows "game_inv (a\<lparr>m_players := omap_put h p (m_players a)\<rparr>)"
  using assms by (auto simp: game_inv_def omap_ok_put map_of_omap_put)

lemma on_player_inv:
  assumes "game_inv (m_app w)"
    and "\<And>p. player_ok (room_store (m_app w)) h p \<Longrightarrow> player_ok (room_store (m_app w)) h (f p)"
  shows "game_inv (m_app (on_player h f w))"
  using assms game_inv_put_player game_inv_player by (auto simp: m_app_on_player split: option.split)

lemma game_inv_put_room:
  assumes "game_inv a" "room_ok r"
    and "ref < length (room_store a) \<Longrightarrow> r_slots r = r_slots (room_store a ! ref) \<and>
      master_slot r = master_slot (room_store a ! ref) \<and> ri_number (r_info r) = ri_number (r_info (room_store a ! ref))"
  shows "game_inv (a\<lparr>room_store := (room_store a)[ref := r]\<rparr>)"
proof -
  have same: "r_slots ((room_store a)[ref := r] ! x) = r_slots (room_store a ! x)"
    "master_slot ((room_store a)[ref := r] ! x) = master_slot (room_store a ! x)"
    "ri_number (r_info ((room_store a)[ref := r] ! x)) = ri_number (r_info (room_store a ! x))"
    if "x < length (room_store a)" for x
    using that assms(3) by (cases "x = ref"; simp)+
  then have "player_ok ((room_store a)[ref := r]) h p \<longleftrightarrow> player_ok (room_store a) h p" for h p
    by (auto simp: player_ok_def)
  moreover have "listed_ok ((room_store a)[ref := r]) n x \<longleftrightarrow> listed_ok (room_store a) n x" for n x
    using same by (auto simp: listed_ok_def)
  moreover have "\<forall>r \<in> set ((room_store a)[ref := r]). room_ok r"
    using assms(1,2) set_update_subset_insert [of "room_store a" ref r] by (auto simp: game_inv_def)
  ultimately show ?thesis using assms(1) by (simp add: game_inv_def)
qed

lemma on_room_inv:
  assumes "game_inv (m_app w)"
    and "\<And>r. room_ok r \<Longrightarrow> room_ok (f r) \<and> r_slots (f r) = r_slots r \<and> master_slot (f r) = master_slot r \<and>
      ri_number (r_info (f r)) = ri_number (r_info r)"
  shows "game_inv (m_app (on_room ref f w))"
proof (cases "ref < length (room_store (m_app w))")
  case True
  with assms game_inv_room have "room_ok (room_at (m_app w) ref)" by (simp add: room_at_def)
  with assms True show ?thesis
    by (auto simp: m_app_on_room room_at_def intro!: game_inv_put_room)
next
  case False
  then have "(room_store (m_app w))[ref := x] = room_store (m_app w)" for x by (intro list_update_beyond) simp
  then have "m_app (on_room ref f w) = m_app w" by (simp add: m_app_on_room)
  with assms(1) show ?thesis by simp
qed

section \<open>Leaving a room\<close>

text \<open>What leaving does to the application\<close>

definition vacate :: "nat \<Rightarrow> room \<Rightarrow> room" where
  "vacate slot r = r\<lparr>r_slots := (r_slots r)[slot := 0]\<rparr>"

definition first_taken :: "room \<Rightarrow> nat" where
  "first_taken r = length (takeWhile (\<lambda>h. h = 0) (r_slots r))"

definition leave_app :: "host_id \<Rightarrow> game_app \<Rightarrow> game_app" where
  "leave_app h a =
     (case map_of (m_players a) h of
        None \<Rightarrow> a
      | Some p \<Rightarrow>
          (case current_room p of
             None \<Rightarrow> a
           | Some ref \<Rightarrow>
               (let r = vacate (unat (pl_slot p)) (room_at a ref);
                    r' = (if master_slot r = pl_slot p then r\<lparr>master_slot := of_nat (first_taken r)\<rparr> else r)
                in a\<lparr>room_store := (room_store a)[ref := if player_count r = 0 then r else r'],
                     m_players := omap_put h (p\<lparr>current_room := None, ready := False\<rparr>) (m_players a),
                     m_rooms := (if player_count r = 0 then omap_del (ri_number (r_info r)) (m_rooms a) else m_rooms a)\<rparr>)))"

lemma m_app_remove:
  assumes "game_inv (m_app w)"
  shows "m_app (remove_from_room h k w) = leave_app h (m_app w)"
proof (cases "map_of (m_players (m_app w)) h")
  case (Some p)
  show ?thesis
  proof (cases "current_room p")
    case (Some ref)
    then have "ref < length (room_store (m_app w))"
      using game_inv_player [OF assms \<open>map_of _ h = Some p\<close>] by (simp add: player_ok_def)
    then show ?thesis
      using \<open>map_of _ h = Some p\<close> Some
      by (intro game_app.equality)
        (simp_all add: remove_from_room_def leave_app_def player_by_host_def m_app_on_room m_app_on_player Let_def vacate_def
          room_at_def first_taken_def)
  qed (simp add: remove_from_room_def leave_app_def player_by_host_def Some)
qed (simp add: remove_from_room_def leave_app_def player_by_host_def)

lemma player_count_pos: "player_count r \<noteq> 0 \<longleftrightarrow> (\<exists>h \<in> set (r_slots r). h \<noteq> 0)"
  using length_0_conv [of "filter (\<lambda>h. h \<noteq> 0) (r_slots r)"] filter_empty_conv [of "\<lambda>h. h \<noteq> 0" "r_slots r"]
  unfolding player_count_def by metis

lemma first_taken_slot:
  assumes "player_count r \<noteq> 0"
  shows "first_taken r < length (r_slots r)" "r_slots r ! first_taken r \<noteq> 0"
proof -
  have "\<exists>h \<in> set (r_slots r). \<not> (h = 0)" using assms unfolding player_count_pos .
  moreover have "\<exists>h \<in> set xs. \<not> (h = 0) \<Longrightarrow> length (takeWhile (\<lambda>h. h = 0) xs) < length xs" for xs :: "host_id list"
    by (induction xs) auto
  ultimately have "length (takeWhile (\<lambda>h. h = 0) (r_slots r)) < length (r_slots r)" by blast
  then show "first_taken r < length (r_slots r)" "r_slots r ! first_taken r \<noteq> 0"
    using nth_length_takeWhile [of "\<lambda>h. h = 0" "r_slots r"] by (simp_all add: first_taken_def)
qed

text \<open>A room whose slot was given up\<close>

lemma vacated_ok:
  assumes "room_ok r" "player_count (vacate slot r) \<noteq> 0"
  shows "room_ok ((vacate slot r)\<lparr>master_slot := of_nat (first_taken (vacate slot r))\<rparr>) \<and>
    unat (of_nat (first_taken (vacate slot r)) :: u32) = first_taken (vacate slot r)"
proof -
  have "first_taken (vacate slot r) < 8"
    using first_taken_slot(1) [OF assms(2)] assms(1) by (simp add: vacate_def room_ok_def)
  then have "unat (of_nat (first_taken (vacate slot r)) :: u32) = first_taken (vacate slot r)"
    by (simp only: unat_of_nat take_bit_nat_eq_self_iff) simp
  with \<open>first_taken _ < 8\<close> assms(1) show ?thesis by (simp add: room_ok_def vacate_def)
qed

text \<open>The parts of the invariant that leaving and joining share: the store changes at one room only.\<close>

lemma game_inv_change_room:
  assumes a: "game_inv a" and ref: "ref < length (room_store a)" and r: "room_ok r"
    and others: "\<And>k q. map_of (m_players a) k = Some q \<Longrightarrow> k \<noteq> h \<Longrightarrow> current_room q = Some ref \<Longrightarrow>
      r_slots r ! unat (pl_slot q) = k"
    and listed: "\<And>n. map_of rooms n = Some ref \<Longrightarrow> ri_number (r_info r) = n \<and> r_slots r ! unat (master_slot r) \<noteq> 0"
    and me: "player_ok ((room_store a)[ref := r]) h p"
    and rooms: "omap_ok rooms" "\<And>n x. map_of rooms n = Some x \<Longrightarrow> map_of (m_rooms a) n = Some x"
  shows "game_inv (a\<lparr>room_store := (room_store a)[ref := r], m_players := omap_put h p (m_players a), m_rooms := rooms\<rparr>)"
proof -
  have "player_ok ((room_store a)[ref := r]) k q" if "map_of (m_players a) k = Some q" "k \<noteq> h" for k q
  proof -
    have q: "player_ok (room_store a) k q" using a that(1) by (rule game_inv_player)
    have "r_slots ((room_store a)[ref := r] ! x) ! unat (pl_slot q) = k" if "current_room q = Some x" for x
    proof (cases "x = ref")
      case True
      with others [OF \<open>map_of _ k = Some q\<close> \<open>k \<noteq> h\<close>] that ref show ?thesis by simp
    next
      case False
      with q that show ?thesis by (simp add: player_ok_def)
    qed
    with q show ?thesis by (auto simp: player_ok_def)
  qed
  moreover have "listed_ok ((room_store a)[ref := r]) n x" if "map_of rooms n = Some x" for n x
    using game_inv_listed [OF a rooms(2) [OF that]] listed [of n] that ref
    by (cases "x = ref") (auto simp: listed_ok_def)
  moreover have "\<forall>r \<in> set ((room_store a)[ref := r]). room_ok r"
    using a r set_update_subset_insert [of "room_store a" ref r] by (auto simp: game_inv_def)
  ultimately show ?thesis
    using a me rooms(1) by (auto simp: game_inv_def omap_ok_put map_of_omap_put)
qed

lemma game_inv_leave:
  assumes a: "game_inv a"
  shows "game_inv (leave_app h a)"
proof (cases "\<exists>p ref. map_of (m_players a) h = Some p \<and> current_room p = Some ref")
  case True
  then obtain p ref where p: "map_of (m_players a) h = Some p" "current_room p = Some ref" by blast
  let ?slot = "unat (pl_slot p)"
  define r0 where "r0 = room_store a ! ref"
  define r where "r = vacate ?slot r0"
  have pok: "pl_host p = h" "h \<noteq> 0" "?slot < 8" "ref < length (room_store a)" "r_slots r0 ! ?slot = h"
    using game_inv_player [OF a p(1)] p(2) by (simp_all add: player_ok_def r0_def)
  have r0: "room_ok r0" using game_inv_room [OF a pok(4)] by (simp add: r0_def)
  have r: "room_ok r" using r0 by (simp add: r_def vacate_def room_ok_def)
  have slots: "r_slots r ! i = (if i = ?slot then 0 else r_slots r0 ! i)" if "i < 8" for i
    using that r0 by (simp add: r_def vacate_def room_ok_def nth_list_update)
  have others: "r_slots r ! unat (pl_slot q) = k"
    if "map_of (m_players a) k = Some q" "k \<noteq> h" "current_room q = Some ref" for k q
  proof -
    have "unat (pl_slot q) < 8" "r_slots r0 ! unat (pl_slot q) = k"
      using game_inv_player [OF a that(1)] that(3) by (auto simp: player_ok_def r0_def)
    with slots pok(5) that(2) show ?thesis by auto
  qed
  have me: "player_ok x h (p\<lparr>current_room := None, ready := False\<rparr>)" for x
    using pok by (simp add: player_ok_def)
  have number: "ri_number (r_info r) = n \<and> r_slots r0 ! unat (master_slot r0) \<noteq> 0" if "map_of (m_rooms a) n = Some ref" for n
    using game_inv_listed [OF a that] by (simp add: listed_ok_def r_def vacate_def r0_def)
  have rooms: "omap_ok (m_rooms a)" using a by (simp add: game_inv_def)
  have same_slot: "unat (master_slot r0) = ?slot \<longleftrightarrow> master_slot r = pl_slot p"
    by (simp add: r_def vacate_def word_unat_eq_iff)
  note ch = game_inv_change_room [OF a pok(4), where h = h and p = "p\<lparr>current_room := None, ready := False\<rparr>"]
  show ?thesis
  proof (cases "player_count r = 0")
    case True
    have "game_inv (a\<lparr>room_store := (room_store a)[ref := r],
        m_players := omap_put h (p\<lparr>current_room := None, ready := False\<rparr>) (m_players a),
        m_rooms := omap_del (ri_number (r_info r)) (m_rooms a)\<rparr>)"
      using number by (intro ch r others me) (auto simp: map_of_omap_del omap_ok_del rooms split: if_splits)
    with True p show ?thesis
      by (simp add: leave_app_def Let_def room_at_def r0_def [symmetric] r_def [symmetric])
  next
    case False
    define r' where "r' = (if master_slot r = pl_slot p then r\<lparr>master_slot := of_nat (first_taken r)\<rparr> else r)"
    have m: "room_ok r'" "r_slots r' ! unat (master_slot r') \<noteq> 0" if "map_of (m_rooms a) n = Some ref" for n
    proof -
      show "room_ok r'" using vacated_ok [OF r0, of ?slot] False r by (simp add: r'_def r_def)
      show "r_slots r' ! unat (master_slot r') \<noteq> 0"
      proof (cases "master_slot r = pl_slot p")
        case True
        then show ?thesis
          using vacated_ok [OF r0, of ?slot] first_taken_slot(2) [OF False] False by (simp add: r'_def r_def)
      next
        case ne: False
        have "master_slot r = master_slot r0" by (simp add: r_def vacate_def)
        with ne show ?thesis using same_slot slots number [OF that] r0 by (simp add: r'_def room_ok_def)
      qed
    qed
    have "room_ok r'" using vacated_ok [OF r0, of ?slot] False r by (simp add: r'_def r_def)
    then have "game_inv (a\<lparr>room_store := (room_store a)[ref := r'],
        m_players := omap_put h (p\<lparr>current_room := None, ready := False\<rparr>) (m_players a), m_rooms := m_rooms a\<rparr>)"
      using number m(2) others by (intro ch me) (auto simp: rooms r'_def)
    with False p show ?thesis
      by (simp add: leave_app_def Let_def room_at_def r0_def [symmetric] r_def [symmetric] r'_def split: if_splits)
  qed
qed (auto simp: leave_app_def a split: option.split)

lemma remove_inv: "game_inv (m_app w) \<Longrightarrow> game_inv (m_app (remove_from_room h k w))"
  by (simp add: m_app_remove game_inv_leave)

lemma length_leave_app [simp]: "length (room_store (leave_app h a)) = length (room_store a)"
  by (auto simp: leave_app_def Let_def split: option.split)

lemma leave_app_rooms:
  "map_of (m_rooms (leave_app h a)) n = Some ref \<Longrightarrow> map_of (m_rooms a) n = Some ref"
  by (auto simp: leave_app_def Let_def map_of_omap_del split: option.splits if_splits)

section \<open>Joining and opening rooms\<close>

lemma free_slot_Some:
  assumes "free_slot r = Some slot"
  shows "slot < 8" "r_slots r ! slot = 0" "\<not> r_closed r ! slot"
  using assms by (auto simp: free_slot_def find_Some_iff capacity_def room_slots_def)

lemma game_inv_join:
  assumes w: "game_inv (m_app w)" and ref: "ref < length (room_store (m_app w))"
  shows "game_inv (m_app (join_room h ref w))"
proof -
  define w1 where "w1 = remove_from_room h False w"
  define a where "a = m_app w1"
  have a: "game_inv a" and ref: "ref < length (room_store a)"
    using remove_inv [OF w] ref by (simp_all add: a_def w1_def m_app_remove [OF w])
  show ?thesis
  proof (cases "player_by_host a h")
    case (Some p)
    show ?thesis
    proof (cases "free_slot (room_at a ref)")
      case (Some slot)
      note fs = free_slot_Some [OF Some]
      define r0 where "r0 = room_store a ! ref"
      define r where "r = r0\<lparr>r_slots := (r_slots r0)[slot := pl_host p]\<rparr>"
      define p' where "p' = p\<lparr>current_room := Some ref, pl_slot := of_nat slot, ready := False\<rparr>"
      have p: "map_of (m_players a) h = Some p" using \<open>player_by_host a h = Some p\<close> by (simp add: player_by_host_def)
      have pok: "pl_host p = h" "h \<noteq> 0" using game_inv_player [OF a p] by (simp_all add: player_ok_def)
      have r0: "room_ok r0" using game_inv_room [OF a ref] by (simp add: r0_def)
      have slots: "r_slots r ! i = (if i = slot then h else r_slots r0 ! i)" if "i < 8" for i
        using that r0 pok by (simp add: r_def room_ok_def nth_list_update)
      have free: "r_slots r0 ! slot = 0" using fs(2) by (simp add: room_at_def r0_def)
      have others: "r_slots r ! unat (pl_slot q) = k"
        if "map_of (m_players a) k = Some q" "k \<noteq> h" "current_room q = Some ref" for k q
        using game_inv_player [OF a that(1)] that(3) slots free by (auto simp: player_ok_def r0_def)
      have listed: "ri_number (r_info r) = n \<and> r_slots r ! unat (master_slot r) \<noteq> 0" if "map_of (m_rooms a) n = Some ref" for n
        using game_inv_listed [OF a that] slots [of "unat (master_slot r0)"] r0 pok(2)
        by (auto simp: listed_ok_def r_def r0_def room_ok_def)
      have "unat (of_nat slot :: u32) = slot"
        using fs(1) by (simp only: unat_of_nat take_bit_nat_eq_self_iff) simp
      then have me: "player_ok ((room_store a)[ref := r]) h p'"
        using pok fs(1) slots ref by (simp add: player_ok_def p'_def)
      have "game_inv (a\<lparr>room_store := (room_store a)[ref := r], m_players := omap_put h p' (m_players a), m_rooms := m_rooms a\<rparr>)"
      proof (rule game_inv_change_room [OF a ref _ others listed me])
        show "room_ok r" using r0 by (simp add: r_def room_ok_def)
        show "omap_ok (m_rooms a)" using a by (simp add: game_inv_def)
      qed
      moreover have "m_app (join_room h ref w) =
          a\<lparr>room_store := (room_store a)[ref := r], m_players := omap_put h p' (m_players a), m_rooms := m_rooms a\<rparr>"
        using \<open>player_by_host a h = Some p\<close> Some p
        by (simp add: join_room_def Let_def w1_def [symmetric] a_def [symmetric] m_app_on_room m_app_on_player room_at_def
            p'_def r_def r0_def)
      ultimately show ?thesis by simp
    next
      case None
      with \<open>player_by_host a h = Some p\<close> a show ?thesis
        by (simp add: join_room_def Let_def w1_def [symmetric] a_def [symmetric] fault_def)
    qed
  next
    case None
    with a show ?thesis by (simp add: join_room_def Let_def w1_def [symmetric] a_def [symmetric])
  qed
qed

lemma room_number_loop_Some: "room_number_loop fuel n rooms = Some m \<Longrightarrow> map_of rooms m = None \<and> m \<noteq> 0"
  by (induction fuel n rooms rule: room_number_loop.induct) (auto split: if_splits)

lemma player_ok_append: "player_ok rooms h p \<Longrightarrow> player_ok (rooms @ [r]) h p"
  by (auto simp: player_ok_def nth_append)

lemma listed_ok_append: "listed_ok rooms n ref \<Longrightarrow> listed_ok (rooms @ [r]) n ref"
  by (auto simp: listed_ok_def nth_append)

lemma game_inv_open_room:
  assumes w: "game_inv (m_app w)" and h: "pl_host p \<noteq> 0"
  shows "game_inv (m_app (open_room p i w))"
proof (cases "room_number_loop (2 ^ 16) (m_next_room_number (m_app w)) (m_rooms (m_app w))")
  case (Some n)
  define a where "a = m_app w"
  obtain grp s where c: "create_p2p_group [] (m_net w) = (grp, s)" by force
  define r where "r = \<lparr>r_info = new_room_info n i, r_channel = pl_channel p,
      r_slots = (replicate room_slots 0)[0 := pl_host p], r_closed = replicate room_slots False,
      master_slot = 0, p2p_group = grp, playing = False\<rparr>"
  define a1 where "a1 = a\<lparr>m_next_room_number := n + 1, m_rooms := omap_put n (length (room_store a)) (m_rooms a),
      room_store := room_store a @ [r]\<rparr>"
  have r: "room_ok r" "r_slots r ! 0 = pl_host p" by (simp_all add: r_def room_ok_def room_slots_def)
  have new: "listed_ok (room_store a @ [r]) n (length (room_store a))"
    using r h by (simp add: listed_ok_def nth_append) (simp add: r_def new_room_info_def)
  have a1: "game_inv a1"
    using w r(1) player_ok_append listed_ok_append new
    unfolding game_inv_def a1_def a_def by (simp add: omap_ok_put map_of_omap_put)
  define w1 where "w1 = with_app (\<lambda>a. a\<lparr>m_next_room_number := n + 1,
      m_rooms := omap_put n (length (room_store (m_app w))) (m_rooms a), room_store := room_store a @ [r]\<rparr>) (w\<lparr>m_net := s\<rparr>)"
  have w1: "m_app w1 = a1" by (simp add: w1_def a1_def a_def)
  have "game_inv (m_app (on_player (pl_host p)
      (\<lambda>p. p\<lparr>current_room := Some (length (room_store (m_app w))), pl_slot := 0, ready := False\<rparr>) w1))"
    by (rule on_player_inv) (use a1 r w1 in \<open>auto simp: player_ok_def a1_def a_def nth_append\<close>)
  then show ?thesis
    unfolding open_room_def Some option.case c prod.case Let_def using w by (simp add: w1_def r_def)
qed (simp add: open_room_def w)

section \<open>The handlers\<close>

lemma player_ok_updates [simp]:
  "player_ok rooms h (p\<lparr>team := t\<rparr>) = player_ok rooms h p" "player_ok rooms h (p\<lparr>ready := b\<rparr>) = player_ok rooms h p"
  "player_ok rooms h (p\<lparr>comment := s\<rparr>) = player_ok rooms h p" "player_ok rooms h (p\<lparr>character := c\<rparr>) = player_ok rooms h p"
  "player_ok rooms h (p\<lparr>avatar := v\<rparr>) = player_ok rooms h p" "player_ok rooms h (p\<lparr>pl_nation := n\<rparr>) = player_ok rooms h p"
  "player_ok rooms h (p\<lparr>pl_channel := ch\<rparr>) = player_ok rooms h p"
  by (simp_all add: player_ok_def)

lemma room_ok_updates [simp]:
  "room_ok (r\<lparr>r_info := i\<rparr>) = room_ok r" "room_ok (r\<lparr>playing := b\<rparr>) = room_ok r"
  "room_ok (r\<lparr>r_closed := (r_closed r)[n := b]\<rparr>) = room_ok r"
  by (simp_all add: room_ok_def)

lemma gm_kick_inv: "game_inv (m_app w) \<Longrightarrow> game_inv (m_app (gm_kick_loop ref nick slots w))"
  by (induction ref nick slots w rule: gm_kick_loop.induct)
    (auto simp: Let_def split: option.split intro: remove_inv)

lemma gm_close_inv: "game_inv (m_app w) \<Longrightarrow> game_inv (m_app (fold (gm_close_step p ref) slots w))"
  by (rule fold_world_inv [of "\<lambda>w. game_inv (m_app w)"])
    (auto simp: gm_close_step_def Let_def split: option.split intro: remove_inv)

lemma m_app_fold_send [simp]:
  "(\<And>x w. m_app (f x w) = m_app w) \<Longrightarrow> m_app (fold f xs w) = m_app w"
  by (rule fold_world_inv [of "\<lambda>w'. m_app w' = m_app w"]) auto

text \<open>A room that a search finds is in the list.\<close>

lemma find_room_listed: "find_room a c n = Some ref \<Longrightarrow> map_of (m_rooms a) n = Some ref"
  by (auto simp: find_room_def split: option.splits if_splits)

lemma rooms_in_listed:
  assumes "omap_ok (m_rooms a)" "ref \<in> set (rooms_in a c)"
  obtains n where "map_of (m_rooms a) n = Some ref"
  using assms omap_ok_distinct [OF assms(1)] by (auto simp: rooms_in_def)

lemma find_room_valid: "game_inv a \<Longrightarrow> find_room a c n = Some ref \<Longrightarrow> ref < length (room_store a)"
  using game_inv_listed find_room_listed by (fastforce simp: listed_ok_def)

lemma rooms_in_valid:
  assumes "game_inv a" "ref \<in> set (rooms_in a c)"
  shows "ref < length (room_store a)"
proof -
  have "omap_ok (m_rooms a)" using assms(1) by (simp add: game_inv_def)
  then obtain n where "map_of (m_rooms a) n = Some ref" using assms(2) by (rule rooms_in_listed)
  then show ?thesis using game_inv_listed [OF assms(1)] by (simp add: listed_ok_def)
qed

lemma quick_room_valid: "game_inv a \<Longrightarrow> List.find P (rooms_in a c) = Some ref \<Longrightarrow> ref < length (room_store a)"
  by (auto simp: find_Some_iff intro: rooms_in_valid nth_mem)

text \<open>\<open>keeping_handler f\<close>: the handler \<open>f\<close> keeps the invariant.\<close>

definition keeping_handler :: "handler \<Rightarrow> bool" where
  "keeping_handler f \<longleftrightarrow> (\<forall>p r w. game_inv (m_app w) \<longrightarrow> pl_host p \<noteq> 0 \<longrightarrow> game_inv (m_app (snd (f p r w))))"

lemmas keep_intros = remove_inv on_player_inv on_room_inv gm_kick_inv gm_close_inv game_inv_open_room
  game_inv_join

lemmas keep_simps = keeping_handler_def handled_def reading_def in_room_def as_master_def enter_refused_def Let_def split_def
  set_channel_def change_info_def

lemma handlers_keep_1:
  "keeping_handler logout"
  "keeping_handler room_list"
  "keeping_handler room_request_member"
  "keeping_handler create_room"
  "keeping_handler enter_room"
  "keeping_handler room_chat"
  "keeping_handler quick_join"
  "keeping_handler leave_room"
  by (auto simp: keep_simps
      logout_def room_list_def room_request_member_def create_room_def enter_room_def room_chat_def
      quick_join_def leave_room_def
      split: sum.split option.split intro!: keep_intros intro: find_room_valid quick_room_valid)

lemma handlers_keep_2:
  "keeping_handler enter_lobby"
  "keeping_handler channel_list"
  "keeping_handler enter_channel"
  "keeping_handler leave_channel"
  "keeping_handler change_channel"
  "keeping_handler channel_total_room_number"
  "keeping_handler channel_user_list"
  "keeping_handler lobby_chat"
  by (auto simp: keep_simps
      enter_lobby_def channel_list_def enter_channel_def leave_channel_def change_channel_def
      channel_total_room_number_def channel_user_list_def lobby_chat_def
      split: sum.split option.split intro!: keep_intros)

lemma handlers_keep_3:
  "keeping_handler team_chat"
  "keeping_handler whisper_chat"
  "keeping_handler cry"
  "keeping_handler change_map"
  "keeping_handler change_type"
  "keeping_handler change_lap"
  "keeping_handler change_attribute"
  "keeping_handler change_random_map"
  by (auto simp: keep_simps
      team_chat_def whisper_chat_def cry_def change_map_def change_type_def change_lap_def
      change_attribute_def change_random_map_def
      split: sum.split option.split intro!: keep_intros)

lemma handlers_keep_4:
  "keeping_handler change_team"
  "keeping_handler kick"
  "keeping_handler close_slot"
  "keeping_handler open_slot"
  "keeping_handler mission"
  "keeping_handler ready_game"
  "keeping_handler start_game"
  "keeping_handler game_ready"
  by (auto simp: keep_simps
      change_team_def kick_def close_slot_def open_slot_def mission_def ready_game_def
      start_game_def game_ready_def
      split: sum.split option.split intro!: keep_intros)

lemma handlers_keep_5:
  "keeping_handler room_connect_ok"
  "keeping_handler save_score"
  "keeping_handler goto_wait_room"
  "keeping_handler change_comment"
  "keeping_handler gm_close_room"
  "keeping_handler gm_kick"
  "keeping_handler select_character"
  "keeping_handler update_avatar"
  "keeping_handler select_avatar"
  by (auto simp: keep_simps
      room_connect_ok_def save_score_def goto_wait_room_def change_comment_def gm_close_room_def
      gm_kick_def select_character_def update_avatar_def select_avatar_def
      split: sum.split option.split intro!: keep_intros)

lemma handlers_keep_6:
  "keeping_handler delete_item"
  "keeping_handler buy_item"
  "keeping_handler ranking"
  "keeping_handler rank_info_request"
  "keeping_handler enter_nation"
  "keeping_handler new_cash"
  "keeping_handler check_error"
  "keeping_handler ignore"
  by (auto simp: keep_simps
      delete_item_def buy_item_def ranking_def rank_info_request_def enter_nation_def new_cash_def
      check_error_def ignore_def
      split: sum.split option.split intro!: keep_intros)

lemmas handlers_keep_all = handlers_keep_1 handlers_keep_2 handlers_keep_3 handlers_keep_4 handlers_keep_5 handlers_keep_6

lemma handlers_keep: "map_of m_handlers i = Some f \<Longrightarrow> keeping_handler f"
  by (drule map_of_SomeD) (auto simp: m_handlers_def handlers_keep_all)

section \<open>The server\<close>

lemma game_inv_del_player: "game_inv a \<Longrightarrow> game_inv (a\<lparr>m_players := omap_del h (m_players a)\<rparr>)"
  by (auto simp: game_inv_def map_of_omap_del omap_ok_del)

lemma game_leave_inv: "game_inv (m_app w) \<Longrightarrow> game_inv (m_app (game_on_client_leave h w))"
  by (auto simp: game_on_client_leave_def intro: game_inv_del_player remove_inv split: option.split)

lemma game_close_inv: "game_inv (m_app w) \<Longrightarrow> game_inv (m_app (peer_close game_leave_sink h w))"
  using game_leave_inv [of "with_net (mark_closed h) w" h]
  by (auto simp: peer_close_def Let_def game_leave_sink_def split: option.split)

lemma player_new_ok: "client \<noteq> 0 \<Longrightarrow> player_ok rooms client (player_new client acc user)"
  by (simp add: player_ok_def player_new_def)

lemma game_logon_inv:
  assumes "game_inv (m_app w)" "client \<noteq> 0"
  shows "game_inv (m_app (game_logon client user password w))"
proof -
  have "game_inv (m_app (peer_close game_leave_sink h (client_send h m (with_app (\<lambda>a. a\<lparr>gs_accounts := s\<rparr>) w))))" for h m s
    using assms by (intro game_close_inv) simp
  then show ?thesis
    using assms game_inv_put_player [of "(m_app w)\<lparr>gs_accounts := s\<rparr>" for s]
    by (auto simp: game_logon_def Let_def player_new_ok intro: game_inv_put_player split: prod.split option.split)
qed

lemma game_on_rmi_inv:
  assumes "game_inv (m_app w)" "client \<noteq> 0"
  shows "game_inv (m_app (snd (game_on_rmi client i r w)))"
proof -
  have "game_inv (m_app (snd (f p r w)))" if "map_of m_handlers i = Some f" "map_of (m_players (m_app w)) client = Some p" for f p
    using handlers_keep [OF that(1)] game_inv_player [OF assms(1) that(2)] assms
    by (simp add: keeping_handler_def player_ok_def)
  then show ?thesis
    using assms game_logon_inv
    by (auto simp: game_on_rmi_def reading_def handled_def player_by_host_def split: option.split sum.split prod.split)
qed

lemma connected_not_0:
  assumes "net_inv s" "is_connected s h"
  shows "h \<noteq> 0"
proof -
  have "unat h \<in> {3..<unat (m_next_id s)} - {50}"
    using assms unfolding net_inv_def pool_ok_def is_connected_def client_ids_def by blast
  then show ?thesis by auto
qed

lemma close_game_sink: "peer_close game_sink h w = peer_close game_leave_sink h w"
  by (simp add: peer_close_def game_sink_def game_leave_sink_def Let_def split: option.split)

interpretation game: event_handler game_sink "\<lambda>w. game_inv (m_app w)"
  by unfold_locales
    (auto simp: close_game_sink game_close_inv, auto simp: game_sink_def safe_def game_leave_talks game_on_rmi_steps 
      intro!: game_on_rmi_inv dest: connected_not_0)

lemma game_inv_new: "game_inv (m_app (game_new c accounts g clk seconds))"
  by (simp add: game_new_def game_inv_def)

end
