(* ===== verification/Game_Rooms.thy ===== *)
theory Game_Rooms
  imports Game_Inv
begin

text \<open>
  What entering, leaving and listing rooms does: who sits where afterwards, who is told what, and
  which numbers and pages rooms get.
\<close>

section \<open>Messages to rooms and channels\<close>

lemma connected_send [simp]: "is_connected (server_send d m e s) h = is_connected s h"
  by (rule same_net_connected) simp

lemma sent_to_fold_slots:
  "is_connected (m_net (fold (\<lambda>host w. if host \<noteq> 0 \<and> host \<noteq> x then net_send host m w else w) slots w)) h =
     is_connected (m_net w) h \<and>
   sent_to (m_net (fold (\<lambda>host w. if host \<noteq> 0 \<and> host \<noteq> x then net_send host m w else w) slots w)) h =
     sent_to (m_net w) h @
     (if h \<noteq> 0 \<and> h \<noteq> x \<and> is_connected (m_net w) h then replicate (count_list slots h) (make_frame (m_data m)) else [])"
  for w :: game_world
proof (induction slots arbitrary: w)
  case (Cons y slots)
  show ?case
    using Cons [of "if y \<noteq> 0 \<and> y \<noteq> x then net_send y m w else w"]
    by (auto simp: sent_to_server_send)
qed simp

lemma sent_to_send_room:
  "sent_to (m_net (send_room r m x w)) h = sent_to (m_net w) h @
     (if h \<noteq> 0 \<and> h \<noteq> x \<and> is_connected (m_net w) h then replicate (count_list (r_slots r) h) (make_frame (m_data m)) else [])"
  by (simp add: send_room_def sent_to_fold_slots)

lemma connected_send_room [simp]: "is_connected (m_net (send_room r m x w)) h = is_connected (m_net w) h"
  by (simp add: send_room_def sent_to_fold_slots)

lemma sent_to_fold_players:
  "distinct (map fst ps) \<Longrightarrow>
   sent_to (m_net (fold (\<lambda>(host, p) w. if P host p then net_send host m w else w) ps w)) h =
     sent_to (m_net w) h @
     (if is_connected (m_net w) h \<and> (\<exists>p. map_of ps h = Some p \<and> P h p) then [make_frame (m_data m)] else [])"
  for w :: game_world
proof (induction ps arbitrary: w)
  case (Cons x ps)
  obtain k p where x: "x = (k, p)" by force
  with Cons.prems have "map_of ps k = None" by (auto simp: map_of_eq_None_iff)
  then show ?case
    using Cons.IH [of "if P k p then net_send k m w else w"] Cons.prems x by (auto simp: sent_to_server_send)
qed simp

lemma sent_to_channel_lobby:
  assumes "game_inv (m_app w)"
  shows "sent_to (m_net (send_channel_lobby c m w)) h = sent_to (m_net w) h @
    (if is_connected (m_net w) h \<and>
        (\<exists>p. map_of (m_players (m_app w)) h = Some p \<and> pl_channel p = c \<and> current_room p = None)
     then [make_frame (m_data m)] else [])"
  using assms
  by (simp add: send_channel_lobby_def sent_to_fold_players game_inv_def omap_ok_distinct)

section \<open>Group notices\<close>

text \<open>What joining a P2P group sends to a client is notices about members only.\<close>

definition join_notices :: "'u server \<Rightarrow> host_id \<Rightarrow> (host_id \<times> u32) list \<Rightarrow> bytes list" where
  "join_notices s g ps = map (\<lambda>(x, e). make_frame (join_payload g x e (m_instance_guid s))) ps"

lemma sent_to_notify_join_notices:
  "\<exists>ps. sent_to (notify_group_member_join g a b s) h = sent_to s h @ join_notices s g ps"
  by (auto simp: sent_to_notify_join join_notices_def intro: exI [of _ "[(b, m_next_event_id s)]"] exI [of _ "[]"])

lemma join_notices_trans:
  assumes "\<exists>ps. sent_to s' h = sent_to s h @ join_notices s g ps" "m_instance_guid s' = m_instance_guid s"
    "\<exists>ps. sent_to s'' h = sent_to s' h @ join_notices s' g ps"
  shows "\<exists>ps. sent_to s'' h = sent_to s h @ join_notices s g ps"
proof -
  obtain ps qs where "sent_to s' h = sent_to s h @ join_notices s g ps" "sent_to s'' h = sent_to s' h @ join_notices s' g qs"
    using assms(1,3) by blast
  then show ?thesis using assms(2) by (intro exI [of _ "ps @ qs"]) (simp add: join_notices_def)
qed

lemma join_round_notices: "\<exists>ps. sent_to (join_round g m x s) h = sent_to s h @ join_notices s g ps"
  using join_notices_trans [OF sent_to_notify_join_notices same_net_guid [OF notify_join_frame(1)] sent_to_notify_join_notices]
    sent_to_notify_join_notices [of g x m s h]
  unfolding join_round_def Let_def by (auto split: if_splits)

lemma join_group_notices: "\<exists>ps. sent_to (join_p2p_group g m s) h = sent_to s h @ join_notices s g ps"
proof -
  have "\<exists>ps. sent_to (fold (join_round g m) xs t) h = sent_to t h @ join_notices t g ps" for xs and t :: "'a server"
  proof (induction xs arbitrary: t)
    case (Cons x xs)
    show ?case
      using join_notices_trans [OF join_round_notices same_net_guid [OF join_round_frame(1)] Cons.IH] by simp
  qed (auto simp: join_notices_def)
  from this [of _ "s\<lparr>m_groups := G\<rparr>" for G] have fold:
    "\<exists>ps. sent_to (fold (join_round g m) xs (s\<lparr>m_groups := G\<rparr>)) h = sent_to s h @ join_notices s g ps" for xs G
    by (simp add: join_notices_def)
  show ?thesis
    unfolding join_p2p_group_eq using fold
    by (auto simp: join_notices_def intro: exI [of _ "[]"] split: option.split)
qed

lemma leave_group_notices:
  "\<exists>n. sent_to (leave_p2p_group g m s) h = sent_to s h @ replicate n (make_frame (leave_payload g m))"
proof -
  have fold: "\<exists>n. sent_to (fold (\<lambda>r. notify_group_member_leave g r m) xs t) h =
      sent_to t h @ replicate n (make_frame (leave_payload g m))" for xs and t :: "'a server"
  proof (induction xs arbitrary: t)
    case (Cons x xs)
    obtain n where "sent_to (fold (\<lambda>r. notify_group_member_leave g r m) xs (notify_group_member_leave g x m t)) h =
        sent_to (notify_group_member_leave g x m t) h @ replicate n (make_frame (leave_payload g m))"
      using Cons.IH by blast
    then show ?case
      by (auto simp: sent_to_notify_leave intro: exI [of _ n] exI [of _ "Suc n"])
  qed (auto intro: exI [of _ 0])
  show ?thesis
  proof (cases "\<exists>members. map_of (m_groups s) g = Some members \<and> m \<in> set members")
    case True
    then obtain members where g: "map_of (m_groups s) g = Some members" "m \<in> set members" by blast
    define t where "t = s\<lparr>m_groups := omap_put g (oset_del m members) (m_groups s)\<rparr>"
    define u where "u = fold (\<lambda>r. notify_group_member_leave g r m) (oset_del m members) t"
    have l: "leave_p2p_group g m s = notify_group_member_leave g m m u"
      using g by (simp add: leave_p2p_group_def Let_def t_def u_def)
    obtain n where "sent_to u h = sent_to s h @ replicate n (make_frame (leave_payload g m))"
      using fold [of "oset_del m members" t] by (auto simp: u_def t_def)
    then show ?thesis
      unfolding l sent_to_notify_leave
      by (auto simp: replicate_append_same [symmetric] intro: exI [of _ n] exI [of _ "Suc n"])
  qed (auto simp: leave_p2p_group_def intro: exI [of _ 0] split: option.split)
qed

lemma count_list_update_other: "xs ! i \<noteq> x \<Longrightarrow> y \<noteq> x \<Longrightarrow> count_list (xs[i := y]) x = count_list xs x"
  by (induction xs arbitrary: i) (auto split: nat.split)

section \<open>Leaving\<close>

lemma remove_lobby: "player_by_host (m_app w) h = Some p \<Longrightarrow> current_room p = None \<Longrightarrow> remove_from_room h k w = w"
  by (simp add: remove_from_room_def)

text \<open>The room that is left behind, as the remaining members see it\<close>

definition left_room :: "player \<Rightarrow> room \<Rightarrow> room" where
  "left_room p r =
     (let r' = vacate (unat (pl_slot p)) r
      in if player_count r' \<noteq> 0 \<and> master_slot r = pl_slot p then r'\<lparr>master_slot := of_nat (first_taken r')\<rparr> else r')"

lemma left_room_slots: "r_slots (left_room p r) = (r_slots r)[unat (pl_slot p) := 0]"
  by (simp add: left_room_def vacate_def Let_def)

lemma new_master_lowest:
  assumes "room_ok r" "player_count (left_room p r) \<noteq> 0" "master_slot r = pl_slot p"
  shows "r_slots (left_room p r) ! unat (master_slot (left_room p r)) \<noteq> 0 \<and>
    (\<forall>i < unat (master_slot (left_room p r)). r_slots (left_room p r) ! i = 0)"
proof -
  define v where "v = vacate (unat (pl_slot p)) r"
  have v: "r_slots (left_room p r) = r_slots v" by (simp add: left_room_slots v_def vacate_def)
  then have pc: "player_count v \<noteq> 0" using assms(2) by (simp add: player_count_def)
  then have "unat (of_nat (first_taken v) :: u32) = first_taken v"
    using vacated_ok [OF assms(1)] by (simp add: v_def)
  then have "unat (master_slot (left_room p r)) = first_taken v"
    using pc assms(3) by (simp add: left_room_def v_def Let_def)
  moreover have "r_slots v ! i = 0" if "i < first_taken v" for i
    using that nth_mem [of i "takeWhile (\<lambda>h. h = 0) (r_slots v)"]
    by (auto simp: first_taken_def takeWhile_nth dest: set_takeWhileD)
  ultimately show ?thesis using first_taken_slot(2) [OF pc] v by simp
qed

lemma leave_app_room:
  assumes "game_inv a" "map_of (m_players a) h = Some p" "current_room p = Some ref"
  shows "room_at (leave_app h a) ref = left_room p (room_at a ref)"
    "map_of (m_players (leave_app h a)) h = Some (p\<lparr>current_room := None, ready := False\<rparr>)"
    "m_rooms (leave_app h a) = (if player_count (left_room p (room_at a ref)) = 0
       then omap_del (ri_number (r_info (room_at a ref))) (m_rooms a) else m_rooms a)"
proof -
  have ref: "ref < length (room_store a)" using game_inv_player [OF assms(1,2)] assms(3) by (simp add: player_ok_def)
  have pc: "player_count (left_room p r) = player_count (vacate (unat (pl_slot p)) r)" for r
    by (simp add: player_count_def left_room_slots vacate_def)
  have m: "master_slot (vacate n r) = master_slot r" "r_info (vacate n r) = r_info r" for n r by (simp_all add: vacate_def)
  show "room_at (leave_app h a) ref = left_room p (room_at a ref)"
    using ref assms by (simp add: leave_app_def Let_def room_at_def left_room_def m)
  show "map_of (m_players (leave_app h a)) h = Some (p\<lparr>current_room := None, ready := False\<rparr>)"
    using assms by (simp add: leave_app_def Let_def map_of_omap_put)
  show "m_rooms (leave_app h a) = (if player_count (left_room p (room_at a ref)) = 0
       then omap_del (ri_number (r_info (room_at a ref))) (m_rooms a) else m_rooms a)"
    using assms by (simp add: leave_app_def Let_def pc m)
qed

lemma leave_sends:
  assumes "game_inv (m_app w)" "map_of (m_players (m_app w)) h = Some p" "current_room p = Some ref"
    and "player_count (left_room p (room_at (m_app w) ref)) \<noteq> 0" "x \<noteq> h" "x \<noteq> 0"
  defines "r \<equiv> room_at (m_app w) ref"
  shows "\<exists>n. sent_to (m_net (remove_from_room h k w)) x = sent_to (m_net w) x @
      replicate n (make_frame (leave_payload (p2p_group r) h)) @
      (if is_connected (m_net w) x
       then replicate (count_list (r_slots r) x) (make_frame (m_data (Room_Del_User_GSCL h (pl_slot p) 0))) @
         (if master_slot r = pl_slot p
          then replicate (count_list (r_slots r) x) (make_frame (m_data (New_RoomMaster_GSCL (master_slot (left_room p r)))))
          else [])
       else [])"
proof -
  have ok: "pl_host p = h" "unat (pl_slot p) < 8" "ref < length (room_store (m_app w))" "r_slots r ! unat (pl_slot p) = h"
    using game_inv_player [OF assms(1,2)] assms(3) by (simp_all add: player_ok_def r_def room_at_def)
  have len: "length (r_slots r) = 8" using game_inv_room [OF assms(1) ok(3)] by (simp add: room_ok_def r_def room_at_def)
  have c: "count_list ((r_slots r)[unat (pl_slot p) := 0]) x = count_list (r_slots r) x"
    using ok len assms(5,6) by (simp add: count_list_update_other)
  define w1 where "w1 = on_player h (\<lambda>p. p\<lparr>current_room := None, ready := False\<rparr>)
    (on_room ref (\<lambda>r. r\<lparr>r_slots := (r_slots r)[unat (pl_slot p) := 0]\<rparr>) w)"
  define w2 where "w2 = with_net (leave_p2p_group (p2p_group r) h) w1"
  define w3 where "w3 = (if k then send_player p (Kicked_Room_GSCL gscl_ok) w2 else w2)"
  define v where "v = vacate (unat (pl_slot p)) r"
  have at: "room_at (m_app w1) ref = v"
    using ok(3) assms(2) by (simp add: w1_def m_app_on_player m_app_on_room room_at_def v_def vacate_def r_def)
  have app: "m_app w2 = m_app w1" "m_app w3 = m_app w1" by (simp_all add: w2_def w3_def)
  have pv: "p2p_group v = p2p_group r" "r_slots v = (r_slots r)[unat (pl_slot p) := 0]" "master_slot v = master_slot r"
    by (simp_all add: v_def vacate_def)
  have pc: "player_count v \<noteq> 0" using assms(4) by (simp add: player_count_def left_room_slots pv r_def [symmetric])
  have rem: "remove_from_room h k w =
      (let w5 = send_room v (Room_Del_User_GSCL h (pl_slot p) 0) 0 w3 in
       if master_slot r = pl_slot p
       then send_room v (New_RoomMaster_GSCL (of_nat (first_taken v))) 0
              (on_room ref (\<lambda>r. r\<lparr>master_slot := of_nat (first_taken v)\<rparr>) w5)
       else w5)"
    using assms(2,3) at pc
    by (simp add: remove_from_room_def player_by_host_def Let_def w1_def [symmetric] pv(1,3) ok(1) w2_def [symmetric]
        w3_def app first_taken_def)
  obtain n where n: "sent_to (m_net w2) x = sent_to (m_net w) x @ replicate n (make_frame (leave_payload (p2p_group r) h))"
    using leave_group_notices [of "p2p_group r" h "m_net w1" x] by (auto simp: w2_def w1_def)
  have conn: "is_connected (m_net w3) x = is_connected (m_net w) x"
    using same_net_connected [OF leave_p2p_group_frame(1), of "p2p_group r" h "m_net w" x] by (simp add: w3_def w2_def w1_def)
  have kick: "sent_to (m_net w3) x = sent_to (m_net w2) x"
    using assms(5) by (simp add: w3_def sent_to_server_send ok(1))
  have new: "master_slot (left_room p r) = of_nat (first_taken v)" if "master_slot r = pl_slot p"
    using that pc by (simp add: left_room_def Let_def v_def)
  show ?thesis
    using n new c assms(6)
    by (intro exI [of _ n]) (simp add: rem Let_def sent_to_send_room conn kick pv(2))
qed

lemma destroy_group_gone: "map_of (m_groups (destroy_p2p_group g s)) g = None"
  by (auto simp: destroy_p2p_group_def release_host_id_def Let_def map_of_omap_del split: option.split)

lemma last_leaves_group:
  assumes "game_inv (m_app w)" "map_of (m_players (m_app w)) h = Some p" "current_room p = Some ref"
    and "player_count (left_room p (room_at (m_app w) ref)) = 0"
  shows "map_of (m_groups (m_net (remove_from_room h k w))) (p2p_group (room_at (m_app w) ref)) = None"
proof -
  have ref: "ref < length (room_store (m_app w))" using game_inv_player [OF assms(1,2)] assms(3) by (simp add: player_ok_def)
  have "player_count ((room_at (m_app w) ref)\<lparr>r_slots := (r_slots (room_at (m_app w) ref))[unat (pl_slot p) := 0]\<rparr>) = 0"
    using assms(4) by (simp add: player_count_def left_room_slots)
  then show ?thesis
    using assms(2,3) ref
    by (simp add: remove_from_room_def player_by_host_def Let_def m_app_on_player m_app_on_room room_at_def destroy_group_gone)
qed

section \<open>Entering\<close>

definition joined_player :: "room_ref \<Rightarrow> nat \<Rightarrow> player \<Rightarrow> player" where
  "joined_player ref slot p = p\<lparr>current_room := Some ref, pl_slot := of_nat slot, ready := False\<rparr>"

definition joined_room :: "host_id \<Rightarrow> nat \<Rightarrow> room \<Rightarrow> room" where
  "joined_room h slot r = r\<lparr>r_slots := (r_slots r)[slot := h]\<rparr>"

text \<open>Entering from another room is leaving it and entering from the lobby.\<close>

lemma remove_leaves:
  assumes "game_inv (m_app w)" "player_by_host (m_app w) h = Some p"
  obtains q where "player_by_host (m_app (remove_from_room h k w)) h = Some q" "current_room q = None"
  using assms leave_app_room(2) [OF assms(1)]
  by (cases "current_room p") (auto simp: m_app_remove player_by_host_def leave_app_def)

lemma join_after_leaving:
  assumes "game_inv (m_app w)"
  shows "join_room h ref w = join_room h ref (remove_from_room h False w)"
proof (cases "player_by_host (m_app w) h")
  case (Some p)
  then obtain q where "player_by_host (m_app (remove_from_room h False w)) h = Some q" "current_room q = None"
    using remove_leaves [OF assms] by blast
  then have "remove_from_room h False (remove_from_room h False w) = remove_from_room h False w" by (rule remove_lobby)
  then show ?thesis by (simp add: join_room_def)
qed (simp add: join_room_def remove_from_room_def)

lemma join_lobby:
  assumes p: "player_by_host (m_app w) h = Some p" "current_room p = None" "pl_host p = h"
    and ref: "ref < length (room_store (m_app w))" and slot: "free_slot (room_at (m_app w) ref) = Some slot"
  defines "r \<equiv> joined_room h slot (room_at (m_app w) ref)"
  defines "a \<equiv> (m_app w)\<lparr>room_store := (room_store (m_app w))[ref := r],
      m_players := omap_put h (joined_player ref slot p) (m_players (m_app w))\<rparr>"
  shows "m_app (join_room h ref w) = a"
    "x \<noteq> 0 \<Longrightarrow> \<exists>ps. sent_to (m_net (join_room h ref w)) x = sent_to (m_net w) x @
      (if \<not> is_connected (m_net w) x then []
       else if x = h then [make_frame (m_data (Enter_Room_GSCL (map member_of (players_in a r)) (map avatar_of (players_in a r))
         (master_slot r) (listed_info r) enter_ok))]
       else replicate (count_list (r_slots r) x)
         (make_frame (m_data (Room_Add_User_Avatar_GSCL (avatar_of (joined_player ref slot p))
           (member_of (joined_player ref slot p)))))) @
      join_notices (m_net w) (p2p_group r) ps"
proof -
  define w3 where "w3 = on_player h (\<lambda>_. joined_player ref slot p)
    (on_room ref (\<lambda>r. r\<lparr>r_slots := (r_slots r)[slot := h]\<rparr>) w)"
  have app: "m_app w3 = a"
    using p by (simp add: w3_def m_app_on_player m_app_on_room player_by_host_def a_def r_def joined_room_def)
  have net: "m_net w3 = m_net w" by (simp add: w3_def)
  have r: "room_at a ref = r" using ref by (simp add: a_def room_at_def)
  define w5 where "w5 = send_room r (Room_Add_User_Avatar_GSCL (avatar_of (joined_player ref slot p))
      (member_of (joined_player ref slot p))) h (send_player (joined_player ref slot p)
        (Enter_Room_GSCL (map member_of (players_in a r)) (map avatar_of (players_in a r))
          (master_slot r) (listed_info r) enter_ok) w3)"
  have ph: "pl_host (joined_player ref slot p) = h" using p by (simp add: joined_player_def)
  have eq: "join_room h ref w = with_net (join_p2p_group (p2p_group r) h) w5"
    using p slot unfolding join_room_def remove_lobby [OF p(1,2)]
    by (simp add: Let_def joined_player_def [symmetric] w3_def [symmetric] app r w5_def ph)
  show "m_app (join_room h ref w) = a" by (simp add: eq w5_def app)
  have guid: "m_instance_guid (m_net w5) = m_instance_guid (m_net w)"
    using same_net_guid [OF same_net_talks [OF talks_then [OF rtranclp.rtrancl_refl talking_send_room(1)]]]
    by (simp add: w5_def net same_net_guid [OF same_net_server_send])
  show "\<exists>ps. sent_to (m_net (join_room h ref w)) x = sent_to (m_net w) x @
      (if \<not> is_connected (m_net w) x then []
       else if x = h then [make_frame (m_data (Enter_Room_GSCL (map member_of (players_in a r)) (map avatar_of (players_in a r))
         (master_slot r) (listed_info r) enter_ok))]
       else replicate (count_list (r_slots r) x)
         (make_frame (m_data (Room_Add_User_Avatar_GSCL (avatar_of (joined_player ref slot p))
           (member_of (joined_player ref slot p)))))) @
      join_notices (m_net w) (p2p_group r) ps" if "x \<noteq> 0"
  proof -
    obtain ps where "sent_to (m_net (join_room h ref w)) x = sent_to (m_net w5) x @ join_notices (m_net w5) (p2p_group r) ps"
      using join_group_notices [of "p2p_group r" h "m_net w5" x] by (auto simp: eq)
    with that guid show ?thesis
      by (intro exI [of _ ps]) (simp add: w5_def sent_to_send_room sent_to_server_send net ph join_notices_def)
  qed
qed

text \<open>A free slot is still free after somebody has left a room.\<close>

lemma free_slot_iff: "free_slot r \<noteq> None \<longleftrightarrow> (\<exists>i < capacity r. r_slots r ! i = 0 \<and> \<not> r_closed r ! i)"
  by (auto simp: free_slot_def find_None_iff)

lemma free_slot_left:
  assumes "room_ok r" "free_slot r \<noteq> None"
  shows "free_slot (left_room p r) \<noteq> None"
proof -
  obtain i where "i < capacity r" "r_slots r ! i = 0" "\<not> r_closed r ! i" using assms(2) free_slot_iff by blast
  moreover have "capacity r \<le> 8" by (simp add: capacity_def room_slots_def)
  moreover have "capacity (left_room p r) = capacity r" "r_closed (left_room p r) = r_closed r"
    by (simp_all add: left_room_def vacate_def capacity_def Let_def)
  ultimately show ?thesis
    using assms(1) unfolding free_slot_iff
    by (intro exI [of _ i]) (cases "unat (pl_slot p) = i"; simp add: left_room_slots room_ok_def)
qed

lemma room_at_leave_other:
  "map_of (m_players a) h = Some p \<Longrightarrow> current_room p \<noteq> Some ref \<Longrightarrow> room_at (leave_app h a) ref = room_at a ref"
  by (auto simp: leave_app_def Let_def room_at_def split: option.split)

lemma free_slot_leave:
  assumes "game_inv a" "ref < length (room_store a)" "free_slot (room_at a ref) \<noteq> None"
  shows "free_slot (room_at (leave_app h a) ref) \<noteq> None"
proof (cases "map_of (m_players a) h")
  case (Some p)
  then show ?thesis
    using assms free_slot_left [OF game_inv_room [OF assms(1,2)]] leave_app_room(1) [OF assms(1) Some] room_at_leave_other [OF Some]
    by (cases "current_room p = Some ref") (auto simp: room_at_def)
qed (use assms in \<open>simp add: leave_app_def\<close>)

section \<open>Faults\<close>

lemma remove_fault [simp]: "gs_fault (m_app (remove_from_room h k w)) = gs_fault (m_app w)"
  by (simp add: remove_from_room_def m_app_on_player m_app_on_room Let_def split: option.split)

lemma join_fault:
  assumes "game_inv (m_app w)" "ref < length (room_store (m_app w))" "free_slot (room_at (m_app w) ref) \<noteq> None"
  shows "gs_fault (m_app (join_room h ref w)) = gs_fault (m_app w)"
proof -
  have "free_slot (room_at (m_app (remove_from_room h False w)) ref) \<noteq> None"
    using free_slot_leave [OF assms] by (simp add: m_app_remove assms(1))
  then show ?thesis
    by (auto simp: join_room_def Let_def m_app_on_player m_app_on_room split: option.split)
qed

text \<open>\<open>faultless f\<close>: the handler \<open>f\<close> never has undefined behaviour.\<close>

definition faultless :: "handler \<Rightarrow> bool" where
  "faultless f \<longleftrightarrow> (\<forall>p r w. game_inv (m_app w) \<longrightarrow> gs_fault (m_app (snd (f p r w))) = gs_fault (m_app w))"

lemma on_player_fault [simp]: "gs_fault (m_app (on_player h f w)) = gs_fault (m_app w)"
  by (simp add: m_app_on_player split: option.split)

lemma on_room_fault [simp]: "gs_fault (m_app (on_room ref f w)) = gs_fault (m_app w)"
  by (simp add: m_app_on_room)

lemma gm_close_fault [simp]: "gs_fault (m_app (fold (gm_close_step p ref) slots w)) = gs_fault (m_app w)"
  by (rule fold_world_inv [of "\<lambda>w'. gs_fault (m_app w') = gs_fault (m_app w)"])
    (auto simp: gm_close_step_def Let_def split: option.split)

lemmas fault_simps_all = faultless_def keep_simps

lemma rooms_faultless: "faultless enter_room" "faultless quick_join"
  by (auto simp: fault_simps_all enter_room_def quick_join_def find_Some_iff split: sum.split option.split
      intro!: join_fault intro: find_room_valid rooms_in_valid nth_mem)

lemma handlers_faultless_1:
  "faultless logout" "faultless room_list" "faultless room_request_member" "faultless room_chat"
  "faultless leave_room" "faultless enter_lobby" "faultless channel_list" "faultless enter_channel"
  "faultless leave_channel" "faultless change_channel" "faultless channel_total_room_number"
  "faultless channel_user_list" "faultless lobby_chat" "faultless team_chat" "faultless whisper_chat"
  "faultless cry"
  by (simp_all add: fault_simps_all
      logout_def room_list_def room_request_member_def room_chat_def leave_room_def enter_lobby_def
      channel_list_def enter_channel_def leave_channel_def change_channel_def channel_total_room_number_def
      channel_user_list_def lobby_chat_def team_chat_def whisper_chat_def cry_def
      split: sum.split option.split)

lemma handlers_faultless_2:
  "faultless change_map" "faultless change_type" "faultless change_lap" "faultless change_attribute"
  "faultless change_random_map" "faultless change_team" "faultless kick" "faultless close_slot"
  "faultless open_slot" "faultless mission" "faultless ready_game" "faultless start_game"
  "faultless game_ready"
  by (simp_all add: fault_simps_all
      change_map_def change_type_def change_lap_def change_attribute_def change_random_map_def change_team_def
      kick_def close_slot_def open_slot_def mission_def ready_game_def start_game_def game_ready_def
      split: sum.split option.split)

lemma handlers_faultless_3:
  "faultless room_connect_ok" "faultless save_score" "faultless goto_wait_room" "faultless change_comment"
  "faultless gm_close_room" "faultless select_character" "faultless update_avatar" "faultless select_avatar"
  "faultless delete_item" "faultless buy_item" "faultless ranking" "faultless rank_info_request"
  "faultless enter_nation" "faultless new_cash" "faultless check_error" "faultless ignore"
  by (simp_all add: fault_simps_all
      room_connect_ok_def save_score_def goto_wait_room_def change_comment_def gm_close_room_def
      select_character_def update_avatar_def select_avatar_def delete_item_def buy_item_def ranking_def
      rank_info_request_def enter_nation_def new_cash_def check_error_def ignore_def
      split: sum.split option.split)

lemma handlers_faultless:
  assumes "map_of m_handlers i = Some f" "i \<noteq> Create_Room_CLGS" "i \<noteq> UserKickRoom_GM_CLGS"
  shows "faultless f"
  using map_of_SomeD [OF assms(1)] assms(2,3)
  by (auto simp: m_handlers_def rooms_faultless handlers_faultless_1 handlers_faultless_2 handlers_faultless_3)

section \<open>Dispatch\<close>

lemma handler_of:
  "map_of m_handlers Create_Room_CLGS = Some create_room" "map_of m_handlers Enter_Room_CLGS = Some enter_room"
  "map_of m_handlers Change_Map_CLGS = Some change_map" "map_of m_handlers Change_Type_CLGS = Some change_type"
  "map_of m_handlers Change_Lap_CLGS = Some change_lap" "map_of m_handlers Change_Attribute_CLGS = Some change_attribute"
  "map_of m_handlers Change_RandomMap_CLGS = Some change_random_map" "map_of m_handlers Kicked_Room_CLGS = Some kick"
  "map_of m_handlers CloseSlot_Room_CLGS = Some close_slot" "map_of m_handlers OpenSlot_Room_CLGS = Some open_slot"
  "map_of m_handlers Start_Game_CLGS = Some start_game" "map_of m_handlers Lobby_Chat_CLGS = Some lobby_chat"
  "map_of m_handlers UserKickRoom_GM_CLGS = Some gm_kick"
  by (simp_all add: m_handlers_def clgs_defs)

lemma not_a_handler: "map_of m_handlers Logon_CLGS = None" "map_of m_handlers CL2GS_Test_CLGS = Some ignore"
  by (simp_all add: m_handlers_def clgs_defs)

lemma game_on_rmi_handler:
  assumes "map_of m_handlers i = Some f" "player_by_host (m_app w) client = Some p"
  shows "game_on_rmi client i r w = f p r w"
proof (cases "i = CL2GS_Test_CLGS")
  case True
  with assms(1) have "f = ignore" by (simp add: not_a_handler)
  with True show ?thesis by (simp add: game_on_rmi_def ignore_def Logon_CLGS_def CL2GS_Test_CLGS_def)
next
  case False
  have "i \<noteq> Logon_CLGS" using assms(1) not_a_handler(1) by auto
  with False assms show ?thesis by (simp add: game_on_rmi_def)
qed

text \<open>Messages that only the master may send\<close>

lemma master_only:
  assumes "\<not> is_master (m_app w) p" "f \<in> {change_map, change_type, change_lap, change_attribute, change_random_map,
    kick, close_slot, open_slot, start_game}"
  shows "snd (f p r w) = w"
proof -
  have u8: "snd (reading dec r w (\<lambda>v. as_master p (act v))) = w" for dec :: "u8 read" and act
    using assms(1) by (simp add: reading_def as_master_def split: sum.split)
  have u16: "snd (reading dec r w (\<lambda>v. as_master p (act v))) = w" for dec :: "u16 read" and act
    using assms(1) by (simp add: reading_def as_master_def split: sum.split)
  have u32: "snd (reading dec r w (\<lambda>v. as_master p (act v))) = w" for dec :: "u32 read" and act
    using assms(1) by (simp add: reading_def as_master_def split: sum.split)
  show ?thesis
    using assms(2) unfolding insert_iff empty_iff
    by (elim disjE)
      (simp_all only: u8 u16 u32 change_map_def change_type_def change_lap_def change_attribute_def change_random_map_def
        kick_def close_slot_def open_slot_def start_game_def)
qed

section \<open>Room numbers\<close>

lemma room_number_loop_None:
  "room_number_loop fuel n rooms = None \<Longrightarrow> i < fuel \<Longrightarrow> map_of rooms (n + of_nat i) \<noteq> None \<or> n + of_nat i = 0"
proof (induction fuel n rooms arbitrary: i rule: room_number_loop.induct)
  case (2 fuel n rooms)
  then show ?case
    by (cases i) (auto simp: algebra_simps split: if_splits)
qed simp

text \<open>The search fails when every number is taken only.\<close>

lemma room_number_free:
  assumes "room_number_loop (2 ^ 16) n rooms = None" "m \<noteq> 0"
  shows "map_of rooms m \<noteq> None"
proof -
  have "unat (m - n) < 2 ^ 16" using unsigned_less [of "m - n"] by simp
  then have "map_of rooms (n + of_nat (unat (m - n))) \<noteq> None \<or> n + of_nat (unat (m - n)) = 0"
    by (rule room_number_loop_None [OF assms(1)])
  with assms(2) show ?thesis by simp
qed

lemma room_number_exists:
  assumes "length rooms < 2 ^ 16 - 1"
  shows "\<exists>m. room_number_loop (2 ^ 16) n rooms = Some m"
proof (rule ccontr)
  assume "\<not> ?thesis"
  then have "room_number_loop (2 ^ 16) n rooms = None" by (cases "room_number_loop (2 ^ 16) n rooms") auto
  then have "UNIV - {0} \<subseteq> dom (map_of rooms)" using room_number_free by (auto simp del: room_number_loop.simps)
  then have "card (UNIV - {0 :: u16}) \<le> card (dom (map_of rooms))" by (intro card_mono finite_dom_map_of)
  also have "\<dots> \<le> length rooms"
    unfolding dom_map_of_conv_image_fst by (meson card_image_le card_length finite_set le_trans)
  finally show False using assms by (simp add: card_word)
qed

section \<open>Pages\<close>

lemma room_page_length: "length (room_page a c page) \<le> 8"
  by (simp add: room_page_def rooms_per_page_def)

lemma room_pages:
  "concat (map (room_page a c) [0..<n]) = map (\<lambda>ref. listed_info (room_at a ref)) (take (n * 8) (rooms_in a c))"
proof (induction n)
  case (Suc n)
  have "take (Suc n * 8) xs = take (n * 8) xs @ take 8 (drop (n * 8) xs)" for xs :: "room_ref list"
    using take_add [of "n * 8" 8 xs] by (simp add: add.commute)
  then show ?case using Suc by (simp add: room_page_def rooms_per_page_def)
qed simp

section \<open>Opening a room\<close>

lemma open_room_effect:
  assumes a: "game_inv (m_app w)" "player_by_host (m_app w) (pl_host p) = Some q"
    and n: "length (m_rooms (m_app w)) < 2 ^ 16 - 1" "length (m_groups (m_net w)) < 2 ^ 30"
  obtains n where "n \<noteq> 0" "map_of (m_rooms (m_app w)) n = None"
    "map_of (m_rooms (m_app (open_room p i w))) = (map_of (m_rooms (m_app w)))(n \<mapsto> length (room_store (m_app w)))"
    "r_info (room_at (m_app (open_room p i w)) (length (room_store (m_app w)))) = new_room_info n i"
    "r_channel (room_at (m_app (open_room p i w)) (length (room_store (m_app w)))) = pl_channel p"
    "r_slots (room_at (m_app (open_room p i w)) (length (room_store (m_app w)))) = pl_host p # replicate 7 0"
    "master_slot (room_at (m_app (open_room p i w)) (length (room_store (m_app w)))) = 0"
    "map_of (m_players (m_app (open_room p i w))) (pl_host p) =
       Some (q\<lparr>current_room := Some (length (room_store (m_app w))), pl_slot := 0, ready := False\<rparr>)"
    "gs_fault (m_app (open_room p i w)) = gs_fault (m_app w)"
proof -
  obtain m where m: "room_number_loop (2 ^ 16) (m_next_room_number (m_app w)) (m_rooms (m_app w)) = Some m"
    using room_number_exists [OF n(1)] by blast
  obtain grp s where c: "create_p2p_group [] (m_net w) = (grp, s)" by force
  have q: "map_of (m_players (m_app w)) (pl_host p) = Some q" using a(2) by (simp add: player_by_host_def)
  have b: "\<not> 2 ^ 30 \<le> length (m_groups (m_net w))" using n(2) by simp
  have s8: "(replicate room_slots 0)[0 := pl_host p] = pl_host p # replicate 7 0"
    by (simp add: room_slots_def eval_nat_numeral)
  show ?thesis
    by (rule that [of m])
      (use room_number_loop_Some [OF m] in \<open>simp_all only: open_room_def m c option.case prod.case Let_def b if_False s8\<close>,
       simp_all add: m_app_on_player q map_of_omap_put room_at_def fun_eq_iff)
qed

lemma new_room_capacity:
  assumes "r_info r = new_room_info n i"
  shows "1 \<le> capacity r \<and> capacity r \<le> 8"
  using assms
  by (auto simp: capacity_def new_room_info_def room_slots_def word_unat_eq_iff min_def)

text \<open>Leaving a room creates neither groups nor rooms.\<close>

lemma dom_groups_destroy: "dom (map_of (m_groups (destroy_p2p_group g s))) \<subseteq> dom (map_of (m_groups s))"
proof -
  have "dom (map_of (m_groups (fold (leave_p2p_group g) members s))) = dom (map_of (m_groups s))" for members
    by (induction members arbitrary: s) simp_all
  then show ?thesis
    by (auto simp: destroy_p2p_group_def release_host_id_def Let_def om.dom_erase split: option.split)
qed

lemma m_groups_send_room [simp]: "m_groups (m_net (send_room r m x w)) = m_groups (m_net w)"
  unfolding send_room_def by (rule fold_world_inv [of "\<lambda>w'. m_groups (m_net w') = m_groups (m_net w)"]) auto

lemma dom_groups_remove: "dom (map_of (m_groups (m_net (remove_from_room h k w)))) \<subseteq> dom (map_of (m_groups (m_net w)))"
proof -
  have d: "dom (map_of (m_groups (destroy_p2p_group g s))) \<subseteq> dom (map_of (m_groups (m_net w)))"
    if "dom (map_of (m_groups s)) = dom (map_of (m_groups (m_net w)))" for g s
    using dom_groups_destroy [of g s] that by simp
  show ?thesis
    by (simp add: remove_from_room_def Let_def split: option.split) (intro allI conjI impI d; simp)
qed

lemma fewer_groups:
  assumes "net_inv (m_net w)"
  shows "length (m_groups (m_net (remove_from_room h k w))) \<le> length (m_groups (m_net w))"
proof -
  have "net_inv (m_net (remove_from_room h k w))" using assms talkingD [OF talking_remove] by (metis net_inv_talks)
  then show ?thesis
    using assms dom_groups_remove [of h k w] om.card_entries [of "m_groups (m_net w)"]
      om.card_entries [of "m_groups (m_net (remove_from_room h k w))"]
    by (simp add: net_inv_def groups_ok_def) (meson card_mono finite_dom_map_of)
qed

lemma fewer_rooms: "game_inv (m_app w) \<Longrightarrow> length (m_rooms (m_app (remove_from_room h k w))) \<le> length (m_rooms (m_app w))"
  by (auto simp: m_app_remove leave_app_def Let_def length_omap_del split: option.split)

lemma create_room_fault:
  assumes "game_inv (m_app w)" "net_inv (m_net w)" "player_by_host (m_app w) (pl_host p) = Some p"
    and "length (m_rooms (m_app w)) < 2 ^ 16 - 1" "length (m_groups (m_net w)) < 2 ^ 30"
  shows "gs_fault (m_app (snd (create_room p r w))) = gs_fault (m_app w)"
proof -
  let ?w = "remove_from_room (pl_host p) False w"
  obtain q where q: "player_by_host (m_app ?w) (pl_host p) = Some q" using remove_leaves [OF assms(1,3)] by blast
  have "length (m_rooms (m_app ?w)) < 2 ^ 16 - 1" "length (m_groups (m_net ?w)) < 2 ^ 30"
    using fewer_rooms [OF assms(1)] fewer_groups [OF assms(2)] assms(4,5) by (meson le_less_trans)+
  then have "gs_fault (m_app (open_room p i ?w)) = gs_fault (m_app w)" for i
    using open_room_effect [OF remove_inv [OF assms(1)] q, of i] by (metis remove_fault)
  then show ?thesis
    by (simp add: create_room_def reading_def split: sum.split)
qed

lemma game_close_fault [simp]: "gs_fault (m_app (peer_close game_leave_sink h w)) = gs_fault (m_app w)"
  by (auto simp: peer_close_def Let_def game_leave_sink_def game_on_client_leave_def split: option.split)

lemma game_logon_fault: "gs_fault (m_app (game_logon client user password w)) = gs_fault (m_app w)"
  by (simp add: game_logon_def Let_def split: prod.split option.split)

section \<open>Anomalies\<close>

text \<open>Somebody alone in a listed room leaves it: no reference to the room is left.\<close>

lemma alone_count:
  assumes "\<forall>x \<in> set ((r_slots r)[unat (pl_slot p) := 0]). x = 0"
  shows "player_count (left_room p r) = 0"
  using assms player_count_pos [of "left_room p r"] by (auto simp: left_room_slots)

lemma alone_unlisted:
  assumes a: "game_inv a" "map_of (m_players a) h = Some p" "current_room p = Some ref" "map_of (m_rooms a) n = Some ref"
    and "\<forall>x \<in> set ((r_slots (room_at a ref))[unat (pl_slot p) := 0]). x = 0"
  shows "ref \<notin> ran (map_of (m_rooms (leave_app h a)))" "\<not> room_live ref (leave_app h a)"
proof -
  note ro = leave_app_room [OF a(1-3)] and inv = game_inv_leave [OF a(1), of h]
  have num: "m = ri_number (r_info (room_at a ref))" if "map_of (m_rooms a) m = Some ref" for m
    using game_inv_listed [OF a(1) that] by (simp add: listed_ok_def room_at_def)
  then show ran: "ref \<notin> ran (map_of (m_rooms (leave_app h a)))"
    using alone_count [OF assms(5)] by (auto simp: ro(3) ran_def map_of_omap_del split: if_splits)
  have pl: "current_room q \<noteq> Some ref" if "map_of (m_players (leave_app h a)) k = Some q" for k q
  proof
    assume q: "current_room q = Some ref"
    have ok: "k \<noteq> 0" "unat (pl_slot q) < 8" "ref < length (room_store (leave_app h a))"
      "r_slots (room_at (leave_app h a) ref) ! unat (pl_slot q) = k"
      using game_inv_player [OF inv that] q by (simp_all add: player_ok_def room_at_def)
    have "length (r_slots (room_at (leave_app h a) ref)) = 8"
      using game_inv_room [OF inv ok(3)] by (simp add: room_ok_def room_at_def)
    then have "k \<in> set (r_slots (room_at (leave_app h a) ref))" using ok(2,4) nth_mem by metis
    then show False using assms(5) ok(1) by (simp add: ro(1) left_room_slots)
  qed
  have d: "distinct (map fst (m_players (leave_app h a)))" "distinct (map fst (m_rooms (leave_app h a)))"
    using inv by (simp_all add: game_inv_def omap_ok_distinct)
  have "(k, ref) \<notin> set (m_rooms (leave_app h a))" for k
    using ran map_of_is_SomeI [OF d(2)] by (fastforce simp: ran_def)
  moreover have "current_room q \<noteq> Some ref" if "(k, q) \<in> set (m_players (leave_app h a))" for k q
    using pl [OF map_of_is_SomeI [OF d(1) that]] .
  ultimately show "\<not> room_live ref (leave_app h a)"
    unfolding room_live_def by force
qed

lemma dom_groups_join_room:
  "player_by_host (m_app w) h = Some p \<Longrightarrow> current_room p = None \<Longrightarrow>
   dom (map_of (m_groups (m_net (join_room h ref w)))) = dom (map_of (m_groups (m_net w)))"
  by (simp add: join_room_def remove_lobby Let_def split: option.split)

lemma rejoin_alone:
  assumes a: "game_inv (m_app w)" "player_by_host (m_app w) h = Some p" "current_room p = Some ref"
      "map_of (m_rooms (m_app w)) n = Some ref"
    and alone: "\<forall>x \<in> set ((r_slots (room_at (m_app w) ref))[unat (pl_slot p) := 0]). x = 0"
    and free: "free_slot (room_at (m_app w) ref) \<noteq> None"
  defines "w' \<equiv> join_room h ref w"
  shows "\<exists>q. player_by_host (m_app w') h = Some q \<and> current_room q = Some ref" "ref \<notin> ran (map_of (m_rooms (m_app w')))"
    "map_of (m_groups (m_net w')) (p2p_group (room_at (m_app w) ref)) = None"
proof -
  define v where "v = remove_from_room h False w"
  have p: "map_of (m_players (m_app w)) h = Some p" using a(2) by (simp add: player_by_host_def)
  have app: "m_app v = leave_app h (m_app w)" by (simp add: v_def m_app_remove a(1))
  have ref: "ref < length (room_store (m_app w))" using game_inv_player [OF a(1) p] a(3) by (simp add: player_ok_def)
  obtain q where q: "player_by_host (m_app v) h = Some q" "current_room q = None"
    using remove_leaves [OF a(1,2)] unfolding v_def by blast
  have qh: "pl_host q = h"
    using game_inv_player [OF remove_inv [OF a(1)]] q(1) by (simp add: player_by_host_def player_ok_def v_def)
  obtain slot where slot: "free_slot (room_at (m_app v) ref) = Some slot"
    using free_slot_leave [OF a(1) ref free] app by auto
  have w': "w' = join_room h ref v" unfolding w'_def v_def by (rule join_after_leaving [OF a(1)])
  have j: "m_app w' = (m_app v)\<lparr>room_store := (room_store (m_app v))[ref := joined_room h slot (room_at (m_app v) ref)],
      m_players := omap_put h (joined_player ref slot q) (m_players (m_app v))\<rparr>"
    unfolding w' by (rule join_lobby(1) [OF q qh _ slot]) (use ref app in simp)
  show "\<exists>q. player_by_host (m_app w') h = Some q \<and> current_room q = Some ref"
    by (simp add: j player_by_host_def map_of_omap_put joined_player_def)
  show "ref \<notin> ran (map_of (m_rooms (m_app w')))" using alone_unlisted(1) [OF a(1) p a(3,4) alone] by (simp add: j app)
  show "map_of (m_groups (m_net w')) (p2p_group (room_at (m_app w) ref)) = None"
    using last_leaves_group [OF a(1) p a(3) alone_count [OF alone], of False] dom_groups_join_room [OF q, of ref]
    by (metis domIff w' v_def)
qed

lemma second_logon:
  assumes "login user password (gs_accounts (m_app w)) = (login_ok, accounts)" "find_account accounts user = Some acc"
    "other_login user client w = None"
  shows "is_connected (m_net w) client \<Longrightarrow> find_peer (m_net (peer_close game_sink client (game_logon client user password w))) client = None"
    "is_connected (m_net w) client \<Longrightarrow>
      player_by_host (m_app (peer_close game_sink client (game_logon client user password w))) client = None"
    "room_store (m_app (peer_close game_sink client (game_logon client user password w))) = room_store (m_app w)"
    "m_rooms (m_app (peer_close game_sink client (game_logon client user password w))) = m_rooms (m_app w)"
proof -
  have o: "other_login user client (with_app (\<lambda>a. a\<lparr>gs_accounts := accounts\<rparr>) w) = None"
    using assms(3) by (simp add: other_login_def)
  define v where "v = game_logon client user password w"
  have app: "m_app v = (m_app w)\<lparr>gs_accounts := accounts, m_players := omap_put client (player_new client acc user) (m_players (m_app w))\<rparr>"
    by (simp add: v_def game_logon_def assms o Let_def)
  have peer: "is_connected (m_net v) client" if "is_connected (m_net w) client"
    using that by (auto simp: v_def game_logon_def assms o Let_def is_connected_def find_on_peer)
  show "is_connected (m_net w) client \<Longrightarrow> find_peer (m_net (peer_close game_sink client (game_logon client user password w))) client = None"
    using peer by (auto simp: v_def [symmetric] is_connected_def intro: game.close_forgets)
  have rm: "remove_from_room client False (with_net f v) = with_net f v" for f
    by (rule remove_lobby [where p = "player_new client acc user"]) (simp_all add: app player_by_host_def map_of_omap_put player_new_def)
  show "is_connected (m_net w) client \<Longrightarrow>
      player_by_host (m_app (peer_close game_sink client (game_logon client user password w))) client = None"
    using peer
    by (auto simp: v_def [symmetric] is_connected_def peer_close_def Let_def game_sink_def game_on_client_leave_def rm
        player_by_host_def app map_of_omap_put map_of_omap_del)
  show "room_store (m_app (peer_close game_sink client (game_logon client user password w))) = room_store (m_app w)"
    "m_rooms (m_app (peer_close game_sink client (game_logon client user password w))) = m_rooms (m_app w)"
    by (auto simp: v_def [symmetric] peer_close_def Let_def game_sink_def game_on_client_leave_def rm app split: option.split)
qed

lemma gm_kick_skips:
  "(\<And>x. x \<in> set xs \<Longrightarrow> player_by_host (m_app w) (r_slots (room_at (m_app w) ref) ! x) = None) \<Longrightarrow>
   gm_kick_loop ref nick (xs @ ys) w = gm_kick_loop ref nick ys w"
  by (induction xs) simp_all

lemma gm_kick_alone:
  assumes a: "game_inv (m_app w)" "player_by_host (m_app w) h = Some p" "current_room p = Some ref"
    and alone: "\<forall>x \<in> set ((r_slots (room_at (m_app w) ref))[unat (pl_slot p) := 0]). x = 0"
    and n: "map_of (m_rooms (m_app w)) n = Some ref" "unat (pl_slot p) < 7"
  shows "gs_fault (m_app (gm_kick_loop ref (nickname p) [0..<8] w)) =
    (case gs_fault (m_app w) of None \<Rightarrow> Some use_after_free | Some x \<Rightarrow> Some x)"
proof -
  let ?i = "unat (pl_slot p)"
  have p: "map_of (m_players (m_app w)) h = Some p" using a(2) by (simp add: player_by_host_def)
  have ok: "ref < length (room_store (m_app w))" "r_slots (room_at (m_app w) ref) ! ?i = h"
    using game_inv_player [OF a(1) p] a(3) by (simp_all add: player_ok_def room_at_def)
  have len: "length (r_slots (room_at (m_app w) ref)) = 8"
    using game_inv_room [OF a(1) ok(1)] by (simp add: room_ok_def room_at_def)
  have split: "[0..<8] = [0..<?i] @ ?i # [Suc ?i..<8]"
    using n(2) upt_add_eq_append [of 0 ?i "8 - ?i"] upt_conv_Cons [of ?i 8] by simp
  have "player_by_host (m_app w) (r_slots (room_at (m_app w) ref) ! x) = None" if "x < ?i" for x
  proof -
    have "r_slots (room_at (m_app w) ref) ! x = (r_slots (room_at (m_app w) ref))[?i := 0] ! x" using that by simp
    also have "\<dots> = 0" using alone nth_mem [of x "(r_slots (room_at (m_app w) ref))[?i := 0]"] that len n(2) by simp
    finally show ?thesis using game_inv_player [OF a(1), of 0] by (cases "map_of (m_players (m_app w)) 0") (auto simp: player_by_host_def player_ok_def)
  qed
  then have "gm_kick_loop ref (nickname p) [0..<8] w = gm_kick_loop ref (nickname p) (?i # [Suc ?i..<8]) w"
    unfolding split by (intro gm_kick_skips) simp
  also have "\<dots> = fault use_after_free (remove_from_room h True w)"
    using ok(2) a(2) n(2) alone_unlisted(2) [OF a(1) p a(3) n(1) alone] by (simp add: m_app_remove a(1))
  finally show ?thesis by (simp add: fault_def)
qed

end
