(* ===== verification/Game_Presence.thy ===== *)
theory Game_Presence
  imports Game_Rooms
begin

text \<open>
  Who is logged in to the game server. Every player has a connection past the handshake, and no two
  players have the same account. The handlers keep both, since they leave the accounts of the players
  alone; a logon drops the older connection, and a closed connection loses its player.
\<close>

section \<open>The accounts of the players\<close>

definition accounts_of :: "game_app \<Rightarrow> host_id \<Rightarrow> account option" where
  "accounts_of a h = map_option pl_account (map_of (m_players a) h)"

definition roster :: "game_app \<Rightarrow> (host_id \<Rightarrow> account option) \<times> account_store" where
  "roster a = (accounts_of a, gs_accounts a)"

lemma roster_on_player [simp]:
  "(\<And>p. pl_account (f p) = pl_account p) \<Longrightarrow> roster (m_app (on_player h f w)) = roster (m_app w)"
  by (auto simp: roster_def accounts_of_def m_app_on_player map_of_omap_put fun_eq_iff split: option.split)

lemma roster_on_room [simp]: "roster (m_app (on_room ref f w)) = roster (m_app w)"
  by (simp add: roster_def accounts_of_def m_app_on_room fun_eq_iff)

lemma roster_fault [simp]: "roster (m_app (fault f w)) = roster (m_app w)"
  by (simp add: roster_def accounts_of_def fault_def fun_eq_iff)

lemma roster_rooms [simp]:
  "roster (a\<lparr>m_rooms := x\<rparr>) = roster a"
  "roster (a\<lparr>m_next_room_number := n, m_rooms := x, room_store := y\<rparr>) = roster a"
  by (simp_all add: roster_def accounts_of_def fun_eq_iff)

lemma roster_remove [simp]: "roster (m_app (remove_from_room h k w)) = roster (m_app w)"
  by (simp add: remove_from_room_def Let_def split: option.split)

lemma roster_join [simp]: "roster (m_app (join_room h ref w)) = roster (m_app w)"
proof -
  have put: "roster (m_app (on_player h (\<lambda>_. p\<lparr>current_room := x, pl_slot := y, ready := z\<rparr>) (on_room ref f v))) = roster (m_app v)"
    if "player_by_host (m_app v) h = Some p" for p x y z f and v :: game_world
    using that
    by (auto simp: roster_def accounts_of_def m_app_on_player m_app_on_room map_of_omap_put player_by_host_def fun_eq_iff)
  show ?thesis
    by (simp add: join_room_def Let_def put split: option.split)
qed

lemma roster_open [simp]: "roster (m_app (open_room p i w)) = roster (m_app w)"
proof -
  obtain grp s where c: "create_p2p_group [] (m_net w) = (grp, s)" by force
  show ?thesis unfolding open_room_def c prod.case Let_def by (simp split: option.split)
qed

lemma roster_gm [simp]:
  "roster (m_app (gm_kick_loop ref nick slots w)) = roster (m_app w)"
  "roster (m_app (fold (gm_close_step p ref) slots w)) = roster (m_app w)"
proof -
  show "roster (m_app (gm_kick_loop ref nick slots w)) = roster (m_app w)"
    by (induction ref nick slots w rule: gm_kick_loop.induct) (auto simp: Let_def split: option.split)
  show "roster (m_app (fold (gm_close_step p ref) slots w)) = roster (m_app w)"
    by (rule fold_world_inv [of "\<lambda>w'. roster (m_app w') = roster (m_app w)"])
      (auto simp: gm_close_step_def Let_def split: option.split)
qed

definition keeps_roster :: "handler \<Rightarrow> bool" where
  "keeps_roster f \<longleftrightarrow> (\<forall>p r w. roster (m_app (snd (f p r w))) = roster (m_app w))"

lemmas roster_simps = keeps_roster_def keep_simps

lemma handlers_roster_1:
  "keeps_roster logout" "keeps_roster room_list" "keeps_roster room_request_member" "keeps_roster room_chat"
  "keeps_roster leave_room" "keeps_roster enter_lobby" "keeps_roster channel_list"
  "keeps_roster enter_channel" "keeps_roster leave_channel" "keeps_roster change_channel"
  "keeps_roster channel_total_room_number" "keeps_roster channel_user_list" "keeps_roster lobby_chat"
  "keeps_roster team_chat" "keeps_roster whisper_chat" "keeps_roster cry" "keeps_roster create_room"
  "keeps_roster enter_room" "keeps_roster quick_join"
  by (simp_all add: roster_simps
      logout_def room_list_def room_request_member_def room_chat_def leave_room_def enter_lobby_def
      channel_list_def enter_channel_def leave_channel_def change_channel_def channel_total_room_number_def
      channel_user_list_def lobby_chat_def team_chat_def whisper_chat_def cry_def create_room_def
      enter_room_def quick_join_def
      split: sum.split option.split)

lemma handlers_roster_2:
  "keeps_roster change_map" "keeps_roster change_type" "keeps_roster change_lap"
  "keeps_roster change_attribute" "keeps_roster change_random_map" "keeps_roster change_team"
  "keeps_roster kick" "keeps_roster close_slot" "keeps_roster open_slot" "keeps_roster mission"
  "keeps_roster ready_game" "keeps_roster start_game" "keeps_roster game_ready"
  by (simp_all add: roster_simps
      change_map_def change_type_def change_lap_def change_attribute_def change_random_map_def change_team_def
      kick_def close_slot_def open_slot_def mission_def ready_game_def start_game_def game_ready_def
      split: sum.split option.split)

lemma handlers_roster_3:
  "keeps_roster room_connect_ok" "keeps_roster save_score" "keeps_roster goto_wait_room"
  "keeps_roster change_comment" "keeps_roster gm_close_room" "keeps_roster gm_kick"
  "keeps_roster select_character" "keeps_roster update_avatar" "keeps_roster select_avatar"
  "keeps_roster delete_item" "keeps_roster buy_item" "keeps_roster ranking" "keeps_roster rank_info_request"
  "keeps_roster enter_nation" "keeps_roster new_cash" "keeps_roster check_error" "keeps_roster ignore"
  by (simp_all add: roster_simps
      room_connect_ok_def save_score_def goto_wait_room_def change_comment_def gm_close_room_def gm_kick_def
      select_character_def update_avatar_def select_avatar_def delete_item_def buy_item_def ranking_def
      rank_info_request_def enter_nation_def new_cash_def check_error_def ignore_def
      split: sum.split option.split)

lemma handlers_roster: "map_of m_handlers i = Some f \<Longrightarrow> keeps_roster f"
  by (drule map_of_SomeD) (auto simp: m_handlers_def handlers_roster_1 handlers_roster_2 handlers_roster_3)

lemma accounts_of_leave: "accounts_of (m_app (game_on_client_leave h w)) = (accounts_of (m_app w))(h := None)"
  and gs_accounts_leave: "gs_accounts (m_app (game_on_client_leave h w)) = gs_accounts (m_app w)"
proof -
  have "roster (m_app (remove_from_room h False w)) = roster (m_app w)" by simp
  then have r: "accounts_of (m_app (remove_from_room h False w)) = accounts_of (m_app w)"
    "gs_accounts (m_app (remove_from_room h False w)) = gs_accounts (m_app w)"
    unfolding roster_def by simp_all
  show "accounts_of (m_app (game_on_client_leave h w)) = (accounts_of (m_app w))(h := None)"
  proof (cases "player_by_host (m_app w) h")
    case (Some p)
    then have "accounts_of (m_app (game_on_client_leave h w)) = (accounts_of (m_app (remove_from_room h False w)))(h := None)"
      by (simp add: game_on_client_leave_def accounts_of_def map_of_omap_del fun_eq_iff)
    with r(1) show ?thesis by simp
  qed (simp add: game_on_client_leave_def accounts_of_def player_by_host_def fun_eq_iff)
  show "gs_accounts (m_app (game_on_client_leave h w)) = gs_accounts (m_app w)"
    using r(2) by (simp add: game_on_client_leave_def split: option.split)
qed

section \<open>One connection per account\<close>

definition one_each :: "(host_id \<Rightarrow> account option) \<Rightarrow> bool" where
  "one_each f \<longleftrightarrow> (\<forall>h k a b. f h = Some a \<and> f k = Some b \<and> acc_username a = acc_username b \<longrightarrow> h = k)"

definition present_inv :: "game_world \<Rightarrow> bool" where
  "present_inv w \<longleftrightarrow> game_inv (m_app w) \<and> store_ok (m_accounts (gs_accounts (m_app w))) \<and>
     dom (accounts_of (m_app w)) \<subseteq> settled (m_net w) \<and> one_each (accounts_of (m_app w))"

lemma settled_connected:
  assumes "h \<in> settled s" "no_closed s"
  shows "is_connected s h"
proof -
  obtain p where p: "find_peer s h = Some p" "2 \<le> rank (m_state p)" using assms(1) by (auto simp: settled_def)
  have "m_state p \<noteq> closed" using assms(2) p(1) by (simp add: no_closed_def)
  with p(2) have "m_state p = connected" by (cases "m_state p") simp_all
  with p(1) show ?thesis by (simp add: is_connected_def)
qed

lemma one_each_del: "one_each f \<Longrightarrow> one_each (f(h := None))"
  unfolding one_each_def fun_upd_apply by (auto split: if_splits)

lemma one_each_put:
  assumes "one_each f" "\<And>h b. f h = Some b \<Longrightarrow> h \<noteq> client \<Longrightarrow> acc_username b \<noteq> acc_username a"
  shows "one_each (f(client \<mapsto> a))"
  using assms unfolding one_each_def fun_upd_apply by (metis option.inject)

text \<open>A connection that is closed takes its player along and nobody else.\<close>

lemma close_other_find:
  assumes "k \<noteq> h"
  shows "map_option quiet (find_peer (m_net (peer_close game_leave_sink h w)) k) = map_option quiet (find_peer (m_net w) k)"
proof (cases "\<exists>p. find_peer (m_net w) h = Some p \<and> m_state p \<noteq> closed")
  case True
  then obtain p where p: "find_peer (m_net w) h = Some p" "m_state p \<noteq> closed" by blast
  define w1 where "w1 = with_net (mark_closed h) w"
  define w2 where "w2 = (if m_state p = connected then game_on_client_leave h w1 else w1)"
  have "talk\<^sup>*\<^sup>* (mark_closed h (m_net w)) (m_net w2)" using game_leave_talks [of w1 h] by (simp add: w2_def w1_def)
  moreover have "peer_close game_leave_sink h w = with_net (on_peer_closed h) w2"
    using p by (simp add: peer_close_def game_leave_sink_def w1_def w2_def Let_def)
  ultimately show ?thesis using find_close [of h "m_net w" "m_net w2" k] assms by simp
next
  case False
  then have "peer_close game_leave_sink h w = w" by (auto simp: peer_close_def split: option.split)
  then show ?thesis by simp
qed

lemma close_presence:
  assumes "dom (accounts_of (m_app w)) \<subseteq> settled (m_net w)" "find_peer (m_net w) h = Some p" "m_state p \<noteq> closed"
  defines "w' \<equiv> peer_close game_leave_sink h w"
  shows "settled (m_net w) - {h} \<subseteq> settled (m_net w')" "accounts_of (m_app w') = (accounts_of (m_app w))(h := None)"
    "gs_accounts (m_app w') = gs_accounts (m_app w)"
proof -
  define w1 where "w1 = with_net (mark_closed h) w"
  define w2 where "w2 = (if m_state p = connected then game_on_client_leave h w1 else w1)"
  have w': "w' = with_net (on_peer_closed h) w2"
    using assms(2,3) by (simp add: w'_def peer_close_def game_leave_sink_def w1_def w2_def Let_def)
  show "gs_accounts (m_app w') = gs_accounts (m_app w)"
    by (simp add: w' w2_def w1_def gs_accounts_leave)
  have find: "map_option quiet (find_peer (m_net w') k) = map_option quiet (find_peer (m_net w) k)" if "k \<noteq> h" for k
    unfolding w'_def using that by (rule close_other_find)
  show "settled (m_net w) - {h} \<subseteq> settled (m_net w')"
  proof
    fix k assume "k \<in> settled (m_net w) - {h}"
    then obtain q where q: "k \<noteq> h" "find_peer (m_net w) k = Some q" "2 \<le> rank (m_state q)" by (auto simp: settled_def)
    with find obtain q' where "find_peer (m_net w') k = Some q'" "quiet q' = quiet q" by fastforce
    with q(3) quiet_eqD(2) show "k \<in> settled (m_net w')" by (fastforce simp: settled_def)
  qed
  have "accounts_of (m_app w) h = None" if "m_state p \<noteq> connected"
  proof -
    have "\<not> 2 \<le> rank (m_state p)" using that assms(3) by (cases "m_state p") simp_all
    then have "h \<notin> settled (m_net w)" using assms(2) by (simp add: settled_def)
    then show ?thesis using assms(1) by blast
  qed
  then show "accounts_of (m_app w') = (accounts_of (m_app w))(h := None)"
    by (auto simp: w' w2_def w1_def accounts_of_leave fun_eq_iff)
qed

lemma close_present:
  assumes "present_inv w"
  shows "present_inv (peer_close game_leave_sink h w)"
proof (cases "\<exists>p. find_peer (m_net w) h = Some p \<and> m_state p \<noteq> closed")
  case True
  then obtain p where p: "find_peer (m_net w) h = Some p" "m_state p \<noteq> closed" by blast
  note c = close_presence [OF _ p]
  show ?thesis
    using assms c game_close_inv [of w h] one_each_del [of "accounts_of (m_app w)" h]
    by (auto simp: present_inv_def)
next
  case False
  then have "peer_close game_leave_sink h w = w" by (auto simp: peer_close_def split: option.split)
  with assms show ?thesis by simp
qed

lemma find_SomeD: "List.find P xs = Some x \<Longrightarrow> x \<in> set xs \<and> P x"
  by (auto simp: find_Some_iff)

lemma other_login_cases:
  assumes "omap_ok (m_players (m_app w))"
  shows "other_login user client w = Some h \<Longrightarrow>
      (\<exists>a. accounts_of (m_app w) h = Some a \<and> acc_username a = user) \<and> h \<noteq> client \<and> find_peer (m_net w) h \<noteq> None"
    "other_login user client w = None \<Longrightarrow> accounts_of (m_app w) k = Some a \<Longrightarrow> k \<noteq> client \<Longrightarrow>
      find_peer (m_net w) k \<noteq> None \<Longrightarrow> acc_username a \<noteq> user"
proof -
  have d: "distinct (map fst (m_players (m_app w)))" using assms by (rule omap_ok_distinct)
  show "(\<exists>a. accounts_of (m_app w) h = Some a \<and> acc_username a = user) \<and> h \<noteq> client \<and> find_peer (m_net w) h \<noteq> None"
    if o: "other_login user client w = Some h"
  proof -
    obtain p where f: "List.find (\<lambda>(host, p). acc_username (pl_account p) = user \<and> host \<noteq> client \<and>
          find_peer (m_net w) host \<noteq> None) (m_players (m_app w)) = Some (h, p)"
      using o unfolding other_login_def by auto
    from find_SomeD [OF f] show ?thesis using map_of_is_SomeI [OF d] by (auto simp: accounts_of_def)
  qed
  show "acc_username a \<noteq> user"
    if none: "other_login user client w = None" and acc: "accounts_of (m_app w) k = Some a" and others: "k \<noteq> client" "find_peer (m_net w) k \<noteq> None"
  proof
    assume u: "acc_username a = user"
    obtain p where p: "map_of (m_players (m_app w)) k = Some p" "pl_account p = a" using acc by (auto simp: accounts_of_def)
    then have "(k, p) \<in> set (m_players (m_app w))" by (blast dest: map_of_SomeD)
    with none others p(2) u show False unfolding other_login_def by (fastforce simp: find_None_iff)
  qed
qed

lemma send_present [simp]: "present_inv (client_send h m w) = present_inv w"
proof -
  have "talk (m_net w) (m_net (client_send h m w))" by (simp add: talk_send)
  then have "settled (m_net (client_send h m w)) = settled (m_net w)" by (intro settled_talks) (rule r_into_rtranclp)
  then show ?thesis by (simp add: present_inv_def)
qed

text \<open>After the older connection of a user is dropped, nobody but the new client can have the user's account.\<close>

lemma drop_older:
  fixes user :: str
  assumes w: "present_inv w" "no_closed (m_net w)" "is_connected (m_net w) client"
  defines "w' \<equiv> (case other_login user client w of None \<Rightarrow> w
    | Some host \<Rightarrow> peer_close game_leave_sink host (client_send host (Forced_Close_GSCL 2) w))"
  shows "present_inv w'" "client \<in> settled (m_net w')"
    "accounts_of (m_app w') h = Some b \<Longrightarrow> h \<noteq> client \<Longrightarrow> acc_username b \<noteq> user" "gs_accounts (m_app w') = gs_accounts (m_app w)"
proof -
  have o: "omap_ok (m_players (m_app w))" using w(1) by (simp add: present_inv_def game_inv_def)
  have c: "client \<in> settled (m_net w)" using w(3) by (auto simp: settled_def is_connected_def)
  have "present_inv w' \<and> client \<in> settled (m_net w') \<and>
    (accounts_of (m_app w') h = Some b \<longrightarrow> h \<noteq> client \<longrightarrow> acc_username b \<noteq> user) \<and> gs_accounts (m_app w') = gs_accounts (m_app w)"
  proof (cases "other_login user client w")
    case None
    have "find_peer (m_net w) k \<noteq> None" if "accounts_of (m_app w) k = Some a" for k a
      using w(1) that by (auto simp: present_inv_def settled_def)
    with None other_login_cases(2) [OF o None] w(1) c show ?thesis by (simp add: w'_def)
  next
    case (Some host)
    define v where "v = client_send host (Forced_Close_GSCL 2) w"
    from other_login_cases(1) [OF o Some] obtain a q where host: "accounts_of (m_app w) host = Some a" "acc_username a = user"
      "host \<noteq> client" "find_peer (m_net w) host = Some q" by blast
    have v: "present_inv v" "m_app v = m_app w" using w(1) by (simp_all add: v_def)
    obtain p where p: "find_peer (m_net v) host = Some p" "m_state p \<noteq> closed"
      using host(4) w(2) by (auto simp: v_def find_on_peer no_closed_def)
    have cv: "client \<in> settled (m_net v)" using w(3) by (auto simp: v_def settled_def is_connected_def find_on_peer host(3))
    have dom: "dom (accounts_of (m_app v)) \<subseteq> settled (m_net v)" using v(1) by (simp add: present_inv_def)
    have w': "w' = peer_close game_leave_sink host v" by (simp add: w'_def Some v_def)
    have "client \<in> settled (m_net w')" using close_presence(1) [OF dom p] cv host(3) by (auto simp: w')
    moreover have "acc_username b \<noteq> user" if "accounts_of (m_app w') h = Some b"
      using that close_presence(2) [OF dom p] host(1,2) w(1) v(2) by (auto simp: w' present_inv_def one_each_def split: if_splits)
    ultimately show ?thesis using close_present [OF v(1), of host] close_presence(3) [OF dom p] v(2) by (simp add: w')
  qed
  then show "present_inv w'" "client \<in> settled (m_net w')"
    "accounts_of (m_app w') h = Some b \<Longrightarrow> h \<noteq> client \<Longrightarrow> acc_username b \<noteq> user" "gs_accounts (m_app w') = gs_accounts (m_app w)"
    by blast+
qed

lemma present_login:
  assumes "present_inv w" "client \<in> settled (m_net w)" "client \<noteq> 0"
    and "\<And>h b. accounts_of (m_app w) h = Some b \<Longrightarrow> h \<noteq> client \<Longrightarrow> acc_username b \<noteq> acc_username a"
  shows "present_inv (with_app (\<lambda>x. x\<lparr>m_players := omap_put client (player_new client a user) (m_players x)\<rparr>) w)"
proof -
  let ?w = "with_app (\<lambda>x. x\<lparr>m_players := omap_put client (player_new client a user) (m_players x)\<rparr>) w"
  have "accounts_of (m_app ?w) = (accounts_of (m_app w))(client \<mapsto> a)"
    by (auto simp: accounts_of_def map_of_omap_put player_new_def fun_eq_iff)
  moreover have "game_inv (m_app ?w)"
    using game_inv_put_player [OF _ player_new_ok [OF assms(3)]] assms(1) by (simp add: present_inv_def)
  ultimately show ?thesis
    using assms(1,2) one_each_put [OF _ assms(4)] by (auto simp: present_inv_def)
qed

lemma logon_present:
  assumes w: "present_inv w" "no_closed (m_net w)" "is_connected (m_net w) client" "client \<noteq> 0"
  shows "present_inv (game_logon client user password w)"
proof -
  obtain result accounts where l: "login user password (gs_accounts (m_app w)) = (result, accounts)" by force
  define w1 where "w1 = with_app (\<lambda>a. a\<lparr>gs_accounts := accounts\<rparr>) w"
  have acc: "accounts_of (m_app w1) = accounts_of (m_app w)" by (simp add: w1_def accounts_of_def fun_eq_iff)
  have ok: "store_ok (m_accounts accounts)"
    using store_ok_login [of "gs_accounts (m_app w)" user password] l w(1) by (simp add: present_inv_def)
  have w1: "present_inv w1" using w(1) ok acc by (simp add: present_inv_def w1_def)
  have net: "no_closed (m_net w1)" "is_connected (m_net w1) client" using w(2,3) by (simp_all add: w1_def)
  show ?thesis
  proof (cases "result = login_ok \<and> find_account accounts user \<noteq> None")
    case True
    then obtain a where a: "find_account accounts user = Some a" by blast
    then have name: "acc_username a = user" using ok by (simp add: store_ok_def find_account_def)
    note d = drop_older [OF w1 net, of user]
    have "present_inv (with_app (\<lambda>x. x\<lparr>m_players := omap_put client (player_new client a user) (m_players x)\<rparr>)
        (case other_login user client w1 of None \<Rightarrow> w1
         | Some host \<Rightarrow> peer_close game_leave_sink host (client_send host (Forced_Close_GSCL 2) w1)))"
      using d(3) by (intro present_login d(1,2) w(4)) (simp add: name)
    with True l a show ?thesis unfolding w1_def by (simp add: game_logon_def Let_def)
  next
    case False
    with w1 l show ?thesis by (auto simp: game_logon_def Let_def w1_def split: option.split)
  qed
qed

lemma on_rmi_present:
  assumes w: "present_inv w" "net_inv (m_net w)" "no_closed (m_net w)" "is_connected (m_net w) client"
  shows "present_inv (snd (game_on_rmi client i r w))"
proof (cases "\<exists>f p. map_of m_handlers i = Some f \<and> player_by_host (m_app w) client = Some p")
  case True
  then obtain f p where f: "map_of m_handlers i = Some f" "player_by_host (m_app w) client = Some p" by blast
  let ?w = "snd (f p r w)"
  have "roster (m_app ?w) = roster (m_app w)" using handlers_roster [OF f(1)] by (simp add: keeps_roster_def)
  moreover have "settled (m_net ?w) = settled (m_net w)"
    using handlers_talk [OF f(1)] by (intro settled_talks) (simp add: talking_handler_def)
  moreover have "game_inv (m_app ?w)"
    using game_on_rmi_inv [of w client i r] w connected_not_0 [OF w(2,4)]
    unfolding game_on_rmi_handler [OF f] by (simp add: present_inv_def)
  ultimately show ?thesis
    using w(1) unfolding game_on_rmi_handler [OF f] by (simp add: present_inv_def roster_def)
next
  case False
  then show ?thesis
    using w logon_present connected_not_0 [OF w(2,4)]
    by (auto simp: game_on_rmi_def reading_def handled_def split: option.split sum.split)
qed

interpretation present: event_handler game_sink present_inv
proof unfold_locales
  fix w :: game_world and h i r
  assume "safe present_inv w" "is_connected (m_net w) h"
  then show "api_steps (m_net w) (m_net (snd (on_rmi game_sink h i r w)))" "present_inv (snd (on_rmi game_sink h i r w))"
    by (simp_all add: game_sink_def game_on_rmi_steps on_rmi_present safe_def)
next
  fix w :: game_world and h
  assume "present_inv w"
  then show "present_inv (peer_close game_sink h w)" by (simp add: close_game_sink close_present)
next
  fix w :: game_world and s :: "unit server"
  assume "present_inv w" "settled (m_net w) \<subseteq> settled s"
  then show "present_inv (w\<lparr>m_net := s\<rparr>)" by (auto simp: present_inv_def)
qed (simp_all add: game_sink_def game_leave_talks)

lemma present_new: "safe present_inv (game_new c (account_store_new file auto) g clk seconds)"
  using game_inv_new [of c "account_store_new file auto" g clk seconds]
  by (simp add: safe_def present_inv_def game_new_def net_inv_server_new store_ok_new accounts_of_def one_each_def dom_def)

end
