(* ===== verification/Game_Login.thy ===== *)
theory Game_Login
  imports Game_Presence Shared_Store
begin

text \<open>
  The way of a client into the game: connecting, the handshake and a logon with accepted credentials
  make it a player, from every reachable state of the server.
\<close>

section \<open>The logon message\<close>

definition logon_payload :: "str \<Rightarrow> str \<Rightarrow> u32 \<Rightarrow> bytes" where
  "logon_payload user password version =
     rmi # le_bytes 2 Logon_CLGS @ text_bytes user @ text_bytes password @ le_bytes 4 version"

text \<open>Names and passwords of up to 65536 bytes fit into one frame.\<close>

lemma logon_fits:
  assumes "length user \<le> 2 ^ 16" "length password \<le> 2 ^ 16"
  shows "length (logon_payload user password version) \<le> max_frame_payload"
  using length_text_bytes [of user] length_text_bytes [of password] assms
  by (simp add: logon_payload_def max_frame_payload_def)

lemma process_logon:
  assumes "idle w h p" "m_state p = connected" "wire_text user" "wire_text password"
  shows "snd (process_payload game_sink h (logon_payload user password version) False w) = game_logon h user password w"
proof -
  have "read_logon (reader_at pre (text_bytes user @ text_bytes password @ le_bytes 4 version)) =
      Inr ((user, password), reader_at (pre @ text_bytes user @ text_bytes password @ le_bytes 4 version) [])" for pre
    using assms(3,4) by (simp add: read_logon_def textc.rbind_dec u32c.rbind_dec_end rreturn_def)
  then have logon: "game_on_rmi h Logon_CLGS (reader_at pre (text_bytes user @ text_bytes password @ le_bytes 4 version)) w =
      (Inr True, game_logon h user password w)" for pre
    by (simp add: game_on_rmi_def reading_def)
  have core: "\<not> c2s_first \<le> Logon_CLGS" by (simp add: c2s_first_def Logon_CLGS_def)
  have "peer_on_rmi game_sink h (reader_at pre (le_bytes 2 Logon_CLGS @ text_bytes user @ text_bytes password @ le_bytes 4 version)) w =
      (Inr (), game_logon h user password w)" for pre
    using core by (simp add: peer_on_rmi_def u16c.dec_enc logon game_sink_def)
  moreover have "rmi \<notin> {notify_cs_public_key, notify_server_connection_request_data, encrypted_reliable, encrypted_unreliable}"
    by (simp add: message_type_defs)
  ultimately show ?thesis
    using assms(1,2) by (simp add: logon_payload_def idle_def process_payload.simps read_type)
qed

text \<open>A logon leaves the connection of the client itself as it is.\<close>

lemma send_find: "map_option quiet (find_peer (m_net (client_send h m w)) k) = map_option quiet (find_peer (m_net w) k)"
  by (cases "find_peer (m_net w) h") (auto simp: find_on_peer)

lemma logon_find:
  "map_option quiet (find_peer (m_net (game_logon client user password w)) client) = map_option quiet (find_peer (m_net w) client)"
proof -
  have "client \<noteq> host" if "other_login user client v = Some host" for v host
    using that find_SomeD [of _ "m_players (m_app v)"] unfolding other_login_def by fastforce
  then have "map_option quiet (find_peer (m_net (peer_close game_leave_sink host (client_send host m v))) client) =
      map_option quiet (find_peer (m_net v) client)" if "other_login user client v = Some host" for v host m
    using that by (simp add: close_other_find send_find del: client_send_net)
  then show ?thesis
    by (simp add: game_logon_def Let_def send_find del: client_send_net split: prod.split option.split)
qed

lemma logon_player:
  assumes "login user password (gs_accounts (m_app w)) = (login_ok, accounts)"
  obtains acc where "player_by_host (m_app (game_logon client user password w)) client = Some (player_new client acc user)"
    "find_account accounts user = Some acc"
proof -
  obtain acc where a: "find_account accounts user = Some acc" using acc.ok_found [OF assms] by blast
  then have "player_by_host (m_app (game_logon client user password w)) client = Some (player_new client acc user)"
    using assms by (simp add: game_logon_def Let_def player_by_host_def map_of_omap_put)
  with a show ?thesis using that by blast
qed

section \<open>The accounts\<close>

text \<open>The game server changes the accounts through logins only.\<close>

lemma game_logon_accounts:
  "gs_accounts (m_app (game_logon client user password w)) = snd (login user password (gs_accounts (m_app w)))"
proof -
  have "gs_accounts (m_app (peer_close game_leave_sink h v)) = gs_accounts (m_app v)" for h v
    by (simp add: peer_close_def Let_def game_leave_sink_def gs_accounts_leave split: option.split)
  then show ?thesis by (simp add: game_logon_def Let_def split: prod.split option.split)
qed

lemma game_on_rmi_accounts: "grown (gs_accounts (m_app w)) (gs_accounts (m_app (snd (game_on_rmi client i r w))))"
proof -
  have "gs_accounts (m_app (snd (f p r w))) = gs_accounts (m_app w)" if "map_of m_handlers i = Some f" for f p
    using handlers_roster [OF that] by (simp add: keeps_roster_def roster_def)
  then show ?thesis
    by (auto simp: game_on_rmi_def reading_def handled_def game_logon_accounts grown_login split: option.split sum.split)
qed

interpretation game_store: store_client game_sink gs_accounts
  by unfold_locales
    (simp_all add: lawful_def game_sink_def gs_accounts_leave game_on_rmi_accounts
      api_steps_frame [OF game_on_rmi_steps] api_steps_frame [OF talks_api_steps [OF game_leave_talks]])

text \<open>The account of every player is the one in the store.\<close>

definition game_known :: "game_app \<Rightarrow> bool" where
  "game_known a \<longleftrightarrow> store_ok (m_accounts (gs_accounts a)) \<and>
     (\<forall>h x. accounts_of a h = Some x \<longrightarrow> find_account (gs_accounts a) (acc_username x) = Some x)"

lemma game_known_roster: "roster a = roster b \<Longrightarrow> game_known a \<Longrightarrow> game_known b"
  by (simp add: roster_def game_known_def)

lemma game_known_leave: "game_known (m_app w) \<Longrightarrow> game_known (m_app (game_on_client_leave h w))"
  by (simp add: game_known_def accounts_of_leave gs_accounts_leave)

lemma game_known_grown: "game_known a \<Longrightarrow> grown (gs_accounts a) s \<Longrightarrow> game_known (a\<lparr>gs_accounts := s\<rparr>)"
  by (simp add: game_known_def grown_find grown_store_ok accounts_of_def)

lemma game_logon_known:
  assumes k: "game_known (m_app w)"
  shows "game_known (m_app (game_logon client user password w))"
proof -
  obtain result accounts where l: "login user password (gs_accounts (m_app w)) = (result, accounts)" by force
  define w1 where "w1 = with_app (\<lambda>a. a\<lparr>gs_accounts := accounts\<rparr>) w"
  have g: "grown (gs_accounts (m_app w)) accounts" using grown_login [OF grown_refl, of "gs_accounts (m_app w)" user password] l by simp
  have w1: "game_known (m_app w1)" "gs_accounts (m_app w1) = accounts" using game_known_grown [OF k g] by (simp_all add: w1_def)
  have close: "game_known (m_app (peer_close game_leave_sink h (client_send h m w1)))"
    "gs_accounts (m_app (peer_close game_leave_sink h (client_send h m w1))) = accounts" for h m
    using w1 game_known_leave [of "with_net (mark_closed h) (client_send h m w1)" h]
    by (simp_all add: peer_close_def Let_def game_leave_sink_def gs_accounts_leave split: option.split)
  have put: "game_known (v\<lparr>m_players := omap_put client (player_new client x user) (m_players v)\<rparr>)"
    if "game_known v" "gs_accounts v = accounts" "find_account accounts user = Some x" for v x
  proof -
    have "acc_username x = user" using that by (simp add: game_known_def store_ok_def find_account_def)
    with that show ?thesis by (auto simp: game_known_def accounts_of_def map_of_omap_put player_new_def)
  qed
  from w1 close put show ?thesis
    by (simp add: game_logon_def l Let_def w1_def [symmetric] split: option.split)
qed

interpretation game_known: app_invariant game_sink "\<lambda>_. game_known"
proof unfold_locales
  fix w :: game_world and h i r
  assume k: "game_known (m_app w)"
  then show "game_known (m_app (on_client_join game_sink h w))" "game_known (m_app (on_client_leave game_sink h w))"
    by (simp_all add: game_sink_def game_known_leave)
  have "game_known (m_app (snd (f p r w)))" if "map_of m_handlers i = Some f" for f p
    using handlers_roster [OF that] by (intro game_known_roster [OF _ k]) (simp add: keeps_roster_def)
  then show "game_known (m_app (snd (on_rmi game_sink h i r w)))"
    using k game_logon_known [OF k]
    by (auto simp: game_sink_def game_on_rmi_def reading_def handled_def split: option.split sum.split)
qed

section \<open>From connecting to playing\<close>

lemma client_logs_in:
  assumes w: "net_inv (m_net w)" "length (m_peers (m_net w)) < 2 ^ 30"
    and config: "m_config (m_net w) = game_server_config c"
    and n: "27 \<le> length n" "length n \<le> 2 ^ 16"
    and login: "wire_text user" "wire_text password" "fst (login user password (gs_accounts (m_app w))) = login_ok"
    and len: "length (logon_payload user password version) \<le> max_frame_payload"
  obtains h w' p a where "find_peer (m_net w) h = None"
    "reads game_sink h [make_frame (key_hello e n), make_frame (connect_hello game_protocol_version [] i),
       make_frame (logon_payload user password version)] (accept_done (Some remote) w) = Some w'"
    "player_by_host (m_app w') h = Some (player_new h a user)" "find_account (gs_accounts (m_app w')) user = Some a"
    "idle w' h p" "m_state p = connected"
proof -
  have v: "protocol_version (m_config (m_net w)) = game_protocol_version" "length game_protocol_version = 16"
    by (simp_all add: config game_server_config_def game_protocol_version_def length_derive_protocol_version)
  obtain h v p where h: "find_peer (m_net w) h = None"
    "reads game_sink h [make_frame (key_hello e n), make_frame (connect_hello game_protocol_version [] i)]
       (accept_done (Some remote) w) = Some v" "idle v h p" "m_state p = connected" "m_app v = m_app w"
    using game_join.handshake [OF w n, of "[]" e i remote] v by auto
  from read_frame [OF h(3) len, where sink = game_sink] obtain u q where u: "idle u h q" "m_state q = connected" "m_app u = m_app w"
    "\<And>q'. idle (snd (process_payload game_sink h (logon_payload user password version) False u)) h q' \<Longrightarrow>
       \<exists>w''. read_done game_sink h (Some (make_frame (logon_payload user password version))) v = Some w'' \<and> idle w'' h q' \<and>
         m_app w'' = m_app (snd (process_payload game_sink h (logon_payload user password version) False u))"
    using h(4,5) by metis
  note pl = process_logon [OF u(1,2) login(1,2), of version]
  obtain q' where q': "find_peer (m_net (game_logon h user password u)) h = Some q'" "quiet q' = quiet q"
    using logon_find [of h user password u] u(1) by (auto simp: idle_def)
  then have "idle (game_logon h user password u) h q'" "m_state q' = connected"
    using u(1,2) quiet_eqD [of q' q] by (simp_all add: idle_def)
  then obtain w' where w': "read_done game_sink h (Some (make_frame (logon_payload user password version))) v = Some w'"
    "idle w' h q'" "m_app w' = m_app (game_logon h user password u)"
    using u(4) [of q'] unfolding pl by blast
  obtain a where "player_by_host (m_app w') h = Some (player_new h a user)" "find_account (gs_accounts (m_app w')) user = Some a"
    using logon_player [of user password u "snd (login user password (gs_accounts (m_app u)))" h] login(3) u(3) w'(3)
    by (metis game_logon_accounts prod.collapse)
  moreover have "reads game_sink h ([make_frame (key_hello e n), make_frame (connect_hello game_protocol_version [] i)] @
      [make_frame (logon_payload user password version)]) (accept_done (Some remote) w) = Some w'"
    unfolding reads_append h(2) by (simp add: w'(1))
  ultimately show ?thesis
    using that [of h w' a q'] h(1) w'(2) \<open>m_state q' = connected\<close> by simp
qed

end
