(* ===== verification/Program.thy ===== *)
theory Program
  imports Session_Login Messenger_Inv Game_Login
begin

text \<open>
  The whole program, \<^verbatim>\<open>src/src/main.cpp\<close>: the start from the arguments and the files, the three servers
  over one account store on one event loop, and the shutdown on a signal. The lemmas show that the
  servers do not disturb each other: what each of them guarantees alone holds in the program, and the
  store only grows.
\<close>

section \<open>Starting\<close>

text \<open>
  What \<open>main\<close> gets from outside: its arguments, the contents of the files that can be opened, and the
  random numbers, clocks and dates of the three servers. \<open>listen_ok ports port\<close> tells whether a process
  that already listens on \<open>ports\<close> gets an acceptor on \<open>port\<close>; otherwise \<open>asio\<close> throws.
\<close>

record host =
  args :: "str list"
  files :: "str \<Rightarrow> bytes option"
  listen_ok :: "u16 list \<Rightarrow> u16 \<Rightarrow> bool"
  rngs :: "nat \<Rightarrow> rng"
  clocks :: "nat \<Rightarrow> clock"
  to_seconds :: "nat \<Rightarrow> f64"
  host_dates :: "nat \<Rightarrow> str"

record program =
  p_min_level :: level
  p_accounts :: account_store
  p_session :: session_world
  p_messenger :: messenger_world
  p_game :: game_world
  p_ports :: "u16 list"
  p_running :: bool

definition ini_path :: "str list \<Rightarrow> str" where
  "ini_path argv = (case argv of _ # path # _ \<Rightarrow> path | _ \<Rightarrow> ascii ''server.ini'')"

definition main_accounts :: "config \<Rightarrow> (str \<Rightarrow> bytes option) \<Rightarrow> account_store" where
  "main_accounts c fs =
     account_store_new (case fs (accounts_file c) of None \<Rightarrow> [] | Some contents \<Rightarrow> contents) (auto_register c)"

definition main_log_level :: "config \<Rightarrow> level" where
  "main_log_level c = parse_level (log_level c)"

text \<open>\<open>server::start\<close> as far as it can fail: \<open>None\<close> when opening the acceptor throws\<close>

definition server_start :: "(u16 list \<Rightarrow> u16 \<Rightarrow> bool) \<Rightarrow> server_config \<Rightarrow> u16 list \<Rightarrow> u16 list option" where
  "server_start listen config ports = (if listen ports (sc_port config) then Some (ports @ [sc_port config]) else None)"

text \<open>\<open>main\<close> up to \<open>io.run()\<close>: the exit code when an exception ends it, or the running program\<close>

definition main_start :: "host \<Rightarrow> int + program" where
  "main_start e =
     (let c = main_config (files e (ini_path (args e)));
          accounts = main_accounts c (files e);
          session = session_new c accounts (rngs e 0) (clocks e 0) (to_seconds e);
          messenger = messenger_new c accounts (host_dates e) (rngs e 1) (clocks e 1) (to_seconds e);
          game = game_new c accounts (rngs e 2) (clocks e 2) (to_seconds e)
      in case server_start (listen_ok e) (m_config (m_net session)) [] of
           None \<Rightarrow> Inl 1
         | Some ports1 \<Rightarrow>
             (case server_start (listen_ok e) (m_config (m_net messenger)) ports1 of
                None \<Rightarrow> Inl 1
              | Some ports2 \<Rightarrow>
                  (case server_start (listen_ok e) (m_config (m_net game)) ports2 of
                     None \<Rightarrow> Inl 1
                   | Some ports3 \<Rightarrow>
                       Inr \<lparr>p_min_level = main_log_level c, p_accounts = accounts, p_session = session,
                            p_messenger = messenger, p_game = game, p_ports = ports3, p_running = True\<rparr>)))"

section \<open>Running\<close>

text \<open>
  The servers hold references to one store. A server sees it through its view of the program, and
  what it makes of it is what the others see next.
\<close>

definition session_view :: "program \<Rightarrow> session_world" where
  "session_view s = with_app (\<lambda>a. a\<lparr>ss_accounts := p_accounts s\<rparr>) (p_session s)"

definition messenger_view :: "program \<Rightarrow> messenger_world" where
  "messenger_view s = with_app (\<lambda>a. a\<lparr>ms_accounts := p_accounts s\<rparr>) (p_messenger s)"

definition game_view :: "program \<Rightarrow> game_world" where
  "game_view s = with_app (\<lambda>a. a\<lparr>gs_accounts := p_accounts s\<rparr>) (p_game s)"

definition put_session :: "session_world \<Rightarrow> program \<Rightarrow> program" where
  "put_session w s = s\<lparr>p_accounts := ss_accounts (m_app w), p_session := w\<rparr>"

definition put_messenger :: "messenger_world \<Rightarrow> program \<Rightarrow> program" where
  "put_messenger w s = s\<lparr>p_accounts := ms_accounts (m_app w), p_messenger := w\<rparr>"

definition put_game :: "game_world \<Rightarrow> program \<Rightarrow> program" where
  "put_game w s = s\<lparr>p_accounts := gs_accounts (m_app w), p_game := w\<rparr>"

text \<open>The handler of the signals: it stops the servers one after the other, then the loop.\<close>

definition main_shutdown :: "program \<Rightarrow> program" where
  "main_shutdown s =
     (let s1 = put_session (server_stop session_sink (session_view s)) s;
          s2 = put_messenger (server_stop messenger_sink (messenger_view s1)) s1;
          s3 = put_game (server_stop game_sink (game_view s2)) s2
      in s3\<lparr>p_running := False\<rparr>)"

text \<open>One completion handler of a server that has not been stopped\<close>

inductive net_event :: "('u, 'a) event_sink \<Rightarrow> ('u, 'a) world \<Rightarrow> ('u, 'a) world \<Rightarrow> bool" for sink where
  event_accept: "length (m_peers (m_net w)) < 2 ^ 30 \<Longrightarrow> net_event sink w (accept_done socket w)"
| event_read: "read_done sink h result w = Some w' \<Longrightarrow> net_event sink w w'"
| event_write: "net_event sink w (write_done sink h failed w)"
| event_timer: "net_event sink w (timer_done sink cancelled w)"

text \<open>One completion handler run by \<open>io.run()\<close>; after \<open>io.stop()\<close> there are none.\<close>

inductive program_step :: "program \<Rightarrow> program \<Rightarrow> bool" where
  session_turn: "p_running s \<Longrightarrow> net_event session_sink (session_view s) w \<Longrightarrow> program_step s (put_session w s)"
| messenger_turn: "p_running s \<Longrightarrow> net_event messenger_sink (messenger_view s) w \<Longrightarrow> program_step s (put_messenger w s)"
| game_turn: "p_running s \<Longrightarrow> net_event game_sink (game_view s) w \<Longrightarrow> program_step s (put_game w s)"
| signal: "p_running s \<Longrightarrow> program_step s (main_shutdown s)"

abbreviation program_steps :: "program \<Rightarrow> program \<Rightarrow> bool" where
  "program_steps \<equiv> program_step\<^sup>*\<^sup>*"

inductive_cases program_stepE: "program_step s s'"

section \<open>Views\<close>

lemma net_event_step: "net_event sink w w' \<Longrightarrow> net_step sink w w'"
  by (erule net_event.cases) (auto intro: net_step.intros)

lemma put_fields [simp]:
  "p_accounts (put_session w s) = ss_accounts (m_app w)" "p_accounts (put_messenger v s) = ms_accounts (m_app v)"
  "p_accounts (put_game u s) = gs_accounts (m_app u)"
  "p_running (put_session w s) = p_running s" "p_running (put_messenger v s) = p_running s"
  "p_running (put_game u s) = p_running s"
  by (simp_all add: put_session_def put_messenger_def put_game_def)

lemma view_accounts [simp]:
  "ss_accounts (m_app (session_view s)) = p_accounts s" "ms_accounts (m_app (messenger_view s)) = p_accounts s"
  "gs_accounts (m_app (game_view s)) = p_accounts s"
  by (simp_all add: session_view_def messenger_view_def game_view_def)

text \<open>After a turn a server sees what it has done, and the others see the new store.\<close>

lemma view_put [simp]:
  "session_view (put_session w s) = w" "messenger_view (put_messenger v s) = v" "game_view (put_game u s) = u"
  "messenger_view (put_session w s) = with_app (\<lambda>a. a\<lparr>ms_accounts := ss_accounts (m_app w)\<rparr>) (messenger_view s)"
  "game_view (put_session w s) = with_app (\<lambda>a. a\<lparr>gs_accounts := ss_accounts (m_app w)\<rparr>) (game_view s)"
  "session_view (put_messenger v s) = with_app (\<lambda>a. a\<lparr>ss_accounts := ms_accounts (m_app v)\<rparr>) (session_view s)"
  "game_view (put_messenger v s) = with_app (\<lambda>a. a\<lparr>gs_accounts := ms_accounts (m_app v)\<rparr>) (game_view s)"
  "session_view (put_game u s) = with_app (\<lambda>a. a\<lparr>ss_accounts := gs_accounts (m_app u)\<rparr>) (session_view s)"
  "messenger_view (put_game u s) = with_app (\<lambda>a. a\<lparr>ms_accounts := gs_accounts (m_app u)\<rparr>) (messenger_view s)"
  by (simp_all add: session_view_def messenger_view_def game_view_def put_session_def put_messenger_def put_game_def
      with_app_def)

lemma view_running [simp]:
  "session_view (s\<lparr>p_running := b\<rparr>) = session_view s" "messenger_view (s\<lparr>p_running := b\<rparr>) = messenger_view s"
  "game_view (s\<lparr>p_running := b\<rparr>) = game_view s"
  by (simp_all add: session_view_def messenger_view_def game_view_def)

section \<open>What each server guarantees\<close>

definition session_good :: "config \<Rightarrow> session_world \<Rightarrow> bool" where
  "session_good c w \<longleftrightarrow> safe (\<lambda>_. True) w \<and> session_known c (m_app w) \<and> m_config (m_net w) = session_server_config c"

definition messenger_good :: "config \<Rightarrow> messenger_world \<Rightarrow> bool" where
  "messenger_good c w \<longleftrightarrow> safe (\<lambda>_. True) w \<and> messenger_inv (m_app w) \<and> messenger_known (m_app w) \<and>
     m_config (m_net w) = messenger_server_config c"

definition game_good :: "config \<Rightarrow> game_world \<Rightarrow> bool" where
  "game_good c w \<longleftrightarrow> safe present_inv w \<and> game_known (m_app w) \<and> m_config (m_net w) = game_server_config c"

lemma session_good_step: "session_good c w \<Longrightarrow> net_step session_sink w w' \<Longrightarrow> session_good c w'"
  using sess.step_safe sess_known.step_keeps sess_store.step_lawful by (auto simp: session_good_def lawful_def)

lemma messenger_good_step: "messenger_good c w \<Longrightarrow> net_step messenger_sink w w' \<Longrightarrow> messenger_good c w'"
  using mess.step_safe mapp.step_keeps mess_known.step_keeps mess_store.step_lawful
  by (auto simp: messenger_good_def lawful_def)

lemma game_good_step: "game_good c w \<Longrightarrow> net_step game_sink w w' \<Longrightarrow> game_good c w'"
  using present.step_safe game_known.step_keeps game_store.step_lawful by (auto simp: game_good_def lawful_def)

text \<open>None of it is disturbed when another server lets somebody log in.\<close>

lemma session_good_shared:
  "session_good c w \<Longrightarrow> grown (ss_accounts (m_app w)) s \<Longrightarrow> session_good c (with_app (\<lambda>a. a\<lparr>ss_accounts := s\<rparr>) w)"
  by (force simp: session_good_def safe_def session_known_def dest: grown_find)

lemma messenger_good_shared:
  "messenger_good c w \<Longrightarrow> grown (ms_accounts (m_app w)) s \<Longrightarrow> messenger_good c (with_app (\<lambda>a. a\<lparr>ms_accounts := s\<rparr>) w)"
  by (simp add: messenger_good_def safe_def messenger_known_grown)

lemma game_good_shared:
  assumes "game_good c w" "grown (gs_accounts (m_app w)) s"
  shows "game_good c (with_app (\<lambda>a. a\<lparr>gs_accounts := s\<rparr>) w)"
proof -
  have "accounts_of ((m_app w)\<lparr>gs_accounts := s\<rparr>) = accounts_of (m_app w)" by (simp add: accounts_of_def fun_eq_iff)
  with assms show ?thesis
    by (simp add: game_good_def safe_def present_inv_def game_known_grown grown_store_ok)
qed

section \<open>The program\<close>

definition program_inv :: "config \<Rightarrow> program \<Rightarrow> bool" where
  "program_inv c s \<longleftrightarrow> session_good c (session_view s) \<and> messenger_good c (messenger_view s) \<and> game_good c (game_view s)"

lemma session_turn_inv:
  "program_inv c s \<Longrightarrow> net_step session_sink (session_view s) w \<Longrightarrow>
   program_inv c (put_session w s) \<and> grown (p_accounts s) (p_accounts (put_session w s))"
  using sess_store.step_lawful [of "session_view s" w]
  by (auto simp: program_inv_def lawful_def intro: session_good_step messenger_good_shared game_good_shared)

lemma messenger_turn_inv:
  "program_inv c s \<Longrightarrow> net_step messenger_sink (messenger_view s) w \<Longrightarrow>
   program_inv c (put_messenger w s) \<and> grown (p_accounts s) (p_accounts (put_messenger w s))"
  using mess_store.step_lawful [of "messenger_view s" w]
  by (auto simp: program_inv_def lawful_def intro: messenger_good_step session_good_shared game_good_shared)

lemma game_turn_inv:
  "program_inv c s \<Longrightarrow> net_step game_sink (game_view s) w \<Longrightarrow>
   program_inv c (put_game w s) \<and> grown (p_accounts s) (p_accounts (put_game w s))"
  using game_store.step_lawful [of "game_view s" w]
  by (auto simp: program_inv_def lawful_def intro: game_good_step session_good_shared messenger_good_shared)

lemmas turn_inv = session_turn_inv messenger_turn_inv game_turn_inv

lemma shutdown_inv:
  assumes "program_inv c s"
  shows "program_inv c (main_shutdown s) \<and> grown (p_accounts s) (p_accounts (main_shutdown s))"
proof -
  define s1 where "s1 = put_session (server_stop session_sink (session_view s)) s"
  define s2 where "s2 = put_messenger (server_stop messenger_sink (messenger_view s1)) s1"
  define s3 where "s3 = put_game (server_stop game_sink (game_view s2)) s2"
  have 1: "program_inv c s1 \<and> grown (p_accounts s) (p_accounts s1)"
    unfolding s1_def by (rule session_turn_inv [OF assms step_stop])
  then have 2: "program_inv c s2 \<and> grown (p_accounts s1) (p_accounts s2)"
    unfolding s2_def by (intro messenger_turn_inv step_stop) simp
  then have 3: "program_inv c s3 \<and> grown (p_accounts s2) (p_accounts s3)"
    unfolding s3_def by (intro game_turn_inv step_stop) simp
  have "main_shutdown s = s3\<lparr>p_running := False\<rparr>" by (simp add: main_shutdown_def Let_def s1_def s2_def s3_def)
  with 1 2 3 show ?thesis by (auto simp: program_inv_def intro: grown_trans)
qed

lemma program_step_inv:
  "program_inv c s \<Longrightarrow> program_step s s' \<Longrightarrow> program_inv c s' \<and> grown (p_accounts s) (p_accounts s')"
  by (erule program_stepE) (auto simp: shutdown_inv dest: turn_inv net_event_step simp del: put_fields)

lemma program_steps_inv:
  "program_steps s s' \<Longrightarrow> program_inv c s \<Longrightarrow> program_inv c s' \<and> grown (p_accounts s) (p_accounts s')"
  by (induction rule: rtranclp_induct) (auto dest: program_step_inv intro: grown_trans)

lemma main_start_inv:
  assumes "main_start e = Inr s"
  shows "program_inv (main_config (files e (ini_path (args e)))) s" "p_running s"
    "p_accounts s = main_accounts (main_config (files e (ini_path (args e)))) (files e)"
proof -
  let ?c = "main_config (files e (ini_path (args e)))"
  let ?a = "main_accounts ?c (files e)"
  have ok: "store_ok (m_accounts ?a)" by (simp add: main_accounts_def store_ok_new)
  have v: "session_view s = session_new ?c ?a (rngs e 0) (clocks e 0) (to_seconds e)"
    "messenger_view s = messenger_new ?c ?a (host_dates e) (rngs e 1) (clocks e 1) (to_seconds e)"
    "game_view s = game_new ?c ?a (rngs e 2) (clocks e 2) (to_seconds e)" "p_running s" "p_accounts s = ?a"
    using assms
    by (auto simp: main_start_def Let_def session_view_def messenger_view_def game_view_def session_new_def messenger_new_def
        game_new_def with_app_def split: option.splits)
  have conf: "m_config (server_new x g k t) = x" for x g k t
    by (simp add: server_new_def split: prod.split)
  have "safe present_inv (game_new ?c ?a (rngs e 2) (clocks e 2) (to_seconds e))"
    unfolding main_accounts_def by (rule present_new)
  then have "game_good ?c (game_view s)"
    using ok unfolding v game_good_def by (simp add: game_new_def conf game_known_def accounts_of_def)
  moreover have "messenger_good ?c (messenger_view s)"
    using messenger_inv_new ok unfolding v messenger_good_def
    by (simp add: messenger_new_def safe_def net_inv_server_new conf messenger_known_def user_accounts_def)
  moreover have "session_good ?c (session_view s)"
    unfolding v session_good_def by (simp add: session_new_def safe_def net_inv_server_new conf session_known_def)
  ultimately show "program_inv ?c s" by (simp add: program_inv_def)
  show "p_running s" "p_accounts s = ?a" by (rule v)+
qed

lemma program_reached:
  "main_start e = Inr s0 \<Longrightarrow> program_steps s0 s \<Longrightarrow> program_inv (main_config (files e (ini_path (args e)))) s"
  using program_steps_inv main_start_inv(1) by blast

lemma program_safe:
  assumes "main_start e = Inr s0" "program_steps s0 s"
  shows "safe (\<lambda>_. True) (session_view s)" "safe (\<lambda>_. True) (messenger_view s)" "safe present_inv (game_view s)"
  using program_reached [OF assms] by (simp_all add: program_inv_def session_good_def messenger_good_def game_good_def)

lemma program_nets:
  assumes "main_start e = Inr s0" "program_steps s0 s"
  shows "net_inv (m_net (session_view s))" "net_inv (m_net (messenger_view s))" "net_inv (m_net (game_view s))"
  using program_safe [OF assms] by (simp_all add: safe_def)

section \<open>A client's way in\<close>

lemma game_reads_steps:
  "reads game_sink h datas (game_view s) = Some w \<Longrightarrow> p_running s \<Longrightarrow> \<exists>s'. program_steps s s' \<and> p_running s' \<and> game_view s' = w"
proof (induction datas arbitrary: s)
  case (Cons data datas)
  then obtain v where v: "read_done game_sink h (Some data) (game_view s) = Some v" "reads game_sink h datas v = Some w"
    by (auto split: option.splits)
  have step: "program_step s (put_game v s)" by (rule game_turn [OF Cons.prems(2) event_read [OF v(1)]])
  from Cons.IH [of "put_game v s"] v(2) Cons.prems(2)
  obtain s' where "program_steps (put_game v s) s'" "p_running s'" "game_view s' = w" by auto
  then show ?case using converse_rtranclp_into_rtranclp [where r = program_step, OF step] by blast
qed auto

lemma program_login:
  assumes inv: "program_inv c s" and run: "p_running s" and small: "length (m_peers (m_net (game_view s))) < 2 ^ 30"
    and n: "27 \<le> length n" "length n \<le> 2 ^ 16"
    and login: "wire_text user" "wire_text password" "fst (login user password (p_accounts s)) = login_ok"
    and len: "length (logon_payload user password version) \<le> max_frame_payload"
  obtains h s' a where "find_peer (m_net (game_view s)) h = None"
    "reads game_sink h [make_frame (key_hello e n), make_frame (connect_hello game_protocol_version [] i),
       make_frame (logon_payload user password version)] (accept_done (Some remote) (game_view s)) = Some (game_view s')"
    "program_steps s s'" "p_running s'" "is_connected (m_net (game_view s')) h"
    "player_by_host (m_app (game_view s')) h = Some (player_new h a user)" "find_account (p_accounts s') user = Some a"
proof -
  let ?w = "game_view s"
  have w: "net_inv (m_net ?w)" "m_config (m_net ?w) = game_server_config c"
    using inv by (simp_all add: program_inv_def game_good_def safe_def)
  have l: "fst (login user password (gs_accounts (m_app ?w))) = login_ok" using login(3) by simp
  obtain h w' a p where h: "find_peer (m_net ?w) h = None"
    "reads game_sink h [make_frame (key_hello e n), make_frame (connect_hello game_protocol_version [] i),
       make_frame (logon_payload user password version)] (accept_done (Some remote) ?w) = Some w'"
    "player_by_host (m_app w') h = Some (player_new h a user)" "find_account (gs_accounts (m_app w')) user = Some a"
    "idle w' h p" "m_state p = connected"
    using client_logs_in [OF w(1) small w(2) n login(1,2) l len, of e i remote] by metis
  define s1 where "s1 = put_game (accept_done (Some remote) ?w) s"
  have s1: "program_step s s1" unfolding s1_def by (rule game_turn [OF run event_accept [OF small]])
  have v1: "game_view s1 = accept_done (Some remote) ?w" "p_running s1" using run by (simp_all add: s1_def)
  from game_reads_steps [of h _ s1, OF h(2) [folded v1(1)] v1(2)]
  obtain s' where s': "program_steps s1 s'" "p_running s'" "game_view s' = w'" by blast
  have "program_steps s s'" using s1 s'(1) by (rule converse_rtranclp_into_rtranclp)
  moreover have "p_accounts s' = gs_accounts (m_app w')" by (simp add: s'(3) [symmetric])
  moreover have "is_connected (m_net w') h" using h(5,6) by (simp add: idle_def is_connected_def)
  ultimately show ?thesis using that [of h s' a] h(1-4) s'(2,3) by simp
qed

lemma session_reads_steps:
  "reads session_sink h datas (session_view s) = Some w \<Longrightarrow> p_running s \<Longrightarrow>
   \<exists>s'. program_steps s s' \<and> p_running s' \<and> session_view s' = w"
proof (induction datas arbitrary: s)
  case (Cons data datas)
  then obtain v where v: "read_done session_sink h (Some data) (session_view s) = Some v" "reads session_sink h datas v = Some w"
    by (auto split: option.splits)
  have step: "program_step s (put_session v s)" by (rule session_turn [OF Cons.prems(2) event_read [OF v(1)]])
  from Cons.IH [of "put_session v s"] v(2) Cons.prems(2)
  obtain s' where "program_steps (put_session v s) s'" "p_running s'" "session_view s' = w" by auto
  then show ?case using converse_rtranclp_into_rtranclp [where r = program_step, OF step] by blast
qed auto

lemma program_registers:
  assumes inv: "program_inv c s" and run: "p_running s" and small: "length (m_peers (m_net (session_view s))) < 2 ^ 30"
    and n: "27 \<le> length n" "length n \<le> 2 ^ 16"
    and login: "wire_text user" "wire_text password" "fst (login user password (p_accounts s)) = login_ok"
    and len: "length (session_logon_payload user password) \<le> max_frame_payload"
  obtains h s' frames where "find_peer (m_net (session_view s)) h = None"
    "reads session_sink h [make_frame (key_hello e n), make_frame (connect_hello session_protocol_version [] i),
       make_frame (session_logon_payload user password)] (accept_done (Some remote) (session_view s)) = Some (session_view s')"
    "program_steps s s'" "p_running s'" "is_connected (m_net (session_view s')) h"
    "sent_to (m_net (session_view s')) h = frames @ [make_frame (answer_payload c logon_result_ok)]"
    "p_accounts s' = snd (login user password (p_accounts s))"
proof -
  let ?w = "session_view s"
  have w: "net_inv (m_net ?w)" "m_config (m_net ?w) = session_server_config c" "ss_config (m_app ?w) = c"
    using inv by (simp_all add: program_inv_def session_good_def safe_def session_known_def)
  have l: "fst (login user password (ss_accounts (m_app ?w))) = login_ok" using login(3) by simp
  obtain h w' p frames where h: "find_peer (m_net ?w) h = None"
    "reads session_sink h [make_frame (key_hello e n), make_frame (connect_hello session_protocol_version [] i),
       make_frame (session_logon_payload user password)] (accept_done (Some remote) ?w) = Some w'"
    "idle w' h p" "m_state p = connected" "sent p = frames @ [make_frame (answer_payload c logon_result_ok)]"
    "ss_accounts (m_app w') = snd (login user password (p_accounts s))"
    using client_registers [OF w(1) small w(2) n login(1,2) l len, of e i remote] w(3) view_accounts(1) [of s] by metis
  define s1 where "s1 = put_session (accept_done (Some remote) ?w) s"
  have s1: "program_step s s1" unfolding s1_def by (rule session_turn [OF run event_accept [OF small]])
  have v1: "session_view s1 = accept_done (Some remote) ?w" "p_running s1" using run by (simp_all add: s1_def)
  from session_reads_steps [of h _ s1, OF h(2) [folded v1(1)] v1(2)]
  obtain s' where s': "program_steps s1 s'" "p_running s'" "session_view s' = w'" by blast
  have "program_steps s s'" using s1 s'(1) by (rule converse_rtranclp_into_rtranclp)
  moreover have "p_accounts s' = ss_accounts (m_app w')" by (simp add: s'(3) [symmetric])
  moreover have "is_connected (m_net w') h" "sent_to (m_net w') h = sent p"
    using h(3,4) by (simp_all add: idle_def is_connected_def sent_to_def)
  ultimately show ?thesis using that [of h s' frames] h(1,2,5,6) s'(2,3) by simp
qed

section \<open>Passwords\<close>

lemma program_step_grown: "program_step s s' \<Longrightarrow> grown (p_accounts s) (p_accounts s')"
proof (erule program_stepE)
  have stop: "grown (p_accounts t) (ss_accounts (m_app (server_stop session_sink (session_view t))))"
    "grown (p_accounts t) (ms_accounts (m_app (server_stop messenger_sink (messenger_view t))))"
    "grown (p_accounts t) (gs_accounts (m_app (server_stop game_sink (game_view t))))" for t
    using sess_store.step_lawful [OF step_stop, of "session_view t"] mess_store.step_lawful [OF step_stop, of "messenger_view t"]
      game_store.step_lawful [OF step_stop, of "game_view t"] by (simp_all add: lawful_def)
  show "grown (p_accounts s) (p_accounts s')" if "s' = main_shutdown s"
    unfolding that main_shutdown_def Let_def
    using stop(1) [of s] stop(2) [of "put_session (server_stop session_sink (session_view s)) s"]
      stop(3) [of "put_messenger (server_stop messenger_sink (messenger_view (put_session (server_stop session_sink (session_view s)) s)))
        (put_session (server_stop session_sink (session_view s)) s)"]
    by (simp del: view_put) (blast intro: grown_trans)
qed (use sess_store.step_lawful mess_store.step_lawful game_store.step_lawful net_event_step in \<open>fastforce simp: lawful_def\<close>)+

lemma program_steps_grown: "program_steps s s' \<Longrightarrow> grown (p_accounts s) (p_accounts s')"
  by (induction rule: rtranclp_induct) (auto dest: program_step_grown intro: grown_trans)

section \<open>Stopping\<close>

lemma shutdown_closes:
  assumes "program_inv c s"
  shows "find_peer (m_net (session_view (main_shutdown s))) h = None"
    "find_peer (m_net (messenger_view (main_shutdown s))) h = None"
    "find_peer (m_net (game_view (main_shutdown s))) h = None"
    "player_by_host (m_app (game_view (main_shutdown s))) h = None"
proof -
  define s1 where "s1 = put_session (server_stop session_sink (session_view s)) s"
  define s2 where "s2 = put_messenger (server_stop messenger_sink (messenger_view s1)) s1"
  have eq: "main_shutdown s = (put_game (server_stop game_sink (game_view s2)) s2)\<lparr>p_running := False\<rparr>"
    by (simp add: main_shutdown_def Let_def s1_def s2_def)
  have 1: "program_inv c s1" unfolding s1_def by (rule conjunct1 [OF session_turn_inv [OF assms step_stop]])
  have 2: "program_inv c s2" unfolding s2_def by (rule conjunct1 [OF messenger_turn_inv [OF 1 step_stop]])
  have safe: "safe (\<lambda>_. True) (session_view s)" "safe (\<lambda>_. True) (messenger_view s1)" "safe present_inv (game_view s2)"
    using assms 1 2 by (simp_all add: program_inv_def session_good_def messenger_good_def game_good_def)
  show "find_peer (m_net (session_view (main_shutdown s))) h = None"
    using sess.stop_find [OF safe(1)] by (simp add: eq s2_def s1_def)
  show "find_peer (m_net (messenger_view (main_shutdown s))) h = None"
    using mess.stop_find [OF safe(2)] by (simp add: eq s2_def)
  have g: "find_peer (m_net (game_view (main_shutdown s))) k = None" for k
    using present.stop_find [OF safe(3)] by (simp add: eq)
  then show "find_peer (m_net (game_view (main_shutdown s))) h = None" .
  have "settled (m_net (game_view (main_shutdown s))) = {}" using g by (simp add: settled_def)
  then have "accounts_of (m_app (game_view (main_shutdown s))) h = None"
    using shutdown_inv [OF assms] by (auto simp: program_inv_def game_good_def safe_def present_inv_def)
  then show "player_by_host (m_app (game_view (main_shutdown s))) h = None"
    by (simp add: accounts_of_def player_by_host_def)
qed

lemma stopped_by_signal:
  assumes "program_steps s0 s" "p_running s0" "\<not> p_running s"
  obtains t where "program_steps s0 t" "s = main_shutdown t"
  using assms
proof (induction rule: rtranclp_induct)
  case (step t s)
  then show ?case by (auto elim!: program_stepE)
qed simp

section \<open>Connections across a step\<close>

text \<open>
  Every connection of the later state is one of the earlier state, under the same HostID and address and
  not earlier in the handshake, with the same session key once the key exchange is over, or it is new.
\<close>

definition moves_forward :: "'u server \<Rightarrow> 'u server \<Rightarrow> bool" where
  "moves_forward s s' \<longleftrightarrow> (\<forall>h p'. find_peer s' h = Some p' \<longrightarrow>
     (\<exists>p. find_peer s h = Some p \<and> m_id p' = m_id p \<and> m_remote p' = m_remote p \<and> rank (m_state p) \<le> rank (m_state p') \<and>
        (m_state p \<noteq> awaiting_public_key \<longrightarrow> m_session_key p' = m_session_key p)) \<or>
     find_peer s h = None \<and> m_state p' = awaiting_public_key)"

lemma moves_forward_refl [simp]: "moves_forward s s"
  by (auto simp: moves_forward_def)

lemma server_moves_forward:
  "session_good c w \<Longrightarrow> net_step session_sink w w' \<Longrightarrow> moves_forward (m_net w) (m_net w')"
  "messenger_good c v \<Longrightarrow> net_step messenger_sink v v' \<Longrightarrow> moves_forward (m_net v) (m_net v')"
  "game_good c u \<Longrightarrow> net_step game_sink u u' \<Longrightarrow> moves_forward (m_net u) (m_net u')"
  unfolding moves_forward_def session_good_def messenger_good_def game_good_def
  using sess.step_evolves [of w w'] mess.step_evolves [of v v'] present.step_evolves [of u u']
  by (auto simp: evolves_def)

lemma program_moves_forward:
  assumes "program_inv c s" "program_step s s'"
  shows "moves_forward (m_net (session_view s)) (m_net (session_view s')) \<and>
    moves_forward (m_net (messenger_view s)) (m_net (messenger_view s')) \<and>
    moves_forward (m_net (game_view s)) (m_net (game_view s'))"
  using assms(2)
proof cases
  case signal
  with signal shutdown_closes [OF assms(1)] show ?thesis by (simp add: moves_forward_def)
qed (use assms(1) in \<open>auto simp: program_inv_def intro: server_moves_forward net_event_step\<close>)

end
