(* ===== verification/Wire_Properties.thy ===== *)
theory Wire_Properties
  imports Utf_Text Framing Rc4 Rsa
begin

text \<open>
  The properties of the wire and crypto layers: what is written is read back, text conversions
  implement UTF-8 and UTF-16, a byte stream is cut into frames independently of its chunks, RC4
  undoes itself, and the RSA code computes modular powers and hands the session key to the holder
  of the private key.
\<close>

section \<open>Reads stay inside their data\<close>








section \<open>Round trips\<close>

text \<open>every signed 64-bit number survives the compact scalar encoding, and the reader stops right
  behind it.\<close>

theorem scalar_round_trip:
  "read_scalar (reader_at pre (m_data (write_scalar v message_writer_new) @ post)) =
     Inr (v, reader_at (pre @ m_data (write_scalar v message_writer_new)) post)"
  using scalarc.dec_enc [where a = v and pre = pre and post = post] by (simp add: scalar_bytes_def)

text \<open>a byte array written by \<open>write_byte_array\<close> is read back by \<open>read_byte_array\<close>, and two encodings
  that begin the same bytes are the same array.\<close>

theorem byte_array_round_trip:
  assumes "length bs < 2 ^ 63" "length cs < 2 ^ 63"
  shows "read_byte_array (reader_at pre (m_data (write_byte_array bs message_writer_new) @ post)) =
      Inr (bs, reader_at (pre @ m_data (write_byte_array bs message_writer_new)) post) \<and>
    (m_data (write_byte_array bs message_writer_new) @ post = m_data (write_byte_array cs message_writer_new) @ post' \<longrightarrow>
      bs = cs \<and> post = post')"
  using byte_arrayc.dec_enc [OF assms(1), where pre = pre and post = post] byte_arrayc.enc_prefix_free [OF assms]
  by (simp add: byte_array_bytes_def)

theorem byte_array_round_trip_witness:
  "read_byte_array (reader_at [9] (m_data (write_byte_array [1, 2] message_writer_new) @ [7])) =
     Inr ([1, 2], reader_at [9, 1, 2, 1, 2] [7])"
  using byte_array_round_trip [of "[1, 2]" "[]" "[9]" "[7]" "[]"]
  by (simp add: wire_simps byte_array_bytes_eq scalar_bytes_eq ssize_def in_range_def)

text \<open>C28: the conversion of a UTF-8 text into UTF-16 code units is the one of the Unicode standard, never
  longer than the text, and the way back restores the text.\<close>

theorem utf_conversions:
  assumes "\<forall>c \<in> set cs. scalar_value c"
  shows "utf8_to_utf16 (utf8_text cs) = utf16_text cs \<and> utf16_to_utf8 (utf16_text cs) = utf8_text cs \<and>
    length (utf8_to_utf16 (utf8_text cs)) \<le> length (utf8_text cs)"
  using utf8_to_utf16_text [OF assms] utf16_to_utf8_text [OF assms] length_utf8_to_utf16 [of "utf8_text cs"] by simp

theorem utf_conversions_witness:
  "utf8_to_utf16 (utf8_text [0x48, 0x20AC, 0x1F600]) = utf16_text [0x48, 0x20AC, 0x1F600]"
  using utf_conversions [of "[0x48, 0x20AC, 0x1F600]"] by (simp add: scalar_value_def)

text \<open>a text sent with \<open>write_text\<close> arrives unchanged at \<open>read_string\<close>.\<close>

theorem text_round_trip:
  assumes "wire_text s"
  shows "read_string (reader_at pre (m_data (write_text s message_writer_new) @ post)) =
    Inr (s, reader_at (pre @ m_data (write_text s message_writer_new)) post)"
  using textc.dec_enc [OF assms, where pre = pre and post = post] by (simp add: text_bytes_def)

theorem text_round_trip_witness:
  "wire_text [0x48, 0x69] \<and>
   read_string (reader_at [] (m_data (write_text [0x48, 0x69] message_writer_new) @ [])) =
     Inr ([0x48, 0x69], reader_at (m_data (write_text [0x48, 0x69] message_writer_new)) [])"
proof -
  have "utf8_text [0x48, 0x69] = [0x48, 0x69]" by (simp add: utf8_text_def utf8_of_def)
  then have "valid_text [0x48, 0x69]"
    unfolding valid_text_def by (intro exI [of _ "[0x48, 0x69]"]) (simp add: scalar_value_def)
  then have "wire_text [0x48, 0x69]" by (simp add: wire_text_def u16string_max_size_def)
  with text_round_trip [of "[0x48, 0x69]" "[]" "[]"] show ?thesis by simp
qed

section \<open>Frames\<close>

text \<open>C26: however the bytes of a sequence of frames are cut into reads, the parser delivers exactly the
  payloads, in order, and keeps nothing back.\<close>

theorem frames_reassembled:
  assumes "\<forall>payload \<in> set ps. length payload \<le> max_frame_payload" "concat chunks = concat (map make_frame ps)"
  shows "receive chunks frame_parser_new = (ps, frame_parser_new)"
  using assms by (rule receive_frames)

theorem frames_reassembled_witness:
  "receive [[0x13], [0x57, 1, 3, 1], [2, 3]] frame_parser_new = ([[1, 2, 3]], frame_parser_new)"
  using frames_reassembled [of "[[1, 2, 3]]" "[[0x13], [0x57, 1, 3, 1], [2, 3]]"]
  by (simp add: make_frame_eq frame_magic_bytes scalar_bytes_eq ssize_def in_range_def max_frame_payload_def)

lemma drain_incomplete_bound: "drain p = (ps, incomplete, p') \<Longrightarrow> length (m_buffer p') < 11 + max_frame_payload"
proof (induction p arbitrary: ps rule: drain.induct)
  case (1 p)
  show ?case
  proof (cases "fst (parser_next p)")
    case (Inl e)
    with "1.prems" have "parser_next p = (Inl incomplete, p)"
      by (auto simp: drain.simps [of p] parser_next_def Let_def split: prod.splits sum.splits if_splits)
    with "1.prems" parser_next_incomplete_bound show ?thesis by (auto simp: drain.simps [of p])
  next
    case (Inr payload)
    then obtain q where q: "parser_next p = (Inr payload, q)" by (metis prod.collapse)
    with "1.prems" obtain qs where "drain q = (qs, incomplete, p')"
      by (auto simp: drain.simps [of p] Let_def split: prod.splits)
    then show ?thesis by (rule "1.IH" [OF q [symmetric] refl])
  qed
qed

text \<open>a peer cannot make the parser hoard data: what it keeps while it waits for the rest of a frame is
  shorter than one frame of the maximal size.\<close>

theorem parser_buffer_bounded:
  assumes "drain (feed data p) = (ps, incomplete, p')"
  shows "length (m_buffer p') < 0x100000 + 11"
  using drain_incomplete_bound [OF assms] by (simp add: max_frame_payload_def)

theorem parser_buffer_bounded_witness:
  "drain (feed [] frame_parser_new) = ([], incomplete, frame_parser_new) \<and>
   length (m_buffer frame_parser_new) < 0x100000 + 11"
proof -
  have "drain (feed [] frame_parser_new) = ([], incomplete, frame_parser_new)"
    using drain_empty by (simp add: feed_def)
  with parser_buffer_bounded [of "[]"] show ?thesis by blast
qed

lemma drain_error_stuck: "drain p = (ps, e, p') \<Longrightarrow> e \<noteq> incomplete \<Longrightarrow> drain p' = ([], e, p')"
proof (induction p arbitrary: ps rule: drain.induct)
  case (1 p)
  show ?case
  proof (cases "fst (parser_next p)")
    case (Inl x)
    with "1.prems" have "parser_next p = (Inl e, p)" "p' = p"
      by (auto simp: drain.simps [of p] parser_next_def Let_def split: prod.splits sum.splits if_splits)
    then show ?thesis by (simp add: drain.simps [of p])
  next
    case (Inr payload)
    then obtain q where q: "parser_next p = (Inr payload, q)" by (metis prod.collapse)
    with "1.prems" obtain qs where "drain q = (qs, e, p')"
      by (auto simp: drain.simps [of p] Let_def split: prod.splits)
    then show ?thesis using "1.prems"(2) by (rule "1.IH" [OF q [symmetric] refl])
  qed
qed

text \<open>a malformed stream stays malformed: after a wrong magic or length no later bytes turn the error
  into anything else or produce a payload.\<close>

theorem frame_error_permanent:
  assumes "drain p = (ps, e, p')" "e \<noteq> incomplete"
  shows "\<exists>p''. drain (feed extra p') = ([], e, p'')"
proof -
  have n: "parser_next p' = (Inl e, p')"
    using drain_error_stuck [OF assms]
    by (auto simp: drain.simps [of p'] Let_def split: prod.splits sum.splits)
  then have "parser_next (feed extra p') = (Inl e, feed extra p')"
    using parser_next_feed [OF n] assms(2) by simp
  then show ?thesis by (simp add: drain.simps [of "feed extra p'"])
qed

theorem frame_error_permanent_witness:
  "\<exists>p''. drain (feed [0x13, 0x57] \<lparr>m_buffer = [1, 2, 3]\<rparr>) = ([], bad_magic, p'')"
proof -
  have "drain \<lparr>m_buffer = [1, 2, 3]\<rparr> = ([], bad_magic, \<lparr>m_buffer = [1, 2, 3]\<rparr>)"
    by (subst drain.simps) (simp add: parser_next_def frame_header_def frame_magic_def)
  from frame_error_permanent [OF this] show ?thesis by simp
qed

section \<open>Ciphers and numbers\<close>

text \<open>RC4 with the same key undoes itself and keeps the length, and its key schedule ends in a permutation
  of the 256 bytes whatever the key is.\<close>

theorem rc4_involution:
  "rc4_apply key (rc4_apply key data) = data \<and> length (rc4_apply key data) = length data \<and>
   distinct (key_schedule key) \<and> set (key_schedule key) = UNIV"
proof -
  have m: "mset (key_schedule key) = mset initial_state" using sbox_ok_key_schedule by (simp add: sbox_ok_def)
  have u: "unat (of_nat i :: u8) = i" if "i < 256" for i
    using that by (simp only: unat_of_nat take_bit_nat_eq_self_iff) simp
  then have "inj_on (of_nat :: nat \<Rightarrow> u8) {0..<256}"
    by (intro inj_onI) (metis atLeastLessThan_iff)
  then have "distinct initial_state" by (simp add: initial_state_def distinct_map)
  moreover have "x \<in> set initial_state" for x :: u8
    using u8_less_256 [of x] by (auto simp: initial_state_def image_iff intro!: bexI [of _ "unat x"])
  ultimately show ?thesis
    using m rc4.apply_involution rc4.length_apply by (metis UNIV_eq_I mset_eq_imp_distinct_iff set_mset_mset)
qed

text \<open>C24: \<open>mod_pow\<close> computes the power modulo the modulus, on limbs of 32 bits and for every modulus but zero;
  only an exponent without limbs gives 1 even modulo 1.\<close>

theorem mod_pow_refines:
  assumes "trimmed m" "0 < val m"
  shows "val (mod_pow base ex m) = (if bit_length ex = 0 then 1 else val base ^ val ex mod val m)"
proof -
  have "val ex = 0" if "bit_length ex = 0" using that val_less_bit_length [of ex] by simp
  then show ?thesis using mod_pow_val [OF assms] by auto
qed

theorem mod_pow_refines_witness:
  "trimmed [0xFFFFFFFF] \<and> val (mod_pow [7, 1] [3] [0xFFFFFFFF]) = (7 + 2 ^ 32) ^ 3 mod 0xFFFFFFFF"
proof -
  have "trimmed [0xFFFFFFFF]" by (simp add: trimmed_def)
  moreover have "bit_length [3] \<noteq> 0" using val_less_bit_length [of "[3]"] by (intro notI) simp
  ultimately show ?thesis using mod_pow_refines [of "[0xFFFFFFFF]" "[7, 1]" "[3]"] by simp
qed

text \<open>the limb-wise multiplication, comparison, subtraction and remainder are those of the natural numbers.\<close>

theorem limb_arithmetic:
  assumes "trimmed a" "trimmed b"
  shows "val (mul a b) = val a * val b \<and> compare a b = sgn (int (val a) - int (val b)) \<and>
    (val b \<le> val a \<longrightarrow> val (sub a b) = val a - val b) \<and> (0 < val b \<longrightarrow> val (big_mod a b) = val a mod val b)"
  using assms by (simp add: val_mul compare_val val_sub big_mod_val)

theorem limb_arithmetic_witness:
  "val (mul [0xFFFFFFFF, 2] [5]) = (0xFFFFFFFF + 2 ^ 32 * 2) * 5 \<and> compare [0xFFFFFFFF, 2] [5] = 1 \<and>
   val (big_mod [0xFFFFFFFF, 2] [5]) = (0xFFFFFFFF + 2 ^ 32 * 2) mod 5"
  using limb_arithmetic [of "[0xFFFFFFFF, 2]" "[5]"] by (simp add: trimmed_def)

text \<open>byte strings and numbers correspond: parsing little-endian bytes and writing them back with the same
  length is the identity.\<close>

theorem bytes_number_round_trip:
  "val (from_le_bytes data) = bytes_val data \<and> to_le_bytes (from_le_bytes data) (length data) = data"
proof -
  have "bytes_val (to_le_bytes (from_le_bytes data) (length data)) = bytes_val data"
    using bytes_val_less [of data] by (simp add: bytes_val_to_le_bytes val_from_le_bytes)
  then have "to_le_bytes (from_le_bytes data) (length data) = data" by (rule bytes_val_inj [rotated]) simp
  then show ?thesis by (simp add: val_from_le_bytes)
qed

section \<open>Keys\<close>

text \<open>C25: the key exchange transports the session key: from the public key blob a client exports, the server
  builds a SIMPLEBLOB of the announced layout whose encrypted part the client's private exponent turns
  back into the padded session key, for every key pair and every random padding.\<close>

theorem session_key_transported:
  assumes "n \<noteq> []" "8 * length n < 2 ^ 32" "length k + 11 \<le> length n"
    and "rsa_key_pair \<lparr>modulus = from_le_bytes n, exponent = from_u32 e, modulus_bytes = length n\<rparr> d"
  shows "\<exists>key out g'. parse_publickeyblob (export_publickeyblob e n) = Inr key \<and>
    make_rc4_simpleblob key k g = (Inr out, g') \<and> length out = 12 + length n \<and>
    take 12 out = [simpleblob, cur_blob_version, 0, 0] @ le_bytes 4 calg_rc4 @ le_bytes 4 calg_rsa_keyx \<and>
    pkcs1_decode (rsa_private key d (drop 12 out)) = Some k"
proof -
  let ?key = "\<lparr>modulus = from_le_bytes n, exponent = from_u32 e, modulus_bytes = length n\<rparr>"
  have "parse_publickeyblob (export_publickeyblob e n) = Inr ?key"
    using parse_export [OF assms(1,2), of e "[]"] by simp
  moreover obtain out g' where "make_rc4_simpleblob ?key k g = (Inr out, g')" "length out = 12 + modulus_bytes ?key"
    "take 12 out = [simpleblob, cur_blob_version, 0, 0] @ le_bytes 4 calg_rc4 @ le_bytes 4 calg_rsa_keyx"
    "pkcs1_decode (rsa_private ?key d (drop 12 out)) = Some k"
  proof (rule make_rc4_simpleblob_ok [OF assms(4)])
    show "length k + 11 \<le> modulus_bytes ?key" using assms(3) by simp
  qed
  ultimately show ?thesis by auto
qed

theorem session_key_transported_witness:
  "\<exists>key out g'. parse_publickeyblob (export_publickeyblob 1 (replicate 32 0xC5)) = Inr key \<and>
    make_rc4_simpleblob key (replicate 16 0x2A) \<lparr>rng_numbers = \<lambda>_. 4, rng_position = 0\<rparr> = (Inr out, g') \<and>
    length out = 12 + length (replicate 32 (0xC5 :: u8)) \<and>
    take 12 out = [simpleblob, cur_blob_version, 0, 0] @ le_bytes 4 calg_rc4 @ le_bytes 4 calg_rsa_keyx \<and>
    pkcs1_decode (rsa_private key 1 (drop 12 out)) = Some (replicate 16 0x2A)"
proof (rule session_key_transported)
  show "rsa_key_pair \<lparr>modulus = from_le_bytes (replicate 32 0xC5), exponent = from_u32 1,
      modulus_bytes = length (replicate 32 (0xC5 :: u8))\<rparr> 1"
    by (rule rsa_identity_pair) simp_all
qed simp_all

text \<open>a message that leaves fewer than eleven bytes for the padding is refused before any random number is
  drawn; the exception reaches the read loop.\<close>

theorem short_key_refused:
  assumes "modulus_bytes key < length k + 11"
  shows "make_rc4_simpleblob key k g = (Inl (runtime_error ''RSA message too long''), g)"
  using assms by (simp add: make_rc4_simpleblob_def rsa_pkcs1_encrypt_def)

theorem short_key_refused_witness:
  "make_rc4_simpleblob \<lparr>modulus = [5], exponent = [3], modulus_bytes = 4\<rparr> (replicate 16 0) \<lparr>rng_numbers = \<lambda>_. 0, rng_position = 0\<rparr> =
     (Inl (runtime_error ''RSA message too long''), \<lparr>rng_numbers = \<lambda>_. 0, rng_position = 0\<rparr>)"
  by (rule short_key_refused) simp

lemma bytes_val_zeros: "bytes_val (replicate k 0) = 0"
  by (induction k) simp_all

text \<open>the parser of public keys accepts a modulus of zero, and then no reduction takes place: the server
  would compute the full, unreduced power.\<close>

theorem zero_modulus_accepted:
  assumes "0 < k" "8 * k < 2 ^ 32"
  shows "\<exists>key. parse_publickeyblob (export_publickeyblob e (replicate k 0)) = Inr key \<and> val (modulus key) = 0 \<and>
    val (mod_pow base (exponent key) (modulus key)) = val base ^ unat e"
proof -
  have "from_le_bytes (replicate k 0) = []"
    using trimmed_zero [OF trimmed_from_le_bytes, of "replicate k 0"] by (simp add: val_from_le_bytes bytes_val_zeros)
  then show ?thesis
    using parse_export [of "replicate k 0" e "[]"] assms mod_pow_zero_modulus [of base "from_u32 e"] by simp
qed

theorem zero_modulus_accepted_witness:
  "\<exists>key. parse_publickeyblob (export_publickeyblob 65537 (replicate 64 0)) = Inr key \<and> val (modulus key) = 0 \<and>
    val (mod_pow [2] (exponent key) (modulus key)) = val [2] ^ unat (65537 :: u32)"
  by (rule zero_modulus_accepted) simp_all

end
