(* ===== verification/Network_Properties.thy ===== *)
theory Network_Properties
  imports Proudnet_Channel
begin

text \<open>
  The properties of the ProudNet layer that hold for every application: the gate of the handshake,
  the encrypted channel, delivery by relays and groups, and the closing of connections.
\<close>

section \<open>Concrete states for the witnesses\<close>

definition demo_config :: server_config where
  "demo_config = \<lparr>sc_name = ''demo'', sc_port = 1, protocol_version = session_protocol_version,
     settings = net_settings_default, timeout = 90\<rparr>"

definition demo_peer :: "host_id \<Rightarrow> peer_state \<Rightarrow> bytes \<Rightarrow> unit peer" where
  "demo_peer h st key = (peer_new h \<lparr>ep_v4 = Some [127, 0, 0, 1], ep_port = 5\<rparr> 0)\<lparr>m_state := st, m_session_key := key\<rparr>"

definition demo_server :: "(host_id, unit peer) omap \<Rightarrow> (host_id, host_id oset) omap \<Rightarrow> unit server" where
  "demo_server peers groups =
     \<lparr>m_config = demo_config, m_instance_guid = replicate 16 0, m_rng = \<lparr>rng_numbers = \<lambda>_. 0, rng_position = 0\<rparr>,
      m_peers = peers, m_groups = groups, m_free_ids = [], m_next_id = 6, m_start_time = 0, m_next_event_id = 1,
      m_clock = \<lparr>clock_times = \<lambda>i. i, clock_position = 0\<rparr>, m_seconds = \<lambda>_. 0\<rparr>"

definition demo_sink :: "(unit, unit) event_sink" where
  "demo_sink = \<lparr>on_client_join = \<lambda>_ w. w, on_client_leave = \<lambda>_ w. w, on_rmi = \<lambda>_ _ _ w. (Inr False, w)\<rparr>"

lemmas demo_defs = demo_peer_def demo_server_def peer_new_def find_peer_def

section \<open>The handshake gate\<close>

text \<open>C17: before the connection is established, nothing but the next handshake message and encrypted messages
  has any effect: every other payload, RMIs included, leaves the whole state untouched.\<close>

theorem handshake_gate:
  assumes "find_peer (m_net w) h = Some p" "m_state p \<noteq> connected"
    and "type \<notin> {encrypted_reliable, encrypted_unreliable}"
    and "m_state p = awaiting_public_key \<longrightarrow> type \<noteq> notify_cs_public_key"
    and "m_state p = awaiting_connection_request \<longrightarrow> type \<noteq> notify_server_connection_request_data"
  shows "process_payload sink h (type # body) was_encrypted w = (Inr (), w)"
  using assms by (subst process_payload.simps) (auto simp: read_type message_type_defs)

theorem handshake_gate_witness:
  "process_payload demo_sink 3 (rmi # [1, 2, 3]) False
     \<lparr>m_net = demo_server [(3, demo_peer 3 awaiting_public_key [])] [], m_app = ()\<rparr> =
   (Inr (), \<lparr>m_net = demo_server [(3, demo_peer 3 awaiting_public_key [])] [], m_app = ()\<rparr>)"
  by (rule handshake_gate [where p = "demo_peer 3 awaiting_public_key []"]) (simp_all add: demo_defs message_type_defs)

text \<open>a client whose protocol version differs is told so and disconnected, one with the right version is
  connected and gets its HostID.\<close>

theorem connection_request_answer:
  assumes p: "find_peer (m_net w) h = Some p" "m_state p = awaiting_connection_request"
    and r: "length user < 2 ^ 63" "length version = 16"
  shows "process_payload sink h (notify_server_connection_request_data # byte_array_bytes user @ version @ le_bytes 4 (internal :: u32))
      was_encrypted w =
    (Inr (),
     if version \<noteq> protocol_version (m_config (m_net w))
     then peer_close sink h (with_net (on_peer h (peer_send [notify_protocol_version_mismatch] False)) w)
     else on_client_join sink h (with_net (on_peer h (\<lambda>p.
       peer_send (rmi # le_bytes 2 notify_speed_hack_detector_enabled @ [0]) False
         ((peer_send (m_data (connect_success (m_id p) (m_instance_guid (m_net w)) (m_remote p))) False p)
            \<lparr>m_state := connected\<rparr>))) w))"
proof -
  have "rbind read_byte_array (\<lambda>user_data. rbind read_guid (\<lambda>version. rbind read_u32 (\<lambda>internal_version. rreturn version)))
      (reader_at [notify_server_connection_request_data] (byte_array_bytes user @ version @ le_bytes 4 internal)) =
    Inr (version, reader_at (notify_server_connection_request_data # byte_array_bytes user @ version @ le_bytes 4 internal) [])"
    using r by (simp add: byte_arrayc.rbind_dec guidc.rbind_dec u32c.rbind_dec_end rreturn_def)
  then show ?thesis
    using p by (subst process_payload.simps)
      (simp add: read_type on_connection_request_def message_type_defs wire_simps Let_def)
qed

theorem connection_request_answer_witness:
  "\<exists>w'. process_payload demo_sink 3 (notify_server_connection_request_data # byte_array_bytes [] @
      session_protocol_version @ le_bytes 4 (0 :: u32)) False
      \<lparr>m_net = demo_server [(3, demo_peer 3 awaiting_connection_request (replicate 16 1))] [], m_app = ()\<rparr> = (Inr (), w')"
  using connection_request_answer [of
      "\<lparr>m_net = demo_server [(3, demo_peer 3 awaiting_connection_request (replicate 16 1))] [], m_app = ()\<rparr>" 3
      "demo_peer 3 awaiting_connection_request (replicate 16 1)" "[]" session_protocol_version demo_sink 0 False]
  by (simp add: demo_defs session_protocol_version_def length_derive_protocol_version)

text \<open>the first message of a client with an exported public key moves its connection to the next state with
  a fresh 16-byte session key, and the one frame it answers with lets the private key recover that key.\<close>

theorem key_exchange:
  assumes p: "find_peer (m_net w) h = Some p" "m_state p = awaiting_public_key"
    and key: "key = \<lparr>modulus = from_le_bytes n, exponent = from_u32 e, modulus_bytes = length n\<rparr>"
    and pair: "rsa_key_pair key d" and len: "27 \<le> length n" "8 * length n < 2 ^ 32"
  shows "\<exists>w' p' blob.
    process_payload sink h (notify_cs_public_key # byte_array_bytes (export_publickeyblob e n)) False w = (Inr (), w') \<and>
    find_peer (m_net w') h = Some p' \<and> m_state p' = awaiting_connection_request \<and>
    length (m_session_key p') = 16 \<and>
    sent p' = sent p @ [make_frame (notify_cs_encrypted_session_key # byte_array_bytes blob)] \<and>
    pkcs1_decode (rsa_private key d (drop 12 blob)) = Some (m_session_key p')"
proof -
  obtain k g where k: "draw_bytes rc4_key_bytes 0 255 (m_rng (m_net w)) = (k, g)" by force
  have lk: "length k = 16" using length_draw_bytes [OF k] by (simp add: rc4_key_bytes_def)
  obtain blob g' where b: "make_rc4_simpleblob key k g = (Inr blob, g')"
    "pkcs1_decode (rsa_private key d (drop 12 blob)) = Some k"
  proof (rule make_rc4_simpleblob_ok [OF pair])
    show "length k + 11 \<le> modulus_bytes key" using len lk key by simp
  qed
  have "n \<noteq> []" using len by auto
  then have parse: "parse_publickeyblob (export_publickeyblob e n) = Inr key"
    using parse_export [of n e "[]"] len key by simp
  have "length (export_publickeyblob e n) < 2 ^ 63" using len by (simp add: export_publickeyblob_def)
  then have read: "read_byte_array (reader_at [notify_cs_public_key] (byte_array_bytes (export_publickeyblob e n))) =
      Inr (export_publickeyblob e n, reader_at (notify_cs_public_key # byte_array_bytes (export_publickeyblob e n)) [])"
    using byte_arrayc.dec_end by simp
  have data: "m_data (write_byte_array blob (begin_message notify_cs_encrypted_session_key)) =
      notify_cs_encrypted_session_key # byte_array_bytes blob" by (simp add: wire_simps)
  define reply where "reply = (\<lambda>p :: 'a peer. (peer_send (notify_cs_encrypted_session_key # byte_array_bytes blob) False p)
      \<lparr>m_state := awaiting_connection_request\<rparr>)"
  let ?q = "reply (p\<lparr>m_session_key := k\<rparr>)"
  obtain w' where w': "process_payload sink h (notify_cs_public_key # byte_array_bytes (export_publickeyblob e n)) False w =
      (Inr (), w')" "find_peer (m_net w') h = Some ?q"
    using p by (simp add: process_payload.simps read_type on_public_key_def read parse k b data reply_def find_on_peer)
  have "sent (p\<lparr>m_session_key := k\<rparr>) = sent p" "sent (x\<lparr>m_state := y\<rparr>) = sent x" for x :: "'a peer" and y
    by (simp_all add: sent_def)
  then have "sent ?q = sent p @ [make_frame (notify_cs_encrypted_session_key # byte_array_bytes blob)]"
    using p by (simp add: reply_def sent_peer_send wire_payload_def)
  with w' b lk show ?thesis
    by (intro exI [of _ w'] exI [of _ ?q] exI [of _ blob]) (simp add: reply_def)
qed

theorem key_exchange_witness:
  "\<exists>w' p' blob.
    process_payload demo_sink 3 (notify_cs_public_key # byte_array_bytes (export_publickeyblob 1 (replicate 32 0xC5))) False
      \<lparr>m_net = demo_server [(3, demo_peer 3 awaiting_public_key [])] [], m_app = ()\<rparr> = (Inr (), w') \<and>
    find_peer (m_net w') 3 = Some p' \<and> m_state p' = awaiting_connection_request \<and>
    length (m_session_key p') = 16 \<and>
    sent p' = sent (demo_peer 3 awaiting_public_key []) @
      [make_frame (notify_cs_encrypted_session_key # byte_array_bytes blob)] \<and>
    pkcs1_decode (rsa_private \<lparr>modulus = from_le_bytes (replicate 32 0xC5), exponent = from_u32 1, modulus_bytes = 32\<rparr> 1
      (drop 12 blob)) = Some (m_session_key p')"
proof (rule key_exchange)
  show "rsa_key_pair \<lparr>modulus = from_le_bytes (replicate 32 0xC5), exponent = from_u32 1, modulus_bytes = 32\<rparr> 1"
    by (rule rsa_identity_pair) simp_all
qed (simp_all add: demo_defs)

section \<open>The encrypted channel\<close>

text \<open>C18: a payload encrypted under the session key with the expected serial is processed as if it had come in
  the clear, and the serial moves on; under any other serial, such as that of a replayed message, it is dropped
  and the state stays exactly as it was.\<close>

theorem encrypted_once:
  assumes "net_inv (m_net w)" "find_peer (m_net w) h = Some p" "m_session_key p \<noteq> []"
  shows "process_payload sink h (encrypt_payload (m_session_key p) serial payload) False w =
    (if serial = m_recv_serial p
     then process_payload sink h payload True (with_net (on_peer h (\<lambda>p. p\<lparr>m_recv_serial := m_recv_serial p + 1\<rparr>)) w)
     else (Inr (), w))"
proof -
  have "omap_ok (m_peers (m_net w))" using assms(1) by (simp add: net_inv_def peers_ok_def)
  then have "with_net (on_peer h (\<lambda>_. p)) w = w" using assms(2) by (simp add: with_net_def on_peer_same)
  moreover have "on_peer h (\<lambda>_. p\<lparr>m_recv_serial := m_recv_serial p + 1\<rparr>) (m_net w) =
      on_peer h (\<lambda>p. p\<lparr>m_recv_serial := m_recv_serial p + 1\<rparr>) (m_net w)"
    using assms(2) by (simp add: on_peer_def)
  ultimately show ?thesis using process_encrypted [OF assms(2,3)] by (simp add: with_net_def)
qed

lemma demo_net_inv: "net_inv (demo_server [(3, demo_peer 3 connected (replicate 16 1)), (4, demo_peer 4 connected (replicate 16 2))] [(5, [3, 4])])"
proof -
  let ?s = "demo_server [(3, demo_peer 3 connected (replicate 16 1)), (4, demo_peer 4 connected (replicate 16 2))] [(5, [3, 4])]"
  have c: "client_ids ?s = {3, 4}" "group_ids ?s = {5}"
    by (auto simp: client_ids_def group_ids_def demo_server_def find_peer_def dom_def split: if_splits)
  have "peer_ok (demo_peer h connected (replicate 16 b))" for h b
    by (simp add: peer_ok_def demo_peer_def peer_new_def queue_ok_def sent_def rc4_key_bytes_def)
  then have "peers_ok ?s"
    by (auto simp: peers_ok_def demo_server_def find_peer_def omap_ok_def demo_peer_def peer_new_def split: if_splits)
  moreover have "groups_ok ?s"
    by (auto simp: groups_ok_def demo_server_def find_peer_def omap_ok_def oset_ok_def split: if_splits)
  moreover have "pool_ok {3, 4, 5} ?s"
    by (auto simp: pool_ok_def demo_server_def)
  ultimately show ?thesis by (simp add: net_inv_def c insert_commute)
qed

theorem encrypted_once_witness:
  "process_payload demo_sink 3 (encrypt_payload (replicate 16 1) 7 [rmi]) False
     \<lparr>m_net = demo_server [(3, demo_peer 3 connected (replicate 16 1)), (4, demo_peer 4 connected (replicate 16 2))] [(5, [3, 4])],
      m_app = ()\<rparr> =
   (Inr (), \<lparr>m_net = demo_server [(3, demo_peer 3 connected (replicate 16 1)), (4, demo_peer 4 connected (replicate 16 2))] [(5, [3, 4])],
      m_app = ()\<rparr>)"
  using encrypted_once [of "\<lparr>m_net = demo_server [(3, demo_peer 3 connected (replicate 16 1)), (4, demo_peer 4 connected (replicate 16 2))] [(5, [3, 4])],
      m_app = ()\<rparr>" 3 "demo_peer 3 connected (replicate 16 1)" demo_sink 7 "[rmi]"] demo_net_inv
  by (simp add: demo_defs del: replicate.simps)

text \<open>C19: what the server sends encrypted is, for a client that counts the serials the same way, exactly the
  payload the application sent: the two directions of the channel use the same format.\<close>

theorem encrypted_send_decodes:
  assumes "m_state p \<noteq> closed" "m_session_key p \<noteq> []"
    and "m_session_key q = m_session_key p" "m_recv_serial q = m_send_serial p"
  shows "\<exists>frame. sent (peer_send payload True p) = sent p @ [make_frame (encrypted_reliable # frame)] \<and>
    on_encrypted True (reader_at [encrypted_reliable] frame) q =
      (Inr (Some payload), q\<lparr>m_recv_serial := m_send_serial p + 1\<rparr>) \<and>
    m_send_serial (peer_send payload True p) = m_send_serial p + 1"
proof -
  let ?c = "rc4_apply (m_session_key p) (le_bytes 2 (m_send_serial p) @ payload)"
  have "m_send_serial (peer_send payload True p) = m_send_serial p + 1"
    using assms by (simp add: peer_send_def Let_def)
  moreover have "sent (peer_send payload True p) = sent p @ [make_frame (encrypted_reliable # 1 # scalar_bytes (ssize ?c) @ ?c)]"
    using assms by (simp add: sent_peer_send wire_payload_def encrypt_payload_eq Let_def)
  moreover have "on_encrypted True (reader_at [encrypted_reliable] (1 # scalar_bytes (ssize ?c) @ ?c)) q =
      (Inr (Some payload), q\<lparr>m_recv_serial := m_send_serial p + 1\<rparr>)"
    using on_encrypted_reliable [of q "[encrypted_reliable]" ?c "m_send_serial p" payload] assms by simp
  ultimately show ?thesis by blast
qed

theorem encrypted_send_decodes_witness:
  "\<exists>frame. sent (peer_send [1, 2, 3] True (demo_peer 3 connected [9])) =
      sent (demo_peer 3 connected [9]) @ [make_frame (encrypted_reliable # frame)] \<and>
    on_encrypted True (reader_at [encrypted_reliable] frame) (demo_peer 8 connected [9]) =
      (Inr (Some [1, 2, 3]), (demo_peer 8 connected [9])\<lparr>m_recv_serial := 0 + 1\<rparr>)"
  using encrypted_send_decodes [of "demo_peer 3 connected [9]" "demo_peer 8 connected [9]" "[1, 2, 3]"]
  by (auto simp: demo_peer_def peer_new_def)

section \<open>Relays\<close>

text \<open>C20: an unreliable relay request reaches exactly the connected clients among its destinations, each of them
  once however often it is addressed, the members of an addressed group but not the sender through the group,
  and what they get names the true sender.\<close>

theorem unreliable_relay_exactly_once:
  assumes "length payload < 2 ^ 63" "length dests < 2 ^ 63"
  shows "\<exists>s'. relay_unreliable from_id (reader_at pre (priority # scalar_bytes unique @ scalar_bytes (ssize dests) @
      concat (map (le_bytes 4) dests) @ byte_array_bytes payload)) s = (Inr (), s') \<and>
    (\<forall>h. sent_to s' h = sent_to s h @
       (if (\<exists>d \<in> set dests. h \<in> set (destinations (m_groups s) from_id d)) \<and> is_connected s h
        then [make_frame (unreliable_relay2 # le_bytes 4 from_id @ byte_array_bytes payload)] else []))"
  by (rule relay_unreliable_sends [OF assms, unfolded unreliable_relay_payload_def])

theorem unreliable_relay_exactly_once_witness:
  "\<exists>s'. relay_unreliable 3 (reader_at [21] (0 # scalar_bytes 1 @ scalar_bytes (ssize [5, 4 :: u32]) @
      concat (map (le_bytes 4) [5, 4 :: u32]) @ byte_array_bytes [8])) (demo_server [(3, demo_peer 3 connected []), (4, demo_peer 4 connected [])] [(5, [3, 4])]) = (Inr (), s') \<and>
    sent_to s' 4 = [make_frame (unreliable_relay2 # le_bytes 4 (3 :: u32) @ byte_array_bytes [8])] \<and> sent_to s' 3 = []"
  using unreliable_relay_exactly_once [of "[8]" "[5, 4]" 3 "[21]" 0 1
      "demo_server [(3, demo_peer 3 connected []), (4, demo_peer 4 connected [])] [(5, [3, 4])]"]
  by (auto simp: demo_defs sent_to_def is_connected_def destinations_def sent_def)

text \<open>a reliable relay request reaches every connected destination once per entry of its list, with the frame
  number of the entry, in the order of the list; nobody else gets anything.\<close>

theorem reliable_relay_delivers:
  fixes dests :: "(host_id \<times> u32) list"
  assumes "length data < 2 ^ 63" "length dests < 2 ^ 63"
  shows "\<exists>s'. relay_reliable from_id (reader_at pre (scalar_bytes (ssize dests) @
      concat (map (\<lambda>(d, f). le_bytes 4 d @ le_bytes 4 f) dests) @ byte_array_bytes data)) s = (Inr (), s') \<and>
    (\<forall>h. sent_to s' h = sent_to s h @
       (if is_connected s h
        then map (\<lambda>(d, f). make_frame (reliable_relay2 # le_bytes 4 from_id @ le_bytes 4 f @ byte_array_bytes data))
               (filter (\<lambda>(d, f). d = h) dests) else []))"
  by (rule relay_reliable_sends [OF assms, unfolded reliable_relay_payload_def])

theorem reliable_relay_delivers_witness:
  "\<exists>s'. relay_reliable 3 (reader_at [20] (scalar_bytes (ssize [(4 :: u32, 17 :: u32)]) @
      concat (map (\<lambda>(d, f). le_bytes 4 d @ le_bytes 4 f) [(4 :: u32, 17 :: u32)]) @ byte_array_bytes [8]))
      (demo_server [(3, demo_peer 3 connected []), (4, demo_peer 4 connected [])] []) = (Inr (), s') \<and>
    sent_to s' 4 = [make_frame (reliable_relay2 # le_bytes 4 (3 :: u32) @ le_bytes 4 (17 :: u32) @ byte_array_bytes [8])]"
  using reliable_relay_delivers [of "[8]" "[(4, 17)]" 3 "[20]"
      "demo_server [(3, demo_peer 3 connected []), (4, demo_peer 4 connected [])] []"]
  by (auto simp: demo_defs sent_to_def is_connected_def sent_def)

section \<open>Groups and closing\<close>

text \<open>C21: when a client joins a group, it is told about every member, itself included, in order, every other
  connected member is told about it once, and nobody else hears anything.\<close>

theorem group_join_notifies:
  assumes "net_inv s" "map_of (m_groups s) g = Some members" "m \<notin> set members" "find_peer s m \<noteq> None"
  shows "map_of (m_groups (join_p2p_group g m s)) g = Some (oset_add m members) \<and>
    (\<exists>es e. length es = Suc (length members) \<and> sent_to (join_p2p_group g m s) h = sent_to s h @
      (if \<not> is_connected s h then []
       else if h = m then map2 (\<lambda>x e. make_frame (join_payload g x e (m_instance_guid s))) (oset_add m members) es
       else if h \<in> set members then [make_frame (join_payload g m e (m_instance_guid s))] else []))"
proof -
  let ?s = "s\<lparr>m_groups := omap_put g (oset_add m members) (m_groups s)\<rparr>"
  have j: "join_p2p_group g m s = fold (join_round g m) (oset_add m members) ?s"
    unfolding join_p2p_group_eq assms(2) using assms(3,4) by auto
  have o: "oset_ok members" using net_inv_group_members [OF assms(1,2)] by blast
  have l: "length (oset_add m members) = Suc (length members)"
    using assms(3) by (induction members) (auto simp: Suc_length_conv)
  obtain es e where "length es = length (oset_add m members)"
    "sent_to (fold (join_round g m) (oset_add m members) ?s) h = sent_to ?s h @
      (if \<not> is_connected ?s h then []
       else if h = m then map2 (\<lambda>x e. make_frame (join_payload g x e (m_instance_guid ?s))) (oset_add m members) es
       else if h \<in> set (oset_add m members) then [make_frame (join_payload g m e (m_instance_guid ?s))] else [])"
    using sent_to_join_fold [OF oset_add_distinct [OF o, of m], of g m ?s h] by auto
  then have "\<exists>es e. length es = Suc (length members) \<and> sent_to (join_p2p_group g m s) h = sent_to s h @
      (if \<not> is_connected s h then []
       else if h = m then map2 (\<lambda>x e. make_frame (join_payload g x e (m_instance_guid s))) (oset_add m members) es
       else if h \<in> set members then [make_frame (join_payload g m e (m_instance_guid s))] else [])"
    unfolding j l by (intro exI [of _ es] exI [of _ e]) auto
  moreover have "map_of (m_groups (join_p2p_group g m s)) g = Some (oset_add m members)"
    unfolding m_groups_join assms(2) using assms(3,4) by (auto simp: map_of_omap_put)
  ultimately show ?thesis by blast
qed

theorem group_join_notifies_witness:
  "map_of (m_groups (join_p2p_group 5 4 (demo_server [(3, demo_peer 3 connected (replicate 16 1)), (4, demo_peer 4 connected (replicate 16 2))] [(5, [3])]))) 5
     = Some [3, 4]"
proof -
  let ?s = "demo_server [(3, demo_peer 3 connected (replicate 16 1)), (4, demo_peer 4 connected (replicate 16 2))] [(5, [3, 4])]"
  let ?t = "demo_server [(3, demo_peer 3 connected (replicate 16 1)), (4, demo_peer 4 connected (replicate 16 2))] [(5, [3])]"
  have t: "?t = ?s\<lparr>m_groups := omap_put 5 [3] (m_groups ?s)\<rparr>" by (simp add: demo_server_def)
  have "net_inv ?t"
    unfolding t
  proof (rule net_inv_put_group [OF demo_net_inv])
    show "map_of (m_groups ?s) 5 = Some [3, 4]" by (simp add: demo_server_def)
  qed (simp_all add: oset_ok_def demo_server_def find_peer_def)
  then show ?thesis
    using group_join_notifies [of ?t 5 "[3]" 4 3] by (simp add: demo_server_def find_peer_def)
qed

text \<open>when a connection is closed, its client is a member of no group any more, every other member of its
  groups is told once per group, and its HostID is free for the next client.\<close>

theorem closing_leaves_groups:
  assumes "net_inv s" "map_of (m_groups s) g = Some members" "h \<in> set members"
  shows "map_of (m_groups (on_peer_closed h s)) g = Some (oset_del h members) \<and>
    find_peer (on_peer_closed h s) h = None \<and> h \<in> set (m_free_ids (on_peer_closed h s)) \<and>
    sent_to (leave_p2p_group g h s) k = sent_to s k @
      (if k \<in> set members \<and> is_connected s k then [make_frame (leave_payload g h)] else [])"
  using assms sent_to_leave [of members s g h k] net_inv_group_members [OF assms(1,2)]
  by (simp add: on_peer_closed_effect)

theorem closing_leaves_groups_witness:
  "map_of (m_groups (on_peer_closed 3 (demo_server [(3, demo_peer 3 connected (replicate 16 1)), (4, demo_peer 4 connected (replicate 16 2))] [(5, [3, 4])]))) 5
     = Some [4]"
  using closing_leaves_groups [OF demo_net_inv, of 5 "[3, 4]" 3 4]
  by (simp add: demo_server_def oset_del_def)



end
