(* ===== verification/Server_Properties.thy ===== *)
theory Server_Properties
  imports Messenger_Inv
begin

text \<open>
  The properties of the account store, the configuration, the session server and the messenger
  server. The server properties are about every state a server can reach from its construction, by
  any sequence of completion handlers.
\<close>

section \<open>Concrete servers for the witnesses\<close>

definition demo_rng :: rng where
  "demo_rng = \<lparr>rng_numbers = \<lambda>_. 0, rng_position = 0\<rparr>"

definition demo_clock :: clock where
  "demo_clock = \<lparr>clock_times = \<lambda>i. i * 10 ^ 12, clock_position = 0\<rparr>"

definition demo_endpoint :: endpoint where
  "demo_endpoint = \<lparr>ep_v4 = Some [127, 0, 0, 1], ep_port = 5\<rparr>"

definition demo_session :: session_world where
  "demo_session = session_new config_default (account_store_new [] True) demo_rng demo_clock (\<lambda>_. 0)"

definition demo_messenger :: messenger_world where
  "demo_messenger = messenger_new config_default (account_store_new [] True) (\<lambda>_. []) demo_rng demo_clock (\<lambda>_. 0)"

lemma draw_zeros: "draw_bytes n 0 255 \<lparr>rng_numbers = \<lambda>_. 0, rng_position = k\<rparr> =
  (replicate n 0, \<lparr>rng_numbers = \<lambda>_. 0, rng_position = k + n\<rparr>)"
  by (induction n arbitrary: k) (simp_all add: uniform_int_def)

lemmas demo_start_defs = draw_zeros messenger_server_config_def
  demo_session_def demo_messenger_def demo_rng_def demo_clock_def session_new_def messenger_new_def server_new_def
  session_server_config_def accept_done_eq accept_net_def allocate_host_id_def clock_now_def find_peer_def on_peer_def
  peer_new_def peer_send_def write_next_def omap_emplace_def host_id_first_client_def Let_def


lemma no_peers_new [simp]: "m_peers (server_new c g clk seconds) = []"
  by (simp add: server_new_def split: prod.split)


section \<open>Accounts\<close>

text \<open>once a login has succeeded, exactly its password is accepted for that user, whatever logins of whichever
  users are attempted in between.\<close>

theorem password_fixed:
  assumes "login u p s = (login_ok, s')"
  shows "fst (login u q (fold (\<lambda>(v, r) s. snd (login v r s)) attempts s')) = login_ok \<longleftrightarrow> q = p"
  using assms by (rule acc.same_password_only)

theorem password_fixed_witness:
  "fst (login [65] [67] (snd (login [65] [68] (snd (login [65] [66] (account_store_new [] True)))))) \<noteq> login_ok"
proof -
  have "login [65] [66] (account_store_new [] True) = (login_ok, snd (login [65] [66] (account_store_new [] True)))"
    by (simp add: login_def account_store_new_def)
  from password_fixed [OF this, of "[67]" "[([65], [68])]"] show ?thesis by simp
qed



text \<open>C37: a registration the file cannot hold damages the accounts. With an empty password, which \<open>login\<close> accepts,
  the next line of the file is read as the password, and the next user is unknown after a restart.\<close>

theorem empty_password_corrupts_file:
  "let s = snd (login [67] [68] (snd (login [65] [] (account_store_new [] True)))) in
     fst (login [67] [68] s) = login_ok \<and>
     find_account (account_store_new (m_file s) False) [67] = None \<and>
     fst (login [65] [67] (account_store_new (m_file s) False)) = login_ok"
proof -
  have f: "m_file (snd (login [67] [68] (snd (login [65] [] (account_store_new [] True))))) = [65, 32, 10, 67, 32, 68, 10]"
    by (simp add: login_def account_store_new_def add_def omap_emplace_def)
  have "words [65, 32, 10, 67, 32, 68, 10] = [[65], [67], [68]]"
    by (simp add: words.simps is_space_def not_space_def)
  then show ?thesis
    unfolding Let_def f
    by (simp add: account_store_new_def login_def add_def omap_emplace_def find_account_def)
qed

text \<open>whatever the file held and whoever has logged in, two accounts with one index are the same account.\<close>

theorem account_index_unique:
  assumes "s = fold (\<lambda>(u, p) s. snd (login u p s)) attempts (account_store_new file reg)"
    and "length (m_accounts s) < 2 ^ 32"
    and "find_account s u = Some a" "find_account s v = Some b" "acc_index a = acc_index b"
  shows "u = v \<and> acc_username a = u"
proof -
  have ok: "store_ok (m_accounts s)"
    unfolding assms(1)
    by (induction attempts rule: rev_induct) (auto simp: store_ok_new store_ok_login)
  then have "u = v"
    using store_ok_index_inj [OF ok assms(2)] assms(3-5) by (simp add: find_account_def)
  with ok assms(3) show ?thesis by (simp add: store_ok_def find_account_def)
qed

theorem account_index_unique_witness:
  "find_account (snd (login [65] [66] (account_store_new [] True))) [65] =
     Some \<lparr>acc_index = 1, acc_username = [65], acc_password = [66]\<rparr> \<and>
   ([65 :: u8] = [65] \<and> acc_username \<lparr>acc_index = 1, acc_username = [65], acc_password = [66]\<rparr> = [65])"
proof -
  let ?s = "snd (login [65] [66] (account_store_new [] True))"
  have f: "find_account ?s [65] = Some \<lparr>acc_index = 1, acc_username = [65], acc_password = [66]\<rparr>"
    "length (m_accounts ?s) < 2 ^ 32"
    by (simp_all add: login_def account_store_new_def add_def omap_emplace_def find_account_def)
  have "[65 :: u8] = [65] \<and> acc_username \<lparr>acc_index = 1, acc_username = [65], acc_password = [66]\<rparr> = [65]"
    by (rule account_index_unique [of _ "[([65], [66])]" "[]" True, OF _ f(2) f(1) f(1)]) simp_all
  with f show ?thesis by blast
qed

section \<open>Configuration\<close>

lemma trim_text_word: "s \<noteq> [] \<Longrightarrow> \<not> is_blank (hd s) \<Longrightarrow> \<not> is_blank (last s) \<Longrightarrow> trim_text s = s"
proof -
  assume s: "s \<noteq> []" "\<not> is_blank (hd s)" "\<not> is_blank (last s)"
  then have "dropWhile is_blank s = s" by (cases s) auto
  moreover have "dropWhile is_blank (rev s) = rev s" using s by (cases s rule: rev_cases) auto
  ultimately show ?thesis by (simp add: trim_text_def)
qed

lemma digit_not_blank: "is_digit c \<Longrightarrow> \<not> is_blank c" "is_digit c \<Longrightarrow> c \<noteq> 0x0A" "is_digit c \<Longrightarrow> c \<noteq> 0x3D"
  by (auto simp: is_digit_def is_blank_def)

lemma getlines_line: "0x0A \<notin> set line \<Longrightarrow> getlines (line @ 0x0A # input) = line # getlines input"
proof -
  assume n: "0x0A \<notin> set line"
  have "takeWhile (\<lambda>c. c \<noteq> 0x0A) (line @ 0x0A # input) = line \<and>
      dropWhile (\<lambda>c. c \<noteq> 0x0A) (line @ 0x0A # input) = 0x0A # input"
    using n by (induction line) auto
  then show ?thesis by (subst getlines.simps) simp
qed

text \<open>a port written in decimal in the section of the session server is the port it listens on, and a number
  that does not fit into 16 bits gives the default.\<close>

theorem configured_port:
  "session_port (main_config (Some (ascii ''[session]'' @ [0x0A] @ ascii ''port = '' @ decimal n @ [0x0A]))) =
     (if n < 2 ^ 16 then of_nat n else 23111)"
proof -
  let ?v = "decimal n"
  have d: "?v \<noteq> []" "\<forall>c \<in> set ?v. is_digit c" using decimal_digits [of n] by blast+
  then have hl: "is_digit (hd ?v)" "is_digit (last ?v)" by simp_all
  have v: "trim_text ?v = ?v" using d(1) hl digit_not_blank(1) by (intro trim_text_word) auto
  have v': "trim_text (0x20 # ?v) = ?v" using v by (simp add: trim_text_def is_blank_def)
  have line: "trim_text (ascii ''port = '' @ ?v) = ascii ''port = '' @ ?v"
    using d(1) hl(2) digit_not_blank(1) by (intro trim_text_word) (auto simp: ascii_def is_blank_def)
  have g: "getlines (ascii ''[session]'' @ [0x0A] @ ascii ''port = '' @ ?v @ [0x0A]) =
      [ascii ''[session]'', ascii ''port = '' @ ?v]"
    using d(2) digit_not_blank(2) getlines_line [of "ascii ''[session]''" "ascii ''port = '' @ ?v @ [0x0A]"]
      getlines_line [of "ascii ''port = '' @ ?v" "[]"]
    by (auto simp: ascii_def getlines.simps [of "[]"])
  have l1: "load_line (ascii ''[session]'') ([], []) = (ascii ''session'', [])"
    by (simp add: load_line_def ascii_def trim_text_def is_blank_def)
  have f: "fold load_line [ascii ''[session]'', ascii ''port = '' @ ?v] ([], []) =
      (ascii ''session'', [(ascii ''session.port'', ?v)])" if
    "load_line (ascii ''port = '' @ ?v) (ascii ''session'', []) = (ascii ''session'', [(ascii ''session.port'', ?v)])"
    using that by (simp add: l1)
  have l2: "load_line (ascii ''port = '' @ ?v) (ascii ''session'', []) =
      (ascii ''session'', [(ascii ''session.port'', ?v)])"
    unfolding load_line_def Let_def line using v'
    by (simp add: ascii_def trim_text_def is_blank_def)
  show ?thesis
    unfolding main_config_def ini_load_def option.case g f [OF l2]
    by (simp add: config_from_def Let_def get_number_def ini_get_def parse_u16_decimal) (simp add: config_default_def)
qed

section \<open>Every reachable state\<close>



section \<open>The session server\<close>

text \<open>C34: a logon with good credentials is answered with the address of the game server, the client is recorded as
  the user's connection, the connection the user had before is told to close, and nobody else hears anything.
  Bad credentials get an error and change neither the users online nor the account store.\<close>

theorem session_logon_effect:
  assumes "login user password (ss_accounts (m_app w)) = (result, accounts)" "peer_open (m_net w) client"
  defines "w' \<equiv> session_logon client user password w"
  shows "sent_to (m_net w') client = sent_to (m_net w) client @
      [make_frame (answer_payload (ss_config (m_app w))
        (if result = login_ok then logon_result_ok else logon_result_wrong_password))] \<and>
    (\<forall>h. h \<noteq> client \<longrightarrow> sent_to (m_net w') h = sent_to (m_net w) h @
      (if result = login_ok \<and> map_of (m_online (m_app w)) user = Some h \<and> peer_open (m_net w) h
       then [make_frame (m_data kick_message)] else [])) \<and>
    map_of (m_online (m_app w')) =
      (if result = login_ok then (map_of (m_online (m_app w)))(user \<mapsto> client) else map_of (m_online (m_app w))) \<and>
    ss_accounts (m_app w') = accounts"
  using assms(1,2) session_logon_app [OF assms(1), of client]
  unfolding w'_def
  by (cases result) (auto simp: session_logon_sends map_of_omap_put)

theorem session_logon_effect_witness:
  "sent_to (m_net (session_logon 3 [65] [66] (accept_done (Some demo_endpoint) demo_session))) 3 =
     sent_to (m_net (accept_done (Some demo_endpoint) demo_session)) 3 @
       [make_frame (answer_payload config_default logon_result_ok)]"
proof -
  let ?w = "accept_done (Some demo_endpoint) demo_session"
  have "ss_accounts (m_app ?w) = account_store_new [] True" "ss_config (m_app ?w) = config_default"
    by (simp_all add: demo_session_def session_new_def accept_done_eq)
  moreover have "peer_open (m_net ?w) 3"
    by (simp add: demo_start_defs peer_open_def)
  moreover have "login [65] [66] (account_store_new [] True) = (login_ok, snd (login [65] [66] (account_store_new [] True)))"
    by (simp add: login_def account_store_new_def)
  ultimately show ?thesis
    using session_logon_effect [of "[65]" "[66]" ?w login_ok _ 3] by simp
qed

text \<open>a connection that logs on under a second name stays recorded under the first one after it is closed, so
  its HostID, free for the next client, is still the first user's connection.\<close>

theorem session_stale_entry:
  assumes "find_peer (m_net w) client = Some p" "m_state p = connected"
    "user_data p = Some u" "su_username u \<noteq> first" "map_of (m_online (m_app w)) first = Some client"
  shows "map_of (m_online (m_app (peer_close session_sink client w))) first = Some client \<and>
    find_peer (m_net (peer_close session_sink client w)) client = None \<and>
    client \<in> set (m_free_ids (m_net (peer_close session_sink client w)))"
  using session_leave_forgets_one [OF assms] assms(1,2)
  by (simp add: peer_close_def session_sink_def Let_def on_peer_closed_effect)

definition demo_twice :: session_world where
  "demo_twice = session_logon 3 [66] [67] (session_logon 3 [65] [67]
     (with_net (on_peer 3 (\<lambda>p. p\<lparr>m_state := connected\<rparr>)) (accept_done (Some demo_endpoint) demo_session)))"

theorem session_stale_entry_witness:
  "map_of (m_online (m_app (peer_close session_sink 3 demo_twice))) [65] = Some 3"
proof -
  have o: "map_of (m_online (m_app demo_twice)) [65] = Some 3"
    by (simp add: demo_twice_def demo_session_def session_new_def accept_done_eq session_logon_app [OF surjective_pairing]
        login_def account_store_new_def add_def omap_emplace_def map_of_omap_put)
  obtain q where q: "find_peer (m_net (with_net (on_peer 3 (\<lambda>p. p\<lparr>m_state := connected\<rparr>))
      (accept_done (Some demo_endpoint) demo_session))) 3 = Some q" "m_state q = connected"
    by (auto simp: demo_start_defs)
  then obtain p where p: "find_peer (m_net demo_twice) 3 = Some p" "m_state p = connected"
    "user_data p = Some \<lparr>su_username = [66], su_nation = 1\<rparr>"
    by (auto simp: demo_twice_def demo_session_def session_new_def accept_done_eq session_logon_def Let_def
        login_def account_store_new_def add_def omap_emplace_def find_on_peer)
  show ?thesis using session_stale_entry [OF p _ o] by simp
qed

section \<open>The messenger\<close>

text \<open>C33: nobody becomes a friend without consent: whatever message a logged-in user sends, the friendships that
  exist afterwards existed before, or are between that user and somebody whose request was pending at the user.
  A logon changes no friendship.\<close>

theorem friendship_needs_consent:
  assumes "map_of (m_users (m_app w)) client = Some u"
    and "y \<in> set (friends_of (m_app (snd (messenger_on_rmi client i params w))) x)"
  shows "y \<in> set (friends_of (m_app w) x) \<or>
    (\<exists>r \<in> set (pending_requests u). {x, y} = {acc_username (mu_account u), r})"
proof -
  have "consented (\<lambda>x. set (friends_of (m_app w) x)) u (m_app w)" by (simp add: consented_def)
  then have "consented (\<lambda>x. set (friends_of (m_app w) x)) u (m_app (snd (user_on_rmi client u i params w)))"
    by (rule consented_user_on_rmi)
  moreover have "friends_of (m_app (snd (reading (read_pair read_string read_string) params w
      (\<lambda>(user, password). messenger_logon client user password)))) x = friends_of (m_app w) x" for x
    by (auto simp: reading_def friends_of_logon split: sum.split)
  ultimately show ?thesis
    using assms by (auto simp: messenger_on_rmi_def consented_def split: if_splits)
qed

text \<open>A messenger with one connected user, who has a pending request\<close>

definition demo_user :: messenger_user where
  "demo_user = \<lparr>mu_host = 3, mu_account = \<lparr>acc_index = 1, acc_username = [65], acc_password = [67]\<rparr>, mu_room = 0,
     position_a = 0, position_b = 0, pending_requests = [[66]]\<rparr>"

definition demo_online :: messenger_world where
  "demo_online = with_app (\<lambda>a. a\<lparr>m_users := [(3, demo_user)], ms_accounts := account_store_new [65, 32, 67, 10] True\<rparr>)
     (with_net (on_peer 3 (\<lambda>p. p\<lparr>m_state := connected\<rparr>)) (accept_done (Some demo_endpoint) demo_messenger))"

lemma demo_online_app:
  "m_app demo_online = \<lparr>ms_accounts = account_store_new [65, 32, 67, 10] True, m_users = [(3, demo_user)],
     m_friendships = [], ms_dates = \<lambda>_. [], ms_date_position = 0\<rparr>"
  by (simp add: demo_online_def demo_messenger_def messenger_new_def accept_done_eq)

lemma wire_text_B: "wire_text [66]"
proof -
  have "utf8_text [66] = [66]" by (simp add: utf8_text_def utf8_of_def)
  then have "valid_text [66]" unfolding valid_text_def by (intro exI [of _ "[66]"]) (simp add: scalar_value_def)
  then show ?thesis by (simp add: wire_text_def u16string_max_size_def)
qed

theorem friendship_needs_consent_witness:
  "[66] \<in> set (friends_of (m_app (snd (messenger_on_rmi 3 Agree_Friend_Answer
       (reader_at [] (text_bytes [66] @ [1])) demo_online))) [65]) \<and>
   ([66] \<in> set (friends_of (m_app demo_online) [65]) \<or>
     (\<exists>r \<in> set (pending_requests demo_user). {[65], [66]} = {acc_username (mu_account demo_user), r}))"
proof -
  have f: "[66] \<in> set (friends_of (m_app (snd (messenger_on_rmi 3 Agree_Friend_Answer
       (reader_at [] (text_bytes [66] @ [1])) demo_online))) [65])"
  proof -
    have "read_string (reader_at [] (text_bytes [66] @ [1])) = Inr ([66], reader_at (text_bytes [66]) [1])"
      using textc.dec_enc [OF wire_text_B, of "[]" "[1]"] by simp
    then have "read_pair read_string read_u8 (reader_at [] (text_bytes [66] @ [1])) =
        Inr (([66], 1), reader_at (text_bytes [66] @ [1]) [])"
      by (simp add: read_pair_def rbind_def rreturn_def codec_simps)
    then show ?thesis
      by (simp add: messenger_on_rmi_def user_on_rmi_defs clms_defs demo_online_app reading_def answer_friend_def Let_def
          demo_user_def friends_of_put online_def split: option.split)
  qed
  then show ?thesis
    using friendship_needs_consent [OF _ f, of demo_user] by (simp add: demo_online_app)
qed

text \<open>a whisper reaches the first connected user of that name and nobody else, under the account name of the
  sender whatever the client claims; when nobody of that name is online, only the sender hears, that the target
  is offline.\<close>

theorem whisper_delivery:
  "sent_to (m_net (whisper u target body flag w)) h = sent_to (m_net w) h @
     (case online (m_app w) target of
        Some (_, other) \<Rightarrow> if h = mu_host other \<and> is_connected (m_net w) h
          then [make_frame (rmi # le_bytes 2 Whisper_UserIndex_MSCL @ text_bytes (acc_username (mu_account u)) @
                  text_bytes body @ [flag])] else []
      | None \<Rightarrow> if h = mu_host u \<and> is_connected (m_net w) h
          then [make_frame (rmi # le_bytes 2 Whisper_Answer @ text_bytes target @ le_bytes 2 whisper_target_offline)] else [])"
  unfolding whisper_sends whisper_payload_def ..

text \<open>C36: a second logon of a user on its own connection closes that connection and nevertheless records the user
  as logged in under its HostID, which is free again: the next client with that HostID counts as this user.\<close>

theorem second_logon_ghost_user:
  assumes "messenger_inv (m_app w)" "map_of (m_users (m_app w)) client = Some u" "online (m_app w) user = Some (client, u)"
    and "find_peer (m_net w) client = Some p" "m_state p = connected"
    and "find_account (ms_accounts (m_app w)) user = Some a" "acc_password a = password"
  shows "find_peer (m_net (messenger_logon client user password w)) client = None \<and>
    client \<in> set (m_free_ids (m_net (messenger_logon client user password w))) \<and>
    (\<exists>u'. map_of (m_users (m_app (messenger_logon client user password w))) client = Some u' \<and> mu_account u' = a)"
  using second_logon_closes_itself [OF assms] by blast

theorem second_logon_ghost_user_witness:
  "find_peer (m_net (messenger_logon 3 [65] [67] demo_online)) 3 = None \<and>
   3 \<in> set (m_free_ids (m_net (messenger_logon 3 [65] [67] demo_online))) \<and>
   (\<exists>u'. map_of (m_users (m_app (messenger_logon 3 [65] [67] demo_online))) 3 = Some u' \<and>
     mu_account u' = \<lparr>acc_index = 1, acc_username = [65], acc_password = [67]\<rparr>)"
proof -
  have "words [65, 32, 67, 10] = [[65], [67]]" by (simp add: words.simps is_space_def not_space_def)
  then have a: "find_account (ms_accounts (m_app demo_online)) [65] =
      Some \<lparr>acc_index = 1, acc_username = [65], acc_password = [67]\<rparr>"
    by (simp add: demo_online_app account_store_new_def find_account_def add_def omap_emplace_def)
  obtain p where p: "find_peer (m_net demo_online) 3 = Some p" "m_state p = connected"
    unfolding demo_online_def by (auto simp: demo_start_defs)
  have "messenger_inv (m_app demo_online)" "map_of (m_users (m_app demo_online)) 3 = Some demo_user"
    "online (m_app demo_online) [65] = Some (3, demo_user)"
    by (simp_all add: demo_online_app messenger_inv_def users_ok_def friends_sym_def friends_of_def demo_user_def online_def omap_ok_def)
  from second_logon_ghost_user [OF this p a] show ?thesis by simp
qed

end
