(* ===== verification/Game_Properties.thy ===== *)
theory Game_Properties
  imports Game_Presence Network_Properties Server_Properties
begin

text \<open>
  The properties of the game server: what entering, leaving, creating and listing rooms does, who may
  change a room, that handlers do not run into undefined behaviour, and where the server misbehaves.
\<close>

section \<open>Concrete games for the witnesses\<close>

definition demo_player :: "host_id \<Rightarrow> str \<Rightarrow> room_ref option \<Rightarrow> u32 \<Rightarrow> player" where
  "demo_player h nick ref slot =
     (player_new h \<lparr>acc_index = 1, acc_username = nick, acc_password = [67]\<rparr> nick)
       \<lparr>pl_channel := 0, current_room := ref, pl_slot := slot\<rparr>"

definition demo_room :: "host_id list \<Rightarrow> room" where
  "demo_room slots = \<lparr>r_info = new_room_info 1 room_info_default, r_channel = 0, r_slots = slots,
     r_closed = replicate 8 False, master_slot = 0, p2p_group = 5, playing = False\<rparr>"

text \<open>Player 3 is in room 1 and player 4 in the lobby, or in the room as well.\<close>

definition demo_game :: "player \<Rightarrow> host_id list \<Rightarrow> game_world" where
  "demo_game p slots =
     \<lparr>m_net = demo_server [(3, demo_peer 3 connected (replicate 16 1)), (4, demo_peer 4 connected (replicate 16 2))] [(5, [3, 4])],
      m_app = \<lparr>gs_accounts = account_store_new [] True, m_players = [(3, demo_player 3 [65] (Some 0) 0), (4, p)],
        m_rooms = [(1, 0)], room_store = [demo_room slots], m_next_room_number = 2, gs_fault = None\<rparr>\<rparr>"

definition demo_lobby :: game_world where
  "demo_lobby = demo_game (demo_player 4 [66] None 0) [3, 0, 0, 0, 0, 0, 0, 0]"

definition demo_pair :: game_world where
  "demo_pair = demo_game (demo_player 4 [66] (Some 0) 1) [3, 4, 0, 0, 0, 0, 0, 0]"

lemmas demo_game_defs = demo_lobby_def demo_pair_def demo_game_def demo_player_def demo_room_def player_new_def
  new_room_info_def

lemma demo_game_inv: "game_inv (m_app demo_lobby)" "game_inv (m_app demo_pair)"
  by (auto simp: game_inv_def demo_game_defs omap_ok_def room_ok_def player_ok_def listed_ok_def split: if_splits)

lemma demo_lobby_facts:
  "player_by_host (m_app demo_lobby) 4 = Some (demo_player 4 [66] None 0)"
  "player_by_host (m_app demo_lobby) 3 = Some (demo_player 3 [65] (Some 0) 0)"
  "current_room (demo_player h nick ref slot) = ref" "pl_host (demo_player h nick ref slot) = h"
  "pl_slot (demo_player h nick ref slot) = slot" "pl_channel (demo_player h nick ref slot) = 0"
  "room_store (m_app demo_lobby) = [demo_room [3, 0, 0, 0, 0, 0, 0, 0]]" "m_rooms (m_app demo_lobby) = [(1, 0)]"
  "room_at (m_app demo_lobby) 0 = demo_room [3, 0, 0, 0, 0, 0, 0, 0]"
  by (simp_all add: demo_game_defs player_by_host_def room_at_def)

lemma demo_room_facts:
  "r_slots (demo_room slots) = slots" "\<not> playing (demo_room slots)" "r_channel (demo_room slots) = 0"
  "ri_password (r_info (demo_room slots)) = []" "ri_number (r_info (demo_room slots)) = 1" "master_slot (demo_room slots) = 0"
  "free_slot (demo_room [3, 0, 0, 0, 0, 0, 0, 0]) = Some 1" "p2p_group (demo_room slots) = 5"
  by (simp_all add: demo_room_def new_room_info_def free_slot_def capacity_def room_slots_def room_info_default_def upt_rec)

lemma demo_joins:
  "r_slots (room_at (m_app (join_room 4 0 demo_lobby)) 0) = [3, 4, 0, 0, 0, 0, 0, 0]"
  using join_lobby(1) [of demo_lobby 4 "demo_player 4 [66] None 0" 0 1]
  by (simp add: demo_lobby_facts demo_room_facts joined_room_def room_at_def)

section \<open>The invariant\<close>

section \<open>Entering and leaving\<close>



text \<open>C13: when a player leaves a room, by itself or kicked, its slot is free again. The last one to leave takes the
  room off the list and its P2P group with it. Otherwise the room stays, every other member is told of the leaver
  and, when the master has left, of the new master, who sits in the lowest slot that is taken.\<close>

theorem leave_room_effect:
  fixes k :: bool
  assumes "game_inv (m_app w)" "player_by_host (m_app w) h = Some p" "current_room p = Some ref"
  defines "r \<equiv> room_at (m_app w) ref" and "w' \<equiv> remove_from_room h k w"
  defines "r' \<equiv> room_at (m_app w') ref"
  shows "player_by_host (m_app w') h = Some (p\<lparr>current_room := None, ready := False\<rparr>) \<and>
    r_slots r' = (r_slots r)[unat (pl_slot p) := 0] \<and>
    (if \<forall>x \<in> set (r_slots r'). x = 0
     then map_of (m_rooms (m_app w')) (ri_number (r_info r)) = None \<and> map_of (m_groups (m_net w')) (p2p_group r) = None
     else m_rooms (m_app w') = m_rooms (m_app w) \<and>
       (master_slot r = pl_slot p \<longrightarrow> r_slots r' ! unat (master_slot r') \<noteq> 0 \<and> (\<forall>i < unat (master_slot r'). r_slots r' ! i = 0)) \<and>
       (x \<noteq> h \<and> x \<noteq> 0 \<longrightarrow> (\<exists>n. sent_to (m_net w') x = sent_to (m_net w) x @
         replicate n (make_frame (leave_payload (p2p_group r) h)) @
         (if is_connected (m_net w) x
          then replicate (count_list (r_slots r) x) (make_frame (m_data (Room_Del_User_GSCL h (pl_slot p) 0))) @
            (if master_slot r = pl_slot p
             then replicate (count_list (r_slots r) x) (make_frame (m_data (New_RoomMaster_GSCL (master_slot r')))) else [])
          else []))))"
proof -
  have p: "map_of (m_players (m_app w)) h = Some p" using assms(2) by (simp add: player_by_host_def)
  note ro = leave_app_room [OF assms(1) p assms(3)]
  have r': "r' = left_room p r" and app: "m_app w' = leave_app h (m_app w)"
    using ro(1) by (simp_all add: r'_def w'_def r_def m_app_remove assms(1))
  have pc: "player_count r' = 0 \<longleftrightarrow> (\<forall>x \<in> set (r_slots r'). x = 0)" using player_count_pos [of r'] by blast
  have ref: "ref < length (room_store (m_app w))" using game_inv_player [OF assms(1) p] assms(3) by (simp add: player_ok_def)
  have rok: "room_ok r" using game_inv_room [OF assms(1) ref] by (simp add: r_def room_at_def)
  have m: "r_slots r' ! unat (master_slot r') \<noteq> 0 \<and> (\<forall>i < unat (master_slot r'). r_slots r' ! i = 0)"
    if "player_count r' \<noteq> 0" "master_slot r = pl_slot p"
    using that new_master_lowest [OF rok] by (simp add: r')
  have s: "\<exists>n. sent_to (m_net w') x = sent_to (m_net w) x @
         replicate n (make_frame (leave_payload (p2p_group r) h)) @
         (if is_connected (m_net w) x
          then replicate (count_list (r_slots r) x) (make_frame (m_data (Room_Del_User_GSCL h (pl_slot p) 0))) @
            (if master_slot r = pl_slot p
             then replicate (count_list (r_slots r) x) (make_frame (m_data (New_RoomMaster_GSCL (master_slot r')))) else [])
          else [])" if "player_count r' \<noteq> 0" "x \<noteq> h" "x \<noteq> 0"
    using leave_sends [OF assms(1) p assms(3), of x k] that unfolding r' r_def w'_def by blast
  have p': "player_by_host (m_app w') h = Some (p\<lparr>current_room := None, ready := False\<rparr>)"
    using ro(2) by (simp add: app player_by_host_def)
  have sl: "r_slots r' = (r_slots r)[unat (pl_slot p) := 0]" by (simp add: r' left_room_slots)
  show ?thesis
  proof (cases "player_count r' = 0")
    case True
    then have z: "\<forall>x \<in> set (r_slots r'). x = 0" unfolding pc .
    have g: "map_of (m_groups (m_net w')) (p2p_group r) = None"
      using last_leaves_group [OF assms(1) p assms(3), of k] True by (simp add: r' w'_def r_def)
    have n: "map_of (m_rooms (m_app w')) (ri_number (r_info r)) = None"
      using True ro(3) by (simp add: app r' r_def map_of_omap_del)
    show ?thesis unfolding if_P [OF z] by (intro conjI p' sl g n)
  next
    case False
    then have z: "\<not> (\<forall>x \<in> set (r_slots r'). x = 0)" unfolding pc .
    have rooms: "m_rooms (m_app w') = m_rooms (m_app w)" using False ro(3) by (simp add: app r' r_def)
    show ?thesis
      unfolding if_not_P [OF z]
      by (intro conjI impI p' sl rooms s [OF False]) (use m [OF False] in blast)+
  qed
qed

theorem leave_room_effect_witness:
  "r_slots (room_at (m_app (remove_from_room 3 False demo_pair)) 0) = [0, 4, 0, 0, 0, 0, 0, 0] \<and>
   m_rooms (m_app (remove_from_room 3 False demo_pair)) = [(1, 0)]"
proof -
  have "player_by_host (m_app demo_pair) 3 = Some (demo_player 3 [65] (Some 0) 0)"
    "current_room (demo_player 3 [65] (Some 0) 0) = Some 0"
    by (simp_all add: demo_game_defs player_by_host_def)
  moreover have "r_slots (room_at (m_app demo_pair) 0) = [3, 4, 0, 0, 0, 0, 0, 0]" "pl_slot (demo_player 3 [65] (Some 0) 0) = 0"
    "m_rooms (m_app demo_pair) = [(1, 0)]"
    by (simp_all add: demo_game_defs room_at_def)
  ultimately show ?thesis
    using leave_room_effect [OF demo_game_inv(2), of 3 "demo_player 3 [65] (Some 0) 0" 0 False 4] by simp
qed

text \<open>C14: Enter_Room lets a player in only when the room is in the list of the player's channel, no game runs, the
  password is right and a slot is free; in all other cases players and rooms stay as they are.\<close>

theorem enter_room_guard:
  assumes "player_by_host (m_app w) client = Some p"
    and "m_app (snd (game_on_rmi client Enter_Room_CLGS params w)) \<noteq> m_app w"
  shows "\<exists>number password params' ref. read_pair read_u16 read_string params = Inr ((number, password), params') \<and>
    map_of (m_rooms (m_app w)) number = Some ref \<and> r_channel (room_at (m_app w) ref) = pl_channel p \<and>
    \<not> playing (room_at (m_app w) ref) \<and>
    (ri_password (r_info (room_at (m_app w) ref)) = [] \<or> ri_password (r_info (room_at (m_app w) ref)) = password) \<and>
    free_slot (room_at (m_app w) ref) \<noteq> None \<and>
    snd (game_on_rmi client Enter_Room_CLGS params w) = join_room (pl_host p) ref w"
proof -
  have rmi: "game_on_rmi client Enter_Room_CLGS params w = enter_room p params w"
    by (rule game_on_rmi_handler [OF handler_of(2) assms(1)])
  show ?thesis
  proof (cases "read_pair read_u16 read_string params")
    case (Inr x)
    obtain number password params' where x: "x = ((number, password), params')" by (metis surj_pair)
    obtain ref where ref: "find_room (m_app w) (pl_channel p) number = Some ref"
      using assms(2) by (cases "find_room (m_app w) (pl_channel p) number")
        (simp_all add: rmi enter_room_def reading_def Inr x enter_refused_def)
    then have "map_of (m_rooms (m_app w)) number = Some ref" "r_channel (room_at (m_app w) ref) = pl_channel p"
      by (auto simp: find_room_def split: option.splits if_splits)
    moreover have "\<not> playing (room_at (m_app w) ref)" "free_slot (room_at (m_app w) ref) \<noteq> None"
      "ri_password (r_info (room_at (m_app w) ref)) = [] \<or> ri_password (r_info (room_at (m_app w) ref)) = password"
      using assms(2) by (auto simp: rmi enter_room_def reading_def Inr x ref enter_refused_def Let_def split: if_splits)
    ultimately show ?thesis
      by (auto simp: rmi enter_room_def reading_def Inr x ref Let_def)
  qed (use assms(2) in \<open>simp add: rmi enter_room_def reading_def\<close>)
qed

theorem enter_room_guard_witness:
  "snd (game_on_rmi 4 Enter_Room_CLGS (reader_at [] (le_bytes 2 (1 :: u16) @ text_bytes [66])) demo_lobby) =
     join_room 4 0 demo_lobby"
proof -
  let ?r = "reader_at [] (le_bytes 2 (1 :: u16) @ text_bytes [66])"
  have p: "player_by_host (m_app demo_lobby) 4 = Some (demo_player 4 [66] None 0)" by (rule demo_lobby_facts)
  have d: "read_pair read_u16 read_string ?r = Inr ((1, [66]), reader_at (le_bytes 2 (1 :: u16) @ text_bytes [66]) [])"
    by (simp add: read_pair_def u16c.rbind_dec textc.rbind_dec_end wire_text_B rreturn_def)
  have "m_app (snd (game_on_rmi 4 Enter_Room_CLGS ?r demo_lobby)) = m_app (join_room 4 0 demo_lobby)"
    unfolding game_on_rmi_handler [OF handler_of(2) p]
    by (simp add: enter_room_def reading_def d find_room_def demo_lobby_facts demo_room_facts)
  moreover have "m_app (join_room 4 0 demo_lobby) \<noteq> m_app demo_lobby"
    using demo_joins by (auto simp: demo_lobby_facts demo_room_facts)
  ultimately show ?thesis
    using enter_room_guard [OF p, of ?r] by (auto simp: d demo_lobby_facts)
qed

text \<open>C15: the settings of a room, its slots, the start of the game and kicking belong to the master: sent by anybody
  else these messages change nothing and send nothing.\<close>

theorem room_settings_need_master:
  assumes "player_by_host (m_app w) client = Some p" "\<not> is_master (m_app w) p"
    and "i \<in> {Change_Map_CLGS, Change_Type_CLGS, Change_Lap_CLGS, Change_Attribute_CLGS, Change_RandomMap_CLGS,
      Kicked_Room_CLGS, CloseSlot_Room_CLGS, OpenSlot_Room_CLGS, Start_Game_CLGS}"
  shows "snd (game_on_rmi client i params w) = w"
proof -
  have "\<exists>f \<in> {change_map, change_type, change_lap, change_attribute, change_random_map, kick, close_slot, open_slot, start_game}.
      map_of m_handlers i = Some f"
    using assms(3) by (auto simp: handler_of)
  then obtain f where f: "map_of m_handlers i = Some f"
    "f \<in> {change_map, change_type, change_lap, change_attribute, change_random_map, kick, close_slot, open_slot, start_game}"
    by blast
  show ?thesis
    unfolding game_on_rmi_handler [OF f(1) assms(1)] by (rule master_only [OF assms(2) f(2)])
qed

theorem room_settings_need_master_witness:
  "snd (game_on_rmi 4 Start_Game_CLGS (reader_at [] [0, 0]) demo_pair) = demo_pair"
  by (rule room_settings_need_master [where p = "demo_player 4 [66] (Some 0) 1"])
    (simp_all add: demo_game_defs player_by_host_def is_master_def room_at_def)

section \<open>Listing and creating rooms\<close>

text \<open>C29: a page of the room list has at most eight rooms, and the pages together list every room of the channel once,
  in order of their numbers.\<close>

theorem room_pages_complete:
  "length (room_page a c page) \<le> 8 \<and>
   concat (map (room_page a c) [0..<(length (rooms_in a c) + 7) div 8]) =
     map (\<lambda>ref. listed_info (room_at a ref)) (filter (\<lambda>ref. r_channel (room_at a ref) = c) (map snd (m_rooms a)))"
proof -
  have "length (rooms_in a c) \<le> (length (rooms_in a c) + 7) div 8 * 8" by simp
  then have "take ((length (rooms_in a c) + 7) div 8 * 8) (rooms_in a c) = rooms_in a c" by (rule take_all)
  then show ?thesis
    using room_page_length [of a c page] room_pages [of a c "(length (rooms_in a c) + 7) div 8"] by (simp add: rooms_in_def)
qed

text \<open>C16: a player in the lobby of a channel who sends a room description gets a room of that channel with a number
  no room had, alone in the first slot and master, with the title and password sent, room for at least one and at
  most eight players, provided that fewer than 65535 rooms are open.\<close>

theorem create_room_effect:
  fixes pre post :: bytes
  assumes "game_inv (m_app w)" "player_by_host (m_app w) client = Some p" "current_room p = None"
    and "pl_channel p \<noteq> no_channel" "wire_room_info i"
    and "length (m_rooms (m_app w)) < 2 ^ 16 - 1" "length (m_groups (m_net w)) < 2 ^ 30"
  defines "a \<equiv> m_app (snd (game_on_rmi client Create_Room_CLGS (reader_at pre (room_info_bytes i @ post)) w))"
  shows "\<exists>n ref q. n \<noteq> 0 \<and> map_of (m_rooms (m_app w)) n = None \<and> find_room a (pl_channel p) n = Some ref \<and>
    r_slots (room_at a ref) = client # replicate 7 0 \<and> ri_title (r_info (room_at a ref)) = ri_title i \<and>
    ri_password (r_info (room_at a ref)) = ri_password i \<and> 1 \<le> capacity (room_at a ref) \<and> capacity (room_at a ref) \<le> 8 \<and>
    player_by_host a client = Some q \<and> current_room q = Some ref \<and> is_master a q"
proof -
  have h: "pl_host p = client" using game_inv_player [OF assms(1)] assms(2) by (simp add: player_by_host_def player_ok_def)
  have rm: "remove_from_room (pl_host p) False w = w" using remove_lobby assms(2,3) h by simp
  have "snd (create_room p (reader_at pre (room_info_bytes i @ post)) w) = open_room p i w"
    using assms(4,5) rm by (simp add: create_room_def reading_def roomc.dec_enc)
  then have a: "a = m_app (open_room p i w)"
    unfolding a_def game_on_rmi_handler [OF handler_of(1) assms(2)] by simp
  have p: "player_by_host (m_app w) (pl_host p) = Some p" using assms(2) h by simp
  let ?ref = "length (room_store (m_app w))"
  obtain n where n: "n \<noteq> 0" "map_of (m_rooms (m_app w)) n = None" "map_of (m_rooms a) = (map_of (m_rooms (m_app w)))(n \<mapsto> ?ref)"
    "r_info (room_at a ?ref) = new_room_info n i" "r_channel (room_at a ?ref) = pl_channel p"
    "r_slots (room_at a ?ref) = client # replicate 7 0" "master_slot (room_at a ?ref) = 0"
    "map_of (m_players a) client = Some (p\<lparr>current_room := Some ?ref, pl_slot := 0, ready := False\<rparr>)"
    using open_room_effect [OF assms(1) p assms(6,7), of i] unfolding a h by metis
  then show ?thesis
    using new_room_capacity [OF n(4)]
    by (intro exI [of _ n] exI [of _ ?ref] exI [of _ "p\<lparr>current_room := Some ?ref, pl_slot := 0, ready := False\<rparr>"])
      (simp add: find_room_def player_by_host_def is_master_def new_room_info_def)
qed

theorem create_room_effect_witness:
  "\<exists>n. n \<noteq> 0 \<and> find_room (m_app (snd (game_on_rmi 4 Create_Room_CLGS
     (reader_at [] (room_info_bytes (room_info_default\<lparr>ri_title := [66]\<rparr>) @ [])) demo_lobby))) 0 n \<noteq> None"
proof -
  have "wire_text []" using wire_text_Nil .
  then have "wire_room_info (room_info_default\<lparr>ri_title := [66]\<rparr>)"
    by (simp add: wire_room_info_def room_info_default_def wire_text_B)
  moreover have "length (m_groups (m_net demo_lobby)) < 2 ^ 30" by (simp add: demo_game_defs demo_server_def)
  ultimately show ?thesis
    using create_room_effect [OF demo_game_inv(1), of 4 "demo_player 4 [66] None 0" "room_info_default\<lparr>ri_title := [66]\<rparr>" "[]" "[]"]
    by (auto simp: demo_lobby_facts no_channel_def)
qed



section \<open>Messages\<close>

text \<open>C30: a room description and an avatar arrive as they were sent, whatever comes before and after them in the
  message, and an avatar always takes 81 bytes.\<close>

theorem room_info_round_trip:
  assumes "wire_text (ri_title i)" "wire_text (ri_password i)" "wire_text (ri_str_18 i)" "length (ri_slots i) = 8"
    and "length (av_parts v) = 14"
  shows "room_info_read (reader_at pre (m_data (room_info_write i message_writer_new) @ post)) =
      Inr (i, reader_at (pre @ m_data (room_info_write i message_writer_new)) post) \<and>
    avatar_info_read (reader_at pre (m_data (avatar_info_write v message_writer_new) @ post)) =
      Inr (v, reader_at (pre @ m_data (avatar_info_write v message_writer_new)) post) \<and>
    length (m_data (avatar_info_write v message_writer_new)) = 81"
  using roomc.dec_enc [of i pre post] avatarc.dec_enc [of v pre post] length_avatar_info_bytes [of v] assms
  by (simp add: wire_room_info_def room_info_bytes_def avatar_info_bytes_def)

theorem room_info_round_trip_witness:
  "avatar_info_read (reader_at [] (m_data (avatar_info_write avatar_info_default message_writer_new) @ [7])) =
     Inr (avatar_info_default, reader_at (m_data (avatar_info_write avatar_info_default message_writer_new)) [7])"
  using room_info_round_trip [of room_info_default avatar_info_default "[]" "[7]"]
  by (simp add: wire_text_Nil room_info_default_def avatar_info_default_def)

text \<open>C31: a line of lobby chat reaches exactly the connected players of the sender's channel who are in no room, once
  each, the sender included.\<close>

theorem lobby_chat_delivery:
  assumes "game_inv (m_app w)" "player_by_host (m_app w) client = Some p" "wire_text body"
  shows "sent_to (m_net (snd (game_on_rmi client Lobby_Chat_CLGS (reader_at pre (text_bytes body @ post)) w))) h =
    sent_to (m_net w) h @
    (if is_connected (m_net w) h \<and>
        (\<exists>q. player_by_host (m_app w) h = Some q \<and> pl_channel q = pl_channel p \<and> current_room q = None)
     then [make_frame (rmi # le_bytes 2 id_Lobby_Chat @ le_bytes 4 (pl_host p) @ text_bytes body)] else [])"
  unfolding game_on_rmi_handler [OF handler_of(12) assms(2)]
  using sent_to_channel_lobby [OF assms(1), of "pl_channel p" "Lobby_Chat_GSCL (pl_host p) body" h]
  by (auto simp: lobby_chat_def reading_def textc.dec_enc assms(3) player_by_host_def Lobby_Chat_GSCL_def wire_simps)

theorem lobby_chat_delivery_witness:
  "sent_to (m_net (snd (game_on_rmi 3 Lobby_Chat_CLGS (reader_at [] (text_bytes [66] @ [])) demo_lobby))) 4 =
     sent_to (m_net demo_lobby) 4 @ [make_frame (rmi # le_bytes 2 id_Lobby_Chat @ le_bytes 4 (3 :: u32) @ text_bytes [66])]"
proof -
  have "is_connected (m_net demo_lobby) 4" by (simp add: demo_game_defs demo_defs is_connected_def)
  then show ?thesis
    using lobby_chat_delivery [OF demo_game_inv(1) demo_lobby_facts(2) wire_text_B, of "[]" "[]" 4]
    by (simp add: demo_lobby_facts)
qed

section \<open>Where the server misbehaves\<close>

text \<open>C38: a player who is alone in a room and enters it again by its number ends up in a room that is no longer in
  the list and has no P2P group, so that nobody can ever join it.\<close>

theorem reentering_orphans_room:
  assumes "game_inv (m_app w)" "player_by_host (m_app w) client = Some p" "current_room p = Some ref"
    and "map_of (m_rooms (m_app w)) n = Some ref" "r_channel (room_at (m_app w) ref) = pl_channel p"
    and "\<not> playing (room_at (m_app w) ref)" "ri_password (r_info (room_at (m_app w) ref)) = []"
    and "\<forall>x \<in> set ((r_slots (room_at (m_app w) ref))[unat (pl_slot p) := 0]). x = 0"
    and "free_slot (room_at (m_app w) ref) \<noteq> None" "wire_text body"
  shows "\<exists>w' q. snd (game_on_rmi client Enter_Room_CLGS (reader_at pre (le_bytes 2 n @ text_bytes body @ post)) w) = w' \<and>
    player_by_host (m_app w') client = Some q \<and> current_room q = Some ref \<and> ref \<notin> ran (map_of (m_rooms (m_app w'))) \<and>
    map_of (m_groups (m_net w')) (p2p_group (room_at (m_app w) ref)) = None"
proof -
  have h: "pl_host p = client" using game_inv_player [OF assms(1)] assms(2) by (simp add: player_by_host_def player_ok_def)
  have "read_pair read_u16 read_string (reader_at pre (le_bytes 2 n @ text_bytes body @ post)) =
      Inr ((n, body), reader_at (pre @ le_bytes 2 n @ text_bytes body) post)"
    using assms(10) by (simp add: read_pair_def u16c.rbind_dec textc.rbind_dec rreturn_def)
  then have "snd (game_on_rmi client Enter_Room_CLGS (reader_at pre (le_bytes 2 n @ text_bytes body @ post)) w) =
      join_room client ref w"
    unfolding game_on_rmi_handler [OF handler_of(2) assms(2)]
    using assms(4-7,9) h by (auto simp: enter_room_def reading_def find_room_def)
  with rejoin_alone [OF assms(1-4,8,9)] show ?thesis by auto
qed

theorem reentering_orphans_room_witness:
  "\<exists>w'. snd (game_on_rmi 3 Enter_Room_CLGS (reader_at [] (le_bytes 2 (1 :: u16) @ text_bytes [66] @ [])) demo_lobby) = w' \<and>
     0 \<notin> ran (map_of (m_rooms (m_app w')))"
  using reentering_orphans_room [OF demo_game_inv(1) demo_lobby_facts(2), of 0 1 "[66]" "[]" "[]"]
  by (auto simp: demo_lobby_facts demo_room_facts wire_text_B)



text \<open>C40: a player who is alone in a room, not in its last slot, and sends the GM's kick with its own nickname makes
  the server read the slots of the room after it has been freed.\<close>

theorem gm_kick_self_frees_room:
  assumes "game_inv (m_app w)" "player_by_host (m_app w) client = Some p" "current_room p = Some ref"
    and "\<forall>x \<in> set ((r_slots (room_at (m_app w) ref))[unat (pl_slot p) := 0]). x = 0" "unat (pl_slot p) < 7"
    and "wire_text (nickname p)" "gs_fault (m_app w) = None" "map_of (m_rooms (m_app w)) n = Some ref"
  shows "gs_fault (m_app (snd (game_on_rmi client UserKickRoom_GM_CLGS (reader_at pre (text_bytes (nickname p) @ post)) w))) =
    Some use_after_free"
proof -
  have "snd (gm_kick p (reader_at pre (text_bytes (nickname p) @ post)) w) = gm_kick_loop ref (nickname p) [0..<8] w"
    using assms(3,6) by (simp add: gm_kick_def reading_def textc.dec_enc in_room_def room_slots_def)
  then show ?thesis
    unfolding game_on_rmi_handler [OF handler_of(13) assms(2)]
    using gm_kick_alone [OF assms(1-4) assms(8,5)] assms(7) by simp
qed

theorem gm_kick_self_frees_room_witness:
  "gs_fault (m_app (snd (game_on_rmi 3 UserKickRoom_GM_CLGS (reader_at [] (text_bytes [66] @ []))
     (on_player 3 (\<lambda>p. p\<lparr>nickname := [66]\<rparr>) demo_lobby)))) = Some use_after_free"
proof -
  let ?w = "on_player 3 (\<lambda>p. p\<lparr>nickname := [66]\<rparr>) demo_lobby"
  let ?p = "(demo_player 3 [65] (Some 0) 0)\<lparr>nickname := [66]\<rparr>"
  have "game_inv (m_app ?w)" using demo_game_inv(1) by (rule on_player_inv) (simp add: player_ok_def)
  moreover have "player_by_host (m_app ?w) 3 = Some ?p" "room_store (m_app ?w) = room_store (m_app demo_lobby)"
    "m_rooms (m_app ?w) = [(1, 0)]" "gs_fault (m_app ?w) = None"
    by (simp_all add: m_app_on_player demo_game_defs player_by_host_def)
  ultimately show ?thesis
    using gm_kick_self_frees_room [of ?w 3 ?p 0 1 "[]" "[]"]
    by (simp add: demo_lobby_facts demo_room_facts room_at_def wire_text_B)
qed

end
