(* ===== verification/Spec2Isabelle.thy ===== *)
theory Spec2Isabelle
  imports Program Wire_Properties Network_Properties Server_Properties Game_Properties
begin

text \<open>
  A verification library for the Hovorun server: three servers (session, messenger, game) in one
  process that speak the old ProudNet protocol with an unmodified game client.

  \<^bold>\<open>Parts and theories.\<close> Paths are under \<^verbatim>\<open>src/src/\<close>.
  \<^item> \<open>Prelude\<close>: machine words, byte strings, ordered maps and sets (\<open>std::map\<close>, \<open>std::set\<close>), the reader
    type, the random numbers (\<open>std::mt19937_64\<close> as a sequence of numbers).
  \<^item> \<open>Message\<close> and \<open>Utf_Text\<close>: \<^verbatim>\<open>net/message.hpp\<close>, the readers and writers of all wire values and the
    conversions between UTF-8 and UTF-16. \<open>Framing\<close>: \<^verbatim>\<open>net/framing.hpp\<close>, \<open>make_frame\<close> and \<open>frame_parser\<close>.
  \<^item> \<open>Rc4\<close>: \<^verbatim>\<open>crypto/rc4.hpp\<close>. \<open>Bigint\<close> and \<open>Rsa\<close>: \<^verbatim>\<open>crypto/rsa.hpp\<close>, the limb arithmetic with 32-bit
    limbs and 64-bit intermediates, \<open>mod_pow\<close>, the key blobs and the transport of the session key.
  \<^item> \<open>Log\<close>: \<^verbatim>\<open>util/log.hpp\<close>, levels, lines and hex dumps. \<open>Accounts\<close>: \<^verbatim>\<open>app/accounts.hpp\<close>. \<open>Config\<close>:
    \<^verbatim>\<open>app/config.hpp\<close>. \<open>Program\<close>: \<^verbatim>\<open>main.cpp\<close>, the start from arguments and files, the three servers over
    one account store, and the shutdown.
  \<^item> \<open>Proudnet_Types\<close>, \<open>Proudnet\<close>, \<open>Proudnet_Events\<close>: \<^verbatim>\<open>proudnet/*\<close>. \<open>Proudnet\<close> has the state of a
    connection and of a server and the operations the applications call; \<open>Proudnet_Events\<close> has the
    completion handlers of \<^verbatim>\<open>server.cpp\<close>, which call back into the application through an
    \<open>event_sink\<close>.
  \<^item> \<open>Session\<close> and \<open>Messenger\<close>: \<^verbatim>\<open>session/*\<close> and \<^verbatim>\<open>messenger/*\<close>, event sinks with all their message
    handlers. \<open>Session_Login\<close> and \<open>Messenger_Inv\<close> have the way of a client into the first and the
    invariants of the second. \<open>Handlers\<close> has what the applications share: updating the application, sending, and decoding
    parameters before acting on them.
  \<^item> \<open>Clgs\<close>, \<open>Gscl_Types\<close>, \<open>Gscl_Proxy\<close>: \<^verbatim>\<open>game/clgs.hpp\<close>, \<^verbatim>\<open>game/gscl_types.hpp\<close> and
    \<^verbatim>\<open>game/gscl_proxy.hpp\<close>, the messages of the game. \<open>Game\<close> and \<open>Game_Handlers\<close>:
    \<^verbatim>\<open>game/game_server.*\<close>, players, channels and rooms, entering and leaving, and the handlers of all
    messages. A player refers to its room by a \<open>shared_ptr\<close> that may outlive the room's entry in
    \<open>m_rooms\<close>, so rooms live in \<open>room_store\<close> and a reference is an index. \<open>Game_Net\<close>, \<open>Game_Inv\<close> and
    \<open>Game_Rooms\<close> show that all handlers use the network through its operations, keep the invariant
    \<open>game_inv\<close>, and what entering, leaving, opening and listing rooms does. \<open>Game_Presence\<close> shows that every
    player has an open connection and every account at most one player, \<open>Game_Login\<close> how a client becomes a
    player and that players carry the accounts of the store.

  \<^bold>\<open>How a program run is modelled.\<close> The program is single threaded: \<open>asio\<close> runs one completion
  handler after the other. A \<open>world\<close> is the state of one ProudNet server and of its application, and
  a step (\<open>net_step\<close> in \<open>Proudnet_Reach\<close>) is one completion handler: accept, read, write, timer, stop.
  A handler that throws keeps what it had changed, as the source does; \<open>peer_close\<close> runs the
  application's \<open>on_client_leave\<close> at the point where the source calls it. The clock, the random
  numbers, the dates and the conversion of a duration to \<open>double\<close> are part of the state, as
  sequences of which every reading takes the next element. \<open>reachable\<close> is any number of steps. A step of
  the program (\<open>program_step\<close> in \<open>Program\<close>) is one completion handler of one of the three servers, or the
  signal handler. Each server's application state has a field for the store; in the program the field is
  filled from the one store before a handler of the server runs (\<open>session_view\<close>, \<open>messenger_view\<close>,
  \<open>game_view\<close>) and the store is taken from it afterwards (\<open>put_session\<close>, \<open>put_messenger\<close>, \<open>put_game\<close>), so
  all servers always see the same accounts. Whether a port can be listened on is a parameter of the start.

  \<^bold>\<open>Interfaces.\<close> \<open>wire_codec\<close> (a reader undoes a writer), \<open>host_id_pool\<close> (fresh HostIDs), \<open>ordered_map\<close>,
  \<open>account_service\<close>, \<open>event_handler\<close> (what ProudNet relies on from an application: the callbacks use
  the server through its operations only), \<open>app_invariant\<close> (a property the callbacks keep), \<open>silent_join\<close>
  (an application that does nothing when a client joins) and \<open>store_client\<close> (a server that changes the
  accounts through logins only, a sublocale of \<open>app_invariant\<close>) are locales; each is interpreted on the
  definitions of the component that provides it. \<open>Proudnet_Inv\<close>, \<open>Proudnet_Contract\<close> and
  \<open>Proudnet_Reach\<close> show that for every application within the contract the invariant \<open>net_inv\<close> of the
  network holds in every reachable state and that every read handler returns. \<open>Proudnet_Handshake\<close> shows
  that a well-behaved client gets through the handshake of a server in every such state, \<open>Shared_Store\<close> what
  a step of one server may do to the accounts, and \<open>Program\<close> that each server keeps its guarantees while
  the others run (\<open>program_inv\<close>).

  \<^bold>\<open>Properties.\<close> \<open>Wire_Properties\<close>: readers stay inside their data, every value survives the wire, frames
  are reassembled from any split, RC4 inverts itself, \<open>mod_pow\<close> computes the modular power, the session
  key is transported. \<open>Network_Properties\<close>: the handshake is the only way in, encrypted messages are
  accepted once, relays and groups deliver to exactly the right clients. \<open>Server_Properties\<close>: accounts,
  configuration, session and messenger. \<open>Game_Properties\<close>: entering, leaving and creating
  rooms does what it should, settings belong to the master, and three ways in which a client can damage
  rooms. This theory: what spans them, from the bytes a client gets to the whole program: no account plays
  twice, everybody logged in anywhere has an account in the common store, a password accepted by the
  session server is the one the game server accepts, a client with good credentials gets the configured
  address of the game and gets into the game, read handlers return, and the shutdown leaves nothing open.

  \<^bold>\<open>Bounds.\<close> At most \<open>2 ^ 30\<close> connections are open and \<open>2 ^ 30\<close> groups exist at a time, so a 32-bit HostID
  is always free; a host has far fewer sockets. The loop over received frames has as fuel one more
  than the bytes buffered for the connection; every round consumes at least four of them, and
  \<open>read_done_total\<close> shows that the fuel never runs out. The search for a room number has \<open>2 ^ 16\<close> rounds
  as fuel, after which every number has been tried; then the source would never return, and the model
  records a fault. \<open>gs_fault\<close> records the first use of a freed room, of an empty optional, or exhausted
  memory in the same way; \<open>game_handlers_faultless\<close> bounds where that can happen.

  \<^bold>\<open>Not modelled.\<close> The sockets and the scheduling of \<open>asio\<close> beyond the order of completion handlers, where
  log lines are written and their texts, and the delivery of signals.
\<close>

section \<open>The whole program\<close>

text \<open>A start without any files, and a first client in the game\<close>

definition demo_host :: host where
  "demo_host = \<lparr>args = [], files = \<lambda>_. None, listen_ok = \<lambda>ports port. port \<notin> set ports, rngs = \<lambda>_. demo_rng,
     clocks = \<lambda>_. demo_clock, to_seconds = \<lambda>_. 0, host_dates = \<lambda>_. []\<rparr>"

lemma demo_start:
  obtains s where "main_start demo_host = Inr s" "p_accounts s = account_store_new [] True" "m_peers (m_net (game_view s)) = []"
proof -
  have c: "main_config None = config_default" by (simp add: main_config_def ini_load_def)
  have "\<exists>s. main_start demo_host = Inr s"
    by (simp add: main_start_def demo_host_def c Let_def server_start_def session_new_def messenger_new_def game_new_def
        server_new_def session_server_config_def messenger_server_config_def game_server_config_def config_default_def
        split: prod.split)
  then obtain s where s: "main_start demo_host = Inr s" by blast
  moreover have "p_accounts s = account_store_new [] True"
    using main_start_inv(3) [OF s] by (simp add: demo_host_def c main_accounts_def config_default_def)
  moreover have "m_peers (m_net (game_view s)) = []"
    using s by (auto simp: main_start_def Let_def game_view_def game_new_def server_new_def split: option.splits prod.splits)
  ultimately show ?thesis using that by blast
qed


lemma demo_login:
  obtains s0 s h a where "main_start demo_host = Inr s0" "program_steps s0 s" "p_running s"
    "player_by_host (m_app (game_view s)) h = Some (player_new h a [66])"
proof -
  obtain s0 where s0: "main_start demo_host = Inr s0" "p_accounts s0 = account_store_new [] True"
    "m_peers (m_net (game_view s0)) = []" by (rule demo_start)
  have l: "fst (login [66] [66] (p_accounts s0)) = login_ok" by (simp add: s0(2) login_def account_store_new_def)
  have len: "length (logon_payload [66] [66] 1) \<le> max_frame_payload" by (rule logon_fits) simp_all
  have n: "length (m_peers (m_net (game_view s0))) < 2 ^ 30" "27 \<le> length (replicate 32 (0xC5 :: u8))"
    "length (replicate 32 (0xC5 :: u8)) \<le> 2 ^ 16" by (simp_all add: s0(3))
  from program_login [OF main_start_inv(1,2) [OF s0(1)] n wire_text_B wire_text_B l len]
  obtain h s a where "program_steps s0 s" "p_running s" "player_by_host (m_app (game_view s)) h = Some (player_new h a [66])" .
  with that s0(1) show ?thesis by blast
qed

lemma demo_connected:
  assumes "main_start e = Inr s0" "program_steps s0 s" "player_by_host (m_app (game_view s)) h = Some p"
  shows "\<exists>q. find_peer (m_net (game_view s)) h = Some q"
proof -
  have "present_inv (game_view s)" using program_safe(3) [OF assms(1,2)] by (simp add: safe_def)
  then have "h \<in> settled (m_net (game_view s))"
    using assms(3) by (force simp: present_inv_def accounts_of_def player_by_host_def)
  then show ?thesis by (auto simp: settled_def)
qed

text \<open>C1: in every state the program can reach, the network layers of the three servers are consistent, every player
  in a room sits in its slot of that room, so that no two players share a slot, and every room in the list has
  eight slots, its own number and somebody in the master's slot.\<close>

theorem program_consistent:
  assumes "main_start e = Inr s0" "program_steps s0 s"
  shows "net_inv (m_net (session_view s)) \<and> net_inv (m_net (messenger_view s)) \<and> net_inv (m_net (game_view s)) \<and>
    (\<forall>h p ref. player_by_host (m_app (game_view s)) h = Some p \<and> current_room p = Some ref \<longrightarrow>
       pl_host p = h \<and> unat (pl_slot p) < 8 \<and> r_slots (room_at (m_app (game_view s)) ref) ! unat (pl_slot p) = h) \<and>
    (\<forall>n ref. map_of (m_rooms (m_app (game_view s))) n = Some ref \<longrightarrow>
       length (r_slots (room_at (m_app (game_view s)) ref)) = 8 \<and> ri_number (r_info (room_at (m_app (game_view s)) ref)) = n \<and>
       r_slots (room_at (m_app (game_view s)) ref) ! unat (master_slot (room_at (m_app (game_view s)) ref)) \<noteq> 0)"
proof -
  have g: "game_inv (m_app (game_view s))" using program_safe(3) [OF assms] by (simp add: safe_def present_inv_def)
  show ?thesis
    using program_nets [OF assms] game_inv_player [OF g] game_inv_listed [OF g] game_inv_room [OF g]
    by (fastforce simp: player_by_host_def player_ok_def listed_ok_def room_at_def room_ok_def)
qed

theorem program_consistent_witness:
  "\<exists>s0 s h p. main_start demo_host = Inr s0 \<and> program_steps s0 s \<and> player_by_host (m_app (game_view s)) h = Some p \<and>
     net_inv (m_net (session_view s)) \<and> net_inv (m_net (messenger_view s)) \<and> net_inv (m_net (game_view s))"
proof -
  obtain s0 s h a where s: "main_start demo_host = Inr s0" "program_steps s0 s"
    "player_by_host (m_app (game_view s)) h = Some (player_new h a [66])" by (rule demo_login)
  from program_consistent [OF s(1,2)] s show ?thesis by blast
qed



text \<open>C9: connections only move forward through the handshake, on all three servers. Across any step of the program a
  connection keeps its HostID and address, never falls back to an earlier state and never changes its session key
  once the key exchange is over; a new connection starts at the beginning.\<close>

theorem connections_move_forward:
  assumes "main_start e = Inr s0" "program_steps s0 s" "program_step s s'"
  shows "moves_forward (m_net (session_view s)) (m_net (session_view s')) \<and>
    moves_forward (m_net (messenger_view s)) (m_net (messenger_view s')) \<and>
    moves_forward (m_net (game_view s)) (m_net (game_view s'))"
  using program_moves_forward [OF program_reached [OF assms(1,2)] assms(3)] .

theorem connections_move_forward_witness:
  "\<exists>s0 s s' h p. main_start demo_host = Inr s0 \<and> program_steps s0 s \<and> program_step s s' \<and> p_running s' \<and>
     player_by_host (m_app (game_view s)) h = Some p \<and> moves_forward (m_net (game_view s)) (m_net (game_view s'))"
proof -
  obtain s0 s h a where s: "main_start demo_host = Inr s0" "program_steps s0 s" "p_running s"
    "player_by_host (m_app (game_view s)) h = Some (player_new h a [66])" by (rule demo_login)
  have "program_step s (put_game (timer_done game_sink False (game_view s)) s)"
    using s(3) event_timer by (rule game_turn)
  with connections_move_forward [OF s(1,2)] s show ?thesis by (metis put_fields(6))
qed







text \<open>C2: in every state the program can reach, every player of the game has an open connection past the handshake,
  and no two players have the same account: a second login drops the first, a closed connection leaves no player
  behind, and no other server can change that.\<close>

theorem one_player_per_account:
  assumes "main_start e = Inr s0" "program_steps s0 s"
  shows "\<forall>h p. player_by_host (m_app (game_view s)) h = Some p \<longrightarrow> is_connected (m_net (game_view s)) h \<and>
    (\<forall>k q. player_by_host (m_app (game_view s)) k = Some q \<and> acc_username (pl_account q) = acc_username (pl_account p) \<longrightarrow> k = h)"
proof -
  let ?w = "game_view s"
  from program_safe(3) [OF assms] have n: "no_closed (m_net ?w)" and d: "dom (accounts_of (m_app ?w)) \<subseteq> settled (m_net ?w)"
    and o: "one_each (accounts_of (m_app ?w))" by (simp_all add: safe_def present_inv_def)
  have acc: "accounts_of (m_app ?w) k = Some (pl_account q)" if "player_by_host (m_app ?w) k = Some q" for k q
    using that by (simp add: accounts_of_def player_by_host_def)
  then have "is_connected (m_net ?w) h" if "player_by_host (m_app ?w) h = Some p" for h p
    using that d by (intro settled_connected [OF _ n]) blast
  with o acc show ?thesis unfolding one_each_def by blast
qed

theorem one_player_per_account_witness:
  "\<exists>s0 s h p. main_start demo_host = Inr s0 \<and> program_steps s0 s \<and> player_by_host (m_app (game_view s)) h = Some p \<and>
     nickname p = [66] \<and> is_connected (m_net (game_view s)) h"
proof -
  obtain s0 s h a where s: "main_start demo_host = Inr s0" "program_steps s0 s"
    "player_by_host (m_app (game_view s)) h = Some (player_new h a [66])" by (rule demo_login)
  from one_player_per_account [OF s(1,2)] s show ?thesis by (fastforce simp: player_new_def)
qed

text \<open>C5: whoever plays the game, is logged in at the messenger or is recorded as online at the session server has an
  account in the store the servers share, in every state the program can reach; players and messenger users carry
  exactly the account that the store has under their name.\<close>

theorem everyone_has_an_account:
  assumes "main_start e = Inr s0" "program_steps s0 s"
  shows "(\<forall>h p. player_by_host (m_app (game_view s)) h = Some p \<longrightarrow>
        find_account (p_accounts s) (acc_username (pl_account p)) = Some (pl_account p)) \<and>
    (\<forall>h u. map_of (m_users (m_app (messenger_view s))) h = Some u \<longrightarrow>
        find_account (p_accounts s) (acc_username (mu_account u)) = Some (mu_account u)) \<and>
    (\<forall>n h. map_of (m_online (m_app (session_view s))) n = Some h \<longrightarrow> find_account (p_accounts s) n \<noteq> None)"
proof (intro conjI allI impI)
  have i: "session_known (main_config (files e (ini_path (args e)))) (m_app (session_view s))" "messenger_known (m_app (messenger_view s))" "game_known (m_app (game_view s))"
    using program_reached [OF assms] by (simp_all add: program_inv_def session_good_def messenger_good_def game_good_def)
  show "find_account (p_accounts s) (acc_username (pl_account p)) = Some (pl_account p)"
    if "player_by_host (m_app (game_view s)) h = Some p" for h p
    using i(3) that by (fastforce simp: game_known_def accounts_of_def player_by_host_def)
  show "find_account (p_accounts s) (acc_username (mu_account u)) = Some (mu_account u)"
    if "map_of (m_users (m_app (messenger_view s))) h = Some u" for h u
    using i(2) map_of_SomeD [OF that] by (force simp: messenger_known_def user_accounts_def)
  show "find_account (p_accounts s) n \<noteq> None" if "map_of (m_online (m_app (session_view s))) n = Some h" for n h
    using i(1) that by (auto simp: session_known_def)
qed

theorem everyone_has_an_account_witness:
  "\<exists>s0 s h p. main_start demo_host = Inr s0 \<and> program_steps s0 s \<and> player_by_host (m_app (game_view s)) h = Some p \<and>
     find_account (p_accounts s) (acc_username (pl_account p)) = Some (pl_account p)"
proof -
  obtain s0 s h a where s: "main_start demo_host = Inr s0" "program_steps s0 s"
    "player_by_host (m_app (game_view s)) h = Some (player_new h a [66])" by (rule demo_login)
  from everyone_has_an_account [OF s(1,2)] s show ?thesis by blast
qed





text \<open>C6: the servers share one store. Once the session server has accepted a user's password, whatever happens in the
  program afterwards, a logon at the game server with exactly that password makes the client a player with the
  user's account, and a logon with any other password leaves the players as they are.\<close>

theorem registered_once_for_all:
  assumes "login user password (ss_accounts (m_app (session_view s))) = (login_ok, accounts)"
    and "program_steps (put_session (session_logon client user password (session_view s)) s) s'"
  shows "\<exists>a. find_account accounts user = Some a \<and>
    (if q = password then player_by_host (m_app (game_logon h user q (game_view s'))) h = Some (player_new h a user)
     else m_players (m_app (game_logon h user q (game_view s'))) = m_players (m_app (game_view s')))"
proof -
  have "grown accounts (p_accounts s')"
    using program_steps_grown [OF assms(2)] session_logon_app [OF assms(1)] by simp
  obtain a where a: "find_account accounts user = Some a" "acc_password a = password" using acc.ok_found [OF assms(1)] by blast
  have f: "find_account (p_accounts s') user = Some a" using \<open>grown accounts (p_accounts s')\<close> a(1) by (rule grown_find)
  have l: "login user q (gs_accounts (m_app (game_view s'))) = (if q = password then login_ok else wrong_password, p_accounts s')"
    using acc.found_ok [OF f, of q] a(2) by auto
  show ?thesis
  proof (cases "q = password")
    case True
    with l obtain b where "player_by_host (m_app (game_logon h user q (game_view s'))) h = Some (player_new h b user)"
      "find_account (p_accounts s') user = Some b" using logon_player [of user q "game_view s'" "p_accounts s'" h] by auto
    with True f a(1) show ?thesis by auto
  next
    case False
    with l a(1) f show ?thesis by (simp add: game_logon_def)
  qed
qed

theorem registered_once_for_all_witness:
  "\<exists>s0 s. main_start demo_host = Inr s0 \<and> s = put_session (session_logon 3 [66] [67] (session_view s0)) s0 \<and>
     player_by_host (m_app (game_logon 4 [66] [67] (game_view s))) 4 \<noteq> None \<and>
     m_players (m_app (game_logon 4 [66] [68] (game_view s))) = m_players (m_app (game_view s))"
proof -
  obtain s0 where s0: "main_start demo_host = Inr s0" "p_accounts s0 = account_store_new [] True" by (rule demo_start)
  obtain accounts where l: "login [66] [67] (ss_accounts (m_app (session_view s0))) = (login_ok, accounts)"
    by (simp add: s0(2) login_def account_store_new_def)
  show ?thesis
    using registered_once_for_all [where client = 3 and q = "[67]" and h = 4, OF l rtranclp.rtrancl_refl]
      registered_once_for_all [where client = 3 and q = "[68]" and h = 4, OF l rtranclp.rtrancl_refl] s0(1) by force
qed

text \<open>C7: the program can be stopped in every state it reaches while it runs, and once it has stopped no server has a
  connection, nobody plays, and nothing happens any more; the accounts that were known are kept.\<close>

theorem shutdown_complete:
  assumes "main_start e = Inr s0" "program_steps s0 s"
  shows "if p_running s then program_step s (main_shutdown s) \<and> \<not> p_running (main_shutdown s)
    else (\<forall>h. find_peer (m_net (session_view s)) h = None \<and> find_peer (m_net (messenger_view s)) h = None \<and>
        find_peer (m_net (game_view s)) h = None \<and> player_by_host (m_app (game_view s)) h = None) \<and>
      (\<nexists>s'. program_step s s') \<and> grown (p_accounts s0) (p_accounts s)"
proof (cases "p_running s")
  case True
  then show ?thesis by (simp add: signal) (simp add: main_shutdown_def Let_def)
next
  case False
  obtain t where t: "program_steps s0 t" "s = main_shutdown t"
    using stopped_by_signal [OF assms(2) main_start_inv(2) [OF assms(1)] False] by blast
  show ?thesis
    using False program_reached [OF assms(1) t(1)] program_steps_grown [OF assms(2)] by (auto simp: t(2) shutdown_closes elim: program_stepE)
qed

theorem shutdown_complete_witness:
  "\<exists>s0 s h. main_start demo_host = Inr s0 \<and> program_steps s0 s \<and> find_peer (m_net (game_view s)) h \<noteq> None \<and>
     find_peer (m_net (game_view (main_shutdown s))) h = None"
proof -
  obtain s0 s h a where s: "main_start demo_host = Inr s0" "program_steps s0 s" "p_running s"
    "player_by_host (m_app (game_view s)) h = Some (player_new h a [66])" by (rule demo_login)
  have "find_peer (m_net (game_view s)) h \<noteq> None" using demo_connected [OF s(1,2,4)] by blast
  moreover have stop: "program_step s (main_shutdown s)" "\<not> p_running (main_shutdown s)"
    using shutdown_complete [OF s(1,2)] s(3) by simp_all
  moreover have "find_peer (m_net (game_view (main_shutdown s))) h = None"
    using shutdown_complete [OF s(1) rtranclp.rtrancl_into_rtrancl [OF s(2) stop(1)]] stop(2) by simp
  ultimately show ?thesis using s(1,2) by blast
qed

end
